(* ===== verification/Prelude.thy ===== *)
theory Prelude
  imports Main "HOL-Library.AList"
begin

text \<open>
  Shared vocabulary of the development: the error type of the Go code, Go's \<open>strings\<close>
  package at the level of bytes, Go maps as association lists, and the fact collections the
  component theories add to.

  A Go \<open>string\<close> is a sequence of bytes, so it is a HOL \<open>string\<close> (a list of 8-bit
  \<open>char\<close>s). A Go \<open>map[string]T\<close> is an association list: \<open>map_of\<close> reads it,
  \<open>AList.update\<close> stores into it, and the order of the list is the order in which one
  \<open>range\<close> loop happens to visit it, so a statement about all lists is a statement about all
  iteration orders. A \<open>nil\<close> map and an empty map are the same list; the code initialises a
  \<open>nil\<close> map before every write.
\<close>

named_theorems go_strings \<open>characteristic facts of Go's strings package\<close>
named_theorems wf_keep \<open>an operation keeps an invariant\<close>

section \<open>Results\<close>

text \<open>
  Go errors. \<open>NotFound\<close> is an API error for which \<open>errors.IsNotFound\<close> holds; every other
  error is known by its message. \<open>Wrap\<close> is \<open>fmt.Errorf("...: %w", err)\<close>. \<open>Panic\<close> is
  a run-time panic: it unwinds through every caller (deferred calls run) up to the controller
  runtime, which recovers it and reports it as the error of the reconciliation.
\<close>

datatype error = NotFound string | Err string | Wrap string error | Panic string

fun Error :: "error \<Rightarrow> string" where
  "Error (NotFound m) = m"
| "Error (Err m) = m"
| "Error (Wrap m e) = m @ '': '' @ Error e"
| "Error (Panic m) = m"

text \<open>\<open>apierrors.IsNotFound\<close> unwraps: it uses \<open>errors.As\<close> on the chain.\<close>

fun IsNotFound :: "error \<Rightarrow> bool" where
  "IsNotFound (NotFound m) = True"
| "IsNotFound (Err m) = False"
| "IsNotFound (Wrap m e) = IsNotFound e"
| "IsNotFound (Panic m) = False"

fun isPanic :: "error \<Rightarrow> bool" where
  "isPanic (Panic m) = True"
| "isPanic e = False"

type_synonym 'v gomap = "(string \<times> 'v) list"

section \<open>Go's \<open>strings\<close> package\<close>

definition HasPrefix :: "string \<Rightarrow> string \<Rightarrow> bool" where
  "HasPrefix s p \<longleftrightarrow> take (length p) s = p"

definition HasSuffix :: "string \<Rightarrow> string \<Rightarrow> bool" where
  "HasSuffix s p \<longleftrightarrow> length p \<le> length s \<and> drop (length s - length p) s = p"

definition TrimPrefix :: "string \<Rightarrow> string \<Rightarrow> string" where
  "TrimPrefix s p = (if HasPrefix s p then drop (length p) s else s)"

definition TrimSuffix :: "string \<Rightarrow> string \<Rightarrow> string" where
  "TrimSuffix s p = (if HasSuffix s p then take (length s - length p) s else s)"

text \<open>\<open>strings.Contains s sub\<close>: some suffix of \<open>s\<close> starts with \<open>sub\<close>.\<close>

fun Contains :: "string \<Rightarrow> string \<Rightarrow> bool" where
  "Contains [] sub = (sub = [])"
| "Contains (c # s) sub = (HasPrefix (c # s) sub \<or> Contains s sub)"

text \<open>
  Separators in the code are single bytes (\<open>"/"\<close>, \<open>","\<close>, \<open>":"\<close>, \<open>"@"\<close>, \<open>"?"\<close>,
  \<open>"#"\<close>), so \<open>Cut\<close>, \<open>Split\<close> and \<open>SplitN _ _ 2\<close> take the separator as a byte.
\<close>

fun Cut :: "string \<Rightarrow> char \<Rightarrow> string \<times> string \<times> bool" where
  "Cut [] sep = ([], [], False)"
| "Cut (c # s) sep =
     (if c = sep then ([], s, True)
      else (let (before, after, found) = Cut s sep in (c # before, after, found)))"

fun Split :: "string \<Rightarrow> char \<Rightarrow> string list" where
  "Split [] sep = [[]]"
| "Split (c # s) sep =
     (if c = sep then [] # Split s sep
      else (case Split s sep of [] \<Rightarrow> [[c]] | w # ws \<Rightarrow> (c # w) # ws))"

definition SplitN2 :: "string \<Rightarrow> char \<Rightarrow> string list" where
  "SplitN2 s sep = (let (before, after, found) = Cut s sep in if found then [before, after] else [s])"

definition ReplaceByte :: "string \<Rightarrow> char \<Rightarrow> char \<Rightarrow> string" where
  "ReplaceByte s old new = map (\<lambda>c. if c = old then new else c) s"

text \<open>\<open>strings.Join\<close> with a one-byte separator, the inverse of \<open>Split\<close>.\<close>

fun Join :: "string list \<Rightarrow> char \<Rightarrow> string" where
  "Join [] sep = []"
| "Join [w] sep = w"
| "Join (w # v # ws) sep = w @ sep # Join (v # ws) sep"

subsection \<open>Facts about the string functions\<close>

lemma HasPrefix_append [simp, go_strings]: "HasPrefix (p @ s) p"
  by (simp add: HasPrefix_def)

lemma HasPrefix_iff [go_strings]: "HasPrefix s p \<longleftrightarrow> (\<exists>t. s = p @ t)"
  by (auto simp: HasPrefix_def) (metis append_take_drop_id)

lemma HasSuffix_append [simp, go_strings]: "HasSuffix (s @ p) p"
  by (simp add: HasSuffix_def)

lemma HasSuffix_iff [go_strings]: "HasSuffix s p \<longleftrightarrow> (\<exists>t. s = t @ p)"
  by (auto simp: HasSuffix_def) (metis append_take_drop_id)

lemma TrimPrefix_append [simp, go_strings]: "TrimPrefix (p @ s) p = s"
  by (simp add: TrimPrefix_def)

lemma TrimSuffix_append [simp, go_strings]: "TrimSuffix (s @ p) p = s"
  by (simp add: TrimSuffix_def)

lemma TrimSuffix_id: "\<not> HasSuffix s p \<Longrightarrow> TrimSuffix s p = s"
  by (simp add: TrimSuffix_def)

lemma TrimPrefix_id: "\<not> HasPrefix s p \<Longrightarrow> TrimPrefix s p = s"
  by (simp add: TrimPrefix_def)

lemma HasSuffix_byte: "HasSuffix s [c] \<longleftrightarrow> s \<noteq> [] \<and> last s = c"
  by (cases s rule: rev_cases) (auto simp: HasSuffix_def)

lemma HasPrefix_byte: "HasPrefix s [c] \<longleftrightarrow> s \<noteq> [] \<and> hd s = c"
  by (cases s) (auto simp: HasPrefix_def)

lemma Contains_iff [go_strings]: "Contains s sub \<longleftrightarrow> (\<exists>a b. s = a @ sub @ b)"
proof (induction s)
  case Nil
  then show ?case by auto
next
  case (Cons c s)
  show ?case
  proof
    assume "Contains (c # s) sub"
    then consider "HasPrefix (c # s) sub" | "Contains s sub" by auto
    then show "\<exists>a b. c # s = a @ sub @ b"
    proof cases
      case 1
      then obtain t where "c # s = sub @ t" by (auto simp: HasPrefix_iff)
      then have "c # s = [] @ sub @ t" by simp
      then show ?thesis by blast
    next
      case 2
      then obtain a b where "s = a @ sub @ b" using Cons.IH by blast
      then have "c # s = (c # a) @ sub @ b" by simp
      then show ?thesis by blast
    qed
  next
    assume "\<exists>a b. c # s = a @ sub @ b"
    then obtain a b where ab: "c # s = a @ sub @ b" by blast
    show "Contains (c # s) sub"
    proof (cases a)
      case Nil
      with ab have "c # s = sub @ b" by simp
      then have "HasPrefix (c # s) sub" by (auto simp: HasPrefix_iff)
      then show ?thesis by simp
    next
      case (Cons d a')
      with ab have "s = a' @ sub @ b" by simp
      then have "Contains s sub" using Cons.IH by blast
      then show ?thesis by simp
    qed
  qed
qed

lemma Contains_byte [simp]: "Contains s [c] \<longleftrightarrow> c \<in> set s"
  by (auto simp: Contains_iff in_set_conv_decomp)

lemma Cut_absent [simp]: "sep \<notin> set s \<Longrightarrow> Cut s sep = (s, [], False)"
  by (induction s) auto

lemma Cut_append [simp]: "sep \<notin> set a \<Longrightarrow> Cut (a @ sep # b) sep = (a, b, True)"
  by (induction a) auto

lemma Cut_found_iff: "snd (snd (Cut s sep)) \<longleftrightarrow> sep \<in> set s"
  by (induction s) (auto simp: Let_def split: prod.splits)

lemma Cut_decomp: "Cut s sep = (a, b, True) \<Longrightarrow> s = a @ sep # b \<and> sep \<notin> set a"
  by (induction s arbitrary: a) (auto simp: Let_def split: prod.splits if_splits)

lemma SplitN2_absent [simp]: "sep \<notin> set s \<Longrightarrow> SplitN2 s sep = [s]"
  by (simp add: SplitN2_def)

lemma SplitN2_append [simp]: "sep \<notin> set a \<Longrightarrow> SplitN2 (a @ sep # b) sep = [a, b]"
  by (simp add: SplitN2_def)

lemma Split_not_Nil [simp]: "Split s sep \<noteq> []"
  by (induction s) (auto split: list.splits)

lemma Split_no_sep [go_strings]: "w \<in> set (Split s sep) \<Longrightarrow> sep \<notin> set w"
  by (induction s arbitrary: w) (fastforce split: if_splits list.splits)+

lemma Split_single [simp]: "sep \<notin> set s \<Longrightarrow> Split s sep = [s]"
  by (induction s) auto

lemma Split_append_sep [simp]: "sep \<notin> set w \<Longrightarrow> Split (w @ sep # s) sep = w # Split s sep"
  by (induction w) auto

lemma Join_Split [simp, go_strings]: "Join (Split s sep) sep = s"
proof (induction s)
  case Nil
  then show ?case by simp
next
  case (Cons c s)
  then show ?case
    by (cases "Split s sep" rule: remdups_adj.cases) auto
qed

lemma Split_Join [go_strings]:
  "ws \<noteq> [] \<Longrightarrow> (\<And>w. w \<in> set ws \<Longrightarrow> sep \<notin> set w) \<Longrightarrow> Split (Join ws sep) sep = ws"
  by (induction ws sep rule: Join.induct) auto

lemma length_ReplaceByte [simp]: "length (ReplaceByte s a b) = length s"
  by (simp add: ReplaceByte_def)

lemma ReplaceByte_absent: "old \<notin> set s \<Longrightarrow> ReplaceByte s old new = s"
  by (auto simp: ReplaceByte_def intro: map_idI)

lemma old_notin_ReplaceByte [simp]: "old \<noteq> new \<Longrightarrow> old \<notin> set (ReplaceByte s old new)"
  by (auto simp: ReplaceByte_def)

section \<open>Stripping and squeezing runs of bytes\<close>

text \<open>
  The regular expressions of the code are anchored or global runs of one byte class. They are
  modelled directly: \<open>^[C]+\<close> replaced by nothing drops the leading run, \<open>[C]+$\<close> the trailing
  run, and \<open>[C]+\<close> replaced by a byte squeezes every maximal run to that byte.
\<close>

definition strip_leading :: "(char \<Rightarrow> bool) \<Rightarrow> string \<Rightarrow> string" where
  "strip_leading P s = dropWhile P s"

definition strip_trailing :: "(char \<Rightarrow> bool) \<Rightarrow> string \<Rightarrow> string" where
  "strip_trailing P s = rev (dropWhile P (rev s))"

fun squeeze :: "(char \<Rightarrow> bool) \<Rightarrow> char \<Rightarrow> bool \<Rightarrow> string \<Rightarrow> string" where
  "squeeze P r inrun [] = []"
| "squeeze P r inrun (c # s) =
     (if P c then (if inrun then squeeze P r True s else r # squeeze P r True s)
      else c # squeeze P r False s)"

lemma length_strip_leading [simp]: "length (strip_leading P s) \<le> length s"
  by (simp add: strip_leading_def length_dropWhile_le)

lemma length_strip_trailing [simp]: "length (strip_trailing P s) \<le> length s"
  by (metis length_dropWhile_le length_rev strip_trailing_def)

lemma length_squeeze [simp]: "length (squeeze P r b s) \<le> length s"
  by (induction P r b s rule: squeeze.induct) auto

lemma set_squeeze: "c \<in> set (squeeze P r b s) \<Longrightarrow> c = r \<or> \<not> P c \<and> c \<in> set s"
  by (induction P r b s rule: squeeze.induct) (auto split: if_splits)

lemma squeeze_id: "(\<And>c. c \<in> set s \<Longrightarrow> \<not> P c) \<Longrightarrow> squeeze P r b s = s"
  by (induction P r b s rule: squeeze.induct) auto

lemma hd_strip_leading: "strip_leading P s \<noteq> [] \<Longrightarrow> \<not> P (hd (strip_leading P s))"
  by (simp add: strip_leading_def hd_dropWhile)

lemma last_strip_trailing: "strip_trailing P s \<noteq> [] \<Longrightarrow> \<not> P (last (strip_trailing P s))"
  by (simp add: strip_trailing_def hd_dropWhile last_rev)

lemma hd_strip_trailing:
  "strip_trailing P s \<noteq> [] \<Longrightarrow> hd (strip_trailing P s) = hd s"
proof -
  assume ne: "strip_trailing P s \<noteq> []"
  have "s = strip_trailing P s @ rev (takeWhile P (rev s))"
    by (metis rev_append rev_rev_ident strip_trailing_def takeWhile_dropWhile_id)
  with ne show ?thesis by (metis hd_append2)
qed

lemma squeeze_Nil_iff: "squeeze P r False s = [] \<longleftrightarrow> s = []"
  by (cases s) auto

lemma hd_squeeze: "s \<noteq> [] \<Longrightarrow> \<not> P (hd s) \<Longrightarrow> hd (squeeze P r b s) = hd s"
  by (cases s) auto

lemma last_squeeze:
  "s \<noteq> [] \<Longrightarrow> \<not> P (last s) \<Longrightarrow> squeeze P r b s \<noteq> [] \<and> last (squeeze P r b s) = last s"
proof (induction s arbitrary: b)
  case (Cons c s)
  then show ?case by (cases "s = []") auto
qed simp

lemma strip_leading_id: "s = [] \<or> \<not> P (hd s) \<Longrightarrow> strip_leading P s = s"
  by (cases s) (auto simp: strip_leading_def)

lemma strip_trailing_id: "s = [] \<or> \<not> P (last s) \<Longrightarrow> strip_trailing P s = s"
  by (cases s rule: rev_cases) (auto simp: strip_trailing_def)

end
