(* ===== verification/Kubernetes.thy ===== *)
theory Kubernetes
  imports Prelude
begin

text \<open>
  The objects the controllers read and write. The custom resource of
  \<open>api/v1alpha1/dependencyupdatecheck_types.go\<close> is modelled in full; of the types of
  Kubernetes, Tekton and Konflux (the Go packages \<open>corev1\<close>, \<open>tektonv1\<close> and
  \<open>appstudiov1alpha1\<close>) the records hold the fields the code reads or writes. Every object
  embeds an \<open>ObjectMeta\<close>, as in Go. The constants are those of
  \<open>internal/constant/constants.go\<close>.
\<close>

section \<open>Object metadata and core objects\<close>

record ObjectMeta =
  Name :: string
  Namespace :: string
  Labels :: "string gomap"
  Annotations :: "string gomap"
  Finalizers :: "string list"
  OwnerReferences :: "(string \<times> string) list"

definition newMeta :: "string \<Rightarrow> string \<Rightarrow> ObjectMeta" where
  "newMeta name namespace =
     \<lparr>Name = name, Namespace = namespace, Labels = [], Annotations = [], Finalizers = [], OwnerReferences = []\<rparr>"

record Secret =
  secMeta :: ObjectMeta
  secType :: string
  Data :: "string gomap"
  StringData :: "string gomap"

record ConfigMap =
  cmMeta :: ObjectMeta
  cmData :: "string gomap"

record ServiceAccount =
  saMeta :: ObjectMeta
  saSecrets :: "string list"

text \<open>A pod's volumes, as far as the event controller looks: their name and secret.\<close>

record PodVolume =
  podVolName :: string
  podVolSecret :: "string option"

record Pod =
  podMeta :: ObjectMeta
  podVolumes :: "PodVolume list"

record Event =
  evMeta :: ObjectMeta
  InvolvedKind :: string
  InvolvedName :: string
  InvolvedNamespace :: string
  Reason :: string
  Message :: string

section \<open>Konflux components\<close>

record GitSource =
  gsURL :: string
  gsRevision :: string

record Component =
  compMeta :: ObjectMeta
  Application :: string
  GitSource :: "GitSource option"
  GitURL :: string
  Versions :: "string list"

section \<open>The \<open>DependencyUpdateCheck\<close> resource\<close>

record ApplicationSpec =
  appApplication :: string
  appComponents :: "string list"

record NamespaceSpec =
  nsNamespace :: string
  nsApplications :: "ApplicationSpec list"

record DependencyUpdateCheck =
  ducMeta :: ObjectMeta
  Namespaces :: "NamespaceSpec list"

text \<open>The zero value, into which \<open>Client.Get\<close> decodes.\<close>

definition emptyDependencyUpdateCheck :: DependencyUpdateCheck where
  "emptyDependencyUpdateCheck = \<lparr>ducMeta = newMeta [] [], Namespaces = []\<rparr>"

section \<open>Tekton pipeline runs\<close>

record KeyToPath =
  Key :: string
  keyPath :: string

datatype VolumeSource =
    ConfigMapVolume string "KeyToPath list" "bool option" "int option"
  | SecretVolume string "KeyToPath list" "bool option" "int option"

record Volume =
  volName :: string
  volSource :: VolumeSource

record VolumeMount =
  mountName :: string
  MountPath :: string
  mountReadOnly :: bool

record SecurityContext =
  Drop :: "string list"
  RunAsNonRoot :: "bool option"
  RunAsUser :: int
  AllowPrivilegeEscalation :: bool

datatype EnvVar = EnvValue string string | EnvFieldRef string string

record Step =
  stepName :: string
  Image :: string
  Script :: string
  stepSecurity :: SecurityContext
  Requests :: "string gomap"
  Limits :: "string gomap"
  Env :: "EnvVar list"
  VolumeMounts :: "VolumeMount list"

record TaskSpec =
  taskWorkspaces :: "string list"
  Steps :: "Step list"
  Volumes :: "Volume list"

record PipelineTask =
  taskName :: string
  taskBindings :: "(string \<times> string) list"
  taskSpec :: "TaskSpec option"

record Condition =
  condType :: string
  condStatus :: string

record TimeoutFields =
  timeoutPipeline :: "int option"
  timeoutTasks :: "int option"
  timeoutFinally :: "int option"

record PipelineRun =
  plrMeta :: ObjectMeta
  plrWorkspaceDecls :: "string list"
  Tasks :: "PipelineTask list"
  plrWorkspaces :: "string list"
  Params :: "(string \<times> string) list"
  ServiceAccountName :: string
  Timeouts :: "TimeoutFields option"
  specStatus :: string
  Conditions :: "Condition list"
  CompletionTime :: "int option"

section \<open>Constants\<close>

definition MintMakerNamespaceName :: string where
  "MintMakerNamespaceName = ''mintmaker''"

definition MintMakerProcessedAnnotationName :: string where
  "MintMakerProcessedAnnotationName = ''mintmaker.appstudio.redhat.com/processed''"

definition MintMakerDisabledAnnotationName :: string where
  "MintMakerDisabledAnnotationName = ''mintmaker.appstudio.redhat.com/disabled''"

definition KiteTokenSecretLabel :: string where
  "KiteTokenSecretLabel = ''mintmaker.appstudio.redhat.com/kite-token''"

definition MintMakerRepoBranchHashLabel :: string where
  "MintMakerRepoBranchHashLabel = ''mintmaker.appstudio.redhat.com/repo-branch-hash''"

definition RenovateImageEnvName :: string where
  "RenovateImageEnvName = ''RENOVATE_IMAGE''"

definition DefaultRenovateImageURL :: string where
  "DefaultRenovateImageURL = ''quay.io/konflux-ci/mintmaker-renovate-image:latest''"

definition LeakTKImageEnvName :: string where
  "LeakTKImageEnvName = ''LEAKTK_IMAGE''"

definition DefaultLeakTKImageURL :: string where
  "DefaultLeakTKImageURL = ''quay.io/leaktk/leaktk:latest''"

definition DockerConfigJsonKey :: string where
  "DockerConfigJsonKey = ''.dockerconfigjson''"

section \<open>Objects and their keys\<close>

datatype kind = KDependencyUpdateCheck | KComponent | KSecret | KConfigMap | KServiceAccount
  | KPipelineRun | KPod | KEvent

datatype obj = OSecret Secret | OConfigMap ConfigMap | OPipelineRun PipelineRun
  | ODependencyUpdateCheck DependencyUpdateCheck | OEvent Event

type_synonym objkey = "kind \<times> string \<times> string"

definition metaKey :: "kind \<Rightarrow> ObjectMeta \<Rightarrow> objkey" where
  "metaKey k m = (k, Namespace m, Name m)"

fun objKey :: "obj \<Rightarrow> objkey" where
  "objKey (OSecret s) = metaKey KSecret (secMeta s)"
| "objKey (OConfigMap c) = metaKey KConfigMap (cmMeta c)"
| "objKey (OPipelineRun p) = metaKey KPipelineRun (plrMeta p)"
| "objKey (ODependencyUpdateCheck d) = metaKey KDependencyUpdateCheck (ducMeta d)"
| "objKey (OEvent e) = metaKey KEvent (evMeta e)"

text \<open>A map entry with a given value, as in \<open>value, exists := m[k]; exists && value == v\<close>.\<close>

definition hasEntry :: "string gomap \<Rightarrow> string \<Rightarrow> string \<Rightarrow> bool" where
  "hasEntry m k v \<longleftrightarrow> map_of m k = Some v"

text \<open>Reading a Go map of strings: the zero value where the key is absent.\<close>

definition mapGet :: "string gomap \<Rightarrow> string \<Rightarrow> string" where
  "mapGet m k = (case map_of m k of None \<Rightarrow> [] | Some v \<Rightarrow> v)"

end
