(* ===== verification/Sanitize.thy ===== *)
theory Sanitize
  imports Sha256
begin

text \<open>
  The package \<open>internal/utils\<close>, files \<open>sanitize.go\<close> and \<open>random.go\<close>: the label value
  normaliser, the truncated hash that identifies a repository and branch, and random names.
\<close>

definition isDigit :: "char \<Rightarrow> bool" where
  "isDigit c \<longleftrightarrow> 48 \<le> byte_of c \<and> byte_of c \<le> 57"

definition isLetter :: "char \<Rightarrow> bool" where
  "isLetter c \<longleftrightarrow> 65 \<le> byte_of c \<and> byte_of c \<le> 90 \<or> 97 \<le> byte_of c \<and> byte_of c \<le> 122"

text \<open>The byte classes \<open>[A-Za-z0-9]\<close> and \<open>[A-Za-z0-9_.-]\<close> of the regular expressions.\<close>

definition alnum :: "char \<Rightarrow> bool" where
  "alnum c \<longleftrightarrow> isDigit c \<or> isLetter c"

definition labelChar :: "char \<Rightarrow> bool" where
  "labelChar c \<longleftrightarrow> alnum c \<or> c = CHR ''_'' \<or> c = CHR ''.'' \<or> c = CHR ''-''"

definition NormalizeLabelValue :: "string \<Rightarrow> string" where
  "NormalizeLabelValue value =
     (let sanitized = ReplaceByte value (CHR ''/'') (CHR ''_'');
          sanitized = (if length sanitized > 63 then take 63 sanitized else sanitized);
          sanitized = strip_leading (\<lambda>c. \<not> alnum c) sanitized;
          sanitized = strip_trailing (\<lambda>c. \<not> alnum c) sanitized;
          sanitized = squeeze (\<lambda>c. \<not> labelChar c) (CHR ''_'') False sanitized
      in sanitized)"

text \<open>The key that the controller also uses to skip repositories it has handled already.\<close>

definition repoBranchKey :: "string \<Rightarrow> string \<Rightarrow> string \<Rightarrow> string" where
  "repoBranchKey host repository branch = host @ ''/'' @ repository @ ''@'' @ branch"

definition RepoBranchHash :: "string \<Rightarrow> string \<Rightarrow> string \<Rightarrow> string" where
  "RepoBranchHash host repository branch =
     take 12 (EncodeToString (Sum256 (repoBranchKey host repository branch)))"

text \<open>
  \<open>RandomString\<close>: the random generator fills \<open>length/2+1\<close> bytes; \<open>rnd i\<close> is the
  \<open>i\<close>-th of them.
\<close>

definition RandomString :: "nat \<Rightarrow> (nat \<Rightarrow> 8 word) \<Rightarrow> string" where
  "RandomString len rnd = take len (EncodeToString (map (\<lambda>i. unat (rnd i)) [0..<len div 2 + 1]))"

section \<open>Kubernetes label values\<close>

text \<open>
  What Kubernetes accepts as a label value: empty, or at most 63 bytes of \<open>[A-Za-z0-9_.-]\<close>
  that start and end with an alphanumeric one.
\<close>

definition valid_label_value :: "string \<Rightarrow> bool" where
  "valid_label_value v \<longleftrightarrow>
     v = [] \<or> length v \<le> 63 \<and> alnum (hd v) \<and> alnum (last v) \<and> list_all labelChar v"

lemma alnum_labelChar [simp]: "alnum c \<Longrightarrow> labelChar c"
  by (simp add: labelChar_def)

lemma labelChar_underscore [simp]: "labelChar (CHR ''_'')"
  by (simp add: labelChar_def)

lemma not_labelChar_slash [simp]: "\<not> labelChar (CHR ''/'')"
  by (simp add: labelChar_def alnum_def isDigit_def isLetter_def byte_of_def)

lemma is_hex_alnum: "is_hex c \<Longrightarrow> alnum c"
  by (auto simp: is_hex_def alnum_def isDigit_def isLetter_def byte_of_def)

text \<open>The three stripping and squeezing steps make any byte string a label value.\<close>

lemma squeezed_label_value:
  assumes "length s \<le> 63"
  defines "t \<equiv> strip_trailing (\<lambda>c. \<not> alnum c) (strip_leading (\<lambda>c. \<not> alnum c) s)"
  shows "valid_label_value (squeeze (\<lambda>c. \<not> labelChar c) (CHR ''_'') False t)"
proof (cases "t = []")
  case True
  then show ?thesis by (simp add: valid_label_value_def)
next
  case False
  let ?v = "squeeze (\<lambda>c. \<not> labelChar c) (CHR ''_'') False t"
  have last: "alnum (last t)" using last_strip_trailing False unfolding t_def by blast
  have "strip_leading (\<lambda>c. \<not> alnum c) s \<noteq> []"
    using False unfolding t_def by (auto simp: strip_trailing_def)
  then have "alnum (hd (strip_leading (\<lambda>c. \<not> alnum c) s))" using hd_strip_leading by blast
  then have hd: "alnum (hd t)" using hd_strip_trailing False unfolding t_def by metis
  have "length ?v \<le> length t" by simp
  also have "length t \<le> 63"
    unfolding t_def using assms(1) by (meson le_trans length_strip_leading length_strip_trailing)
  finally have "length ?v \<le> 63" .
  moreover have "hd ?v = hd t" using hd_squeeze False hd by (metis alnum_labelChar)
  moreover have "?v \<noteq> [] \<and> last ?v = last t"
    using last_squeeze [OF False] last by (metis alnum_labelChar)
  moreover have "list_all labelChar ?v"
    unfolding list_all_iff by (auto dest: set_squeeze)
  ultimately show ?thesis using hd last by (simp add: valid_label_value_def)
qed

lemma NormalizeLabelValue_valid: "valid_label_value (NormalizeLabelValue v)"
  unfolding NormalizeLabelValue_def Let_def by (rule squeezed_label_value) simp

lemma NormalizeLabelValue_id:
  assumes "valid_label_value v"
  shows "NormalizeLabelValue v = v"
proof (cases "v = []")
  case True
  then show ?thesis
    by (simp add: NormalizeLabelValue_def ReplaceByte_def strip_leading_def strip_trailing_def)
next
  case False
  with assms have v: "length v \<le> 63" "alnum (hd v)" "alnum (last v)" "\<And>c. c \<in> set v \<Longrightarrow> labelChar c"
    by (auto simp: valid_label_value_def list_all_iff)
  have "CHR ''/'' \<notin> set v" using v(4) not_labelChar_slash by blast
  then show ?thesis
    using v by (simp add: NormalizeLabelValue_def ReplaceByte_absent strip_leading_id
        strip_trailing_id squeeze_id)
qed

section \<open>Properties\<close>

text \<open>
  C37: the fixed points of \<open>NormalizeLabelValue\<close> are exactly the label values Kubernetes
  accepts, and its result is always one of them: every repository or branch name becomes a valid
  label, and a name that is one already is kept as it is.
\<close>

theorem NormalizeLabelValue_correct:
  "valid_label_value (NormalizeLabelValue v) \<and> (NormalizeLabelValue v = v \<longleftrightarrow> valid_label_value v)"
  using NormalizeLabelValue_valid NormalizeLabelValue_id by metis

lemma length_RepoBranchHash [simp]: "length (RepoBranchHash h r b) = 12"
  by (simp add: RepoBranchHash_def)

lemma is_hex_RepoBranchHash: "c \<in> set (RepoBranchHash h r b) \<Longrightarrow> is_hex c"
  unfolding RepoBranchHash_def by (meson Sum256_lt in_set_takeD is_hex_EncodeToString)

lemma all_hex_label_value:
  "v \<noteq> [] \<Longrightarrow> length v \<le> 63 \<Longrightarrow> (\<And>c. c \<in> set v \<Longrightarrow> is_hex c) \<Longrightarrow> valid_label_value v"
  by (simp add: valid_label_value_def list_all_iff is_hex_alnum)

text \<open>
  \<open>RepoBranchHash\<close> always yields twelve hexadecimal digits, which is a valid label
  value whatever bytes the host, the repository and the branch contain.
\<close>

theorem RepoBranchHash_label:
  "length (RepoBranchHash h r b) = 12 \<and> list_all is_hex (RepoBranchHash h r b)
   \<and> valid_label_value (RepoBranchHash h r b)"
proof (intro conjI)
  show "list_all is_hex (RepoBranchHash h r b)"
    unfolding list_all_iff using is_hex_RepoBranchHash by blast
  have "RepoBranchHash h r b \<noteq> []" by (metis length_0_conv length_RepoBranchHash zero_neq_numeral)
  then show "valid_label_value (RepoBranchHash h r b)"
    by (rule all_hex_label_value) (simp_all add: is_hex_RepoBranchHash)
qed simp

text \<open>
  Two repository/branch pairs share a key only when they are the same pair, as long as
  the host has no \<open>/\<close> and the repository path no \<open>@\<close>.
\<close>

theorem repoBranchKey_inj:
  assumes "CHR ''/'' \<notin> set h" "CHR ''/'' \<notin> set h'" "CHR ''@'' \<notin> set r" "CHR ''@'' \<notin> set r'"
  shows "repoBranchKey h r b = repoBranchKey h' r' b' \<longleftrightarrow> h = h' \<and> r = r' \<and> b = b'"
proof
  assume "repoBranchKey h r b = repoBranchKey h' r' b'"
  then have "Cut (h @ CHR ''/'' # r @ CHR ''@'' # b) (CHR ''/'') =
        Cut (h' @ CHR ''/'' # r' @ CHR ''@'' # b') (CHR ''/'')"
    by (simp add: repoBranchKey_def)
  then have 1: "h = h'" "r @ CHR ''@'' # b = r' @ CHR ''@'' # b'"
    using assms(1,2) by simp_all
  then have "Cut (r @ CHR ''@'' # b) (CHR ''@'') = Cut (r' @ CHR ''@'' # b') (CHR ''@'')" by metis
  then show "h = h' \<and> r = r' \<and> b = b'" using 1(1) assms(3,4) by (simp del: append_eq_append_conv)
qed simp

theorem repoBranchKey_inj_witness:
  "repoBranchKey ''github.com'' ''org/repo'' ''v1'' \<noteq> repoBranchKey ''github.com'' ''org/rep'' ''o@v1''"
  using repoBranchKey_inj [of "''github.com''" "''github.com''" "''org/repo''" "''org/rep''" "''v1''" "''o@v1''"]
  by simp

lemma length_RandomString [simp]: "length (RandomString n rnd) = n"
  by (simp add: RandomString_def)

lemma unat_u8_lt: "unat (w :: 8 word) < 256"
  using unsigned_less [of w] by simp

lemma is_hex_RandomString: "c \<in> set (RandomString n rnd) \<Longrightarrow> is_hex c"
  unfolding RandomString_def by (drule in_set_takeD, rule is_hex_EncodeToString) (auto simp: unat_u8_lt)

end
