(* ===== verification/GitUrl.thy ===== *)
theory GitUrl
  imports Sanitize
begin

text \<open>
  The package \<open>internal/utils\<close>, file \<open>utils.go\<close>: the host, the repository path and the git
  platform of a component's URL, in HTTP(S) form or in the scp-like SSH form
  \<open>user@host:path\<close>. The part of Go's \<open>net/url\<close> that the code calls comes first.

  Hosts with a bracket (IPv6 literals) are parsed by rules of \<open>net/url\<close> and \<open>net/netip\<close>
  that no statement here depends on; they are the parameter \<open>ipLit\<close>.
\<close>

section \<open>Go's \<open>net/url\<close>\<close>

record URL =
  Scheme :: string
  Host :: string
  Path :: string

text \<open>\<open>getScheme\<close>: \<open>pre\<close> is the scheme read so far, the last argument what is left.\<close>

fun getScheme_loop :: "string \<Rightarrow> string \<Rightarrow> string \<Rightarrow> error + string \<times> string" where
  "getScheme_loop raw pre [] = Inr ([], raw)"
| "getScheme_loop raw pre (c # cs) =
     (if isLetter c then getScheme_loop raw (pre @ [c]) cs
      else if isDigit c \<or> c \<in> {CHR ''+'', CHR ''-'', CHR ''.''} then
        (if pre = [] then Inr ([], raw) else getScheme_loop raw (pre @ [c]) cs)
      else if c = CHR '':'' then
        (if pre = [] then Inl (Err ''missing protocol scheme'') else Inr (pre, cs))
      else Inr ([], raw))"

definition getScheme :: "string \<Rightarrow> error + string \<times> string" where
  "getScheme raw = getScheme_loop raw [] raw"

definition ToLower :: "string \<Rightarrow> string" where
  "ToLower s = map (\<lambda>c. if isLetter c \<and> byte_of c < 97 then char_of (byte_of c + 32) else c) s"

definition unhex :: "char \<Rightarrow> nat option" where
  "unhex c = (if isDigit c then Some (byte_of c - 48)
              else if 97 \<le> byte_of c \<and> byte_of c \<le> 102 then Some (byte_of c - 87)
              else if 65 \<le> byte_of c \<and> byte_of c \<le> 70 then Some (byte_of c - 55)
              else None)"

text \<open>
  \<open>unescape\<close>: percent-decoding. \<open>bad\<close> are the bytes the mode refuses unescaped (none in a
  path), \<open>badhex a b\<close> the escapes it refuses (in a host: the ASCII ones, but for \<open>%25\<close>).
\<close>

fun unescape :: "(char \<Rightarrow> bool) \<Rightarrow> (nat \<Rightarrow> nat \<Rightarrow> bool) \<Rightarrow> string \<Rightarrow> error + string" where
  "unescape bad badhex [] = Inr []"
| "unescape bad badhex (c # cs) =
     (if c = CHR ''%'' then
        (case cs of
           a # b # rest \<Rightarrow>
             (case (unhex a, unhex b) of
                (Some x, Some y) \<Rightarrow>
                  (if badhex x y then Inl (Err ''invalid URL escape'')
                   else case unescape bad badhex rest of
                          Inl e \<Rightarrow> Inl e
                        | Inr t \<Rightarrow> Inr (char_of (16 * x + y) # t))
              | _ \<Rightarrow> Inl (Err ''invalid URL escape''))
         | _ \<Rightarrow> Inl (Err ''invalid URL escape''))
      else if bad c then Inl (Err ''invalid character in host name'')
      else case unescape bad badhex cs of Inl e \<Rightarrow> Inl e | Inr t \<Rightarrow> Inr (c # t))"

definition hostChar :: "char \<Rightarrow> bool" where
  "hostChar c \<longleftrightarrow> alnum c \<or> 128 \<le> byte_of c \<or> c \<in> set ''-_.~!$&()*+,;=:[]<>'' \<or> byte_of c \<in> {34, 39}"

definition validOptionalPort :: "string \<Rightarrow> bool" where
  "validOptionalPort port \<longleftrightarrow> (case port of [] \<Rightarrow> True | c # cs \<Rightarrow> c = CHR '':'' \<and> list_all isDigit cs)"

text \<open>The part after the last occurrence of a byte, with that byte, and the part before it.\<close>

definition afterLast :: "string \<Rightarrow> char \<Rightarrow> string" where
  "afterLast s c = rev (takeWhile (\<lambda>d. d \<noteq> c) (rev s))"

definition beforeLast :: "string \<Rightarrow> char \<Rightarrow> string" where
  "beforeLast s c = take (length s - Suc (length (afterLast s c))) s"

definition parseHost :: "(string \<Rightarrow> error + string) \<Rightarrow> string \<Rightarrow> error + string" where
  "parseHost ipLit host =
     (if CHR ''['' \<in> set host then ipLit host
      else if count_list host (CHR '':'') > 1 then Inl (Err ''too many colons in host'')
      else if CHR '':'' \<in> set host \<and> \<not> validOptionalPort (CHR '':'' # afterLast host (CHR '':''))
        then Inl (Err ''invalid port after host'')
      else unescape (\<lambda>c. \<not> hostChar c) (\<lambda>x y. x < 8 \<and> (x, y) \<noteq> (2, 5)) host)"

definition userinfoChar :: "char \<Rightarrow> bool" where
  "userinfoChar c \<longleftrightarrow> alnum c \<or> c \<in> set ''-._:~!$&()*+,;=%@'' \<or> byte_of c = 39"

definition parseAuthority :: "(string \<Rightarrow> error + string) \<Rightarrow> string \<Rightarrow> error + string" where
  "parseAuthority ipLit authority =
     (if CHR ''@'' \<notin> set authority then parseHost ipLit authority
      else case parseHost ipLit (afterLast authority (CHR ''@'')) of
             Inl e \<Rightarrow> Inl e
           | Inr host \<Rightarrow>
               (let userinfo = beforeLast authority (CHR ''@'')
                in if \<not> list_all userinfoChar userinfo then Inl (Err ''net/url: invalid userinfo'')
                   else case unescape (\<lambda>_. False) (\<lambda>_ _. False) userinfo of
                          Inl e \<Rightarrow> Inl e
                        | Inr _ \<Rightarrow> Inr host))"

definition setPath :: "URL \<Rightarrow> string \<Rightarrow> error + URL" where
  "setPath u p = (case unescape (\<lambda>_. False) (\<lambda>_ _. False) p of
                    Inl e \<Rightarrow> Inl e
                  | Inr path \<Rightarrow> Inr (u\<lparr>Path := path\<rparr>))"

definition parse_rest :: "(string \<Rightarrow> error + string) \<Rightarrow> string \<Rightarrow> string \<Rightarrow> error + URL" where
  "parse_rest ipLit scheme rest =
     (let u = \<lparr>Scheme = scheme, Host = [], Path = []\<rparr>
      in if \<not> HasPrefix rest ''/'' \<and> scheme \<noteq> [] then Inr u
         else if \<not> HasPrefix rest ''/'' \<and> CHR '':'' \<in> set (fst (Cut rest (CHR ''/'')))
           then Inl (Err ''first path segment in URL cannot contain colon'')
         else if (scheme \<noteq> [] \<or> \<not> HasPrefix rest ''///'') \<and> HasPrefix rest ''//'' then
           (let authority = takeWhile (\<lambda>c. c \<noteq> CHR ''/'') (drop 2 rest);
                rest = dropWhile (\<lambda>c. c \<noteq> CHR ''/'') (drop 2 rest)
            in case parseAuthority ipLit authority of
                 Inl e \<Rightarrow> Inl e
               | Inr host \<Rightarrow> setPath (u\<lparr>Host := host\<rparr>) rest)
         else setPath u rest)"

definition urlParse :: "(string \<Rightarrow> error + string) \<Rightarrow> string \<Rightarrow> error + URL" where
  "urlParse ipLit rawURL =
     (let (u, frag, _) = Cut rawURL (CHR ''#'')
      in if list_ex (\<lambda>c. byte_of c < 32 \<or> byte_of c = 127) u
         then Inl (Err ''net/url: invalid control character in URL'')
         else case (if u = ''*'' then Inr \<lparr>Scheme = [], Host = [], Path = ''*''\<rparr>
                    else case getScheme u of
                           Inl e \<Rightarrow> Inl e
                         | Inr (scheme, rest) \<Rightarrow>
                             parse_rest ipLit (ToLower scheme) (fst (Cut rest (CHR ''?'')))) of
                Inl e \<Rightarrow> Inl e
              | Inr url \<Rightarrow>
                  (case unescape (\<lambda>_. False) (\<lambda>_ _. False) frag of Inl e \<Rightarrow> Inl e | Inr _ \<Rightarrow> Inr url))"

definition Hostname :: "URL \<Rightarrow> string" where
  "Hostname u =
     (let host = Host u;
          host = (if CHR '':'' \<in> set host \<and> validOptionalPort (CHR '':'' # afterLast host (CHR '':''))
                  then beforeLast host (CHR '':'') else host)
      in if HasPrefix host ''['' \<and> HasSuffix host '']'' then take (length host - 2) (drop 1 host) else host)"

section \<open>\<open>utils.go\<close>\<close>

definition GetGitHost :: "(string \<Rightarrow> error + string) \<Rightarrow> string \<Rightarrow> error + string" where
  "GetGitHost ipLit giturl =
     (if Contains giturl ''@'' then
        (case SplitN2 giturl (CHR '':'') of
           [p0, p1] \<Rightarrow>
             (case SplitN2 p0 (CHR ''@'') of
                [u, host] \<Rightarrow> Inr host
              | _ \<Rightarrow> Inl (Err (''invalid SSH URL format: '' @ giturl)))
         | _ \<Rightarrow> Inl (Err (''invalid SSH URL format: '' @ giturl)))
      else case urlParse ipLit giturl of
             Inl e \<Rightarrow> Inl e
           | Inr u \<Rightarrow> Inr (Hostname u))"

definition allowedGitPlatforms :: "string list" where
  "allowedGitPlatforms = [''github'', ''gitlab'', ''forge'']"

fun platform_loop :: "string \<Rightarrow> string list \<Rightarrow> string" where
  "platform_loop host [] = []"
| "platform_loop host (platform # ps) =
     (if Contains host platform then (if platform = ''forge'' then ''forgejo'' else platform)
      else platform_loop host ps)"

definition GetGitPlatform :: "(string \<Rightarrow> error + string) \<Rightarrow> string \<Rightarrow> error + string" where
  "GetGitPlatform ipLit giturl =
     (case GetGitHost ipLit giturl of
        Inl e \<Rightarrow> Inl e
      | Inr host \<Rightarrow>
          (let gitPlatform = platform_loop host allowedGitPlatforms
           in if gitPlatform = [] then Inl (Err (''unsupported git platform for repository '' @ giturl))
              else Inr gitPlatform))"

definition GetGitPath :: "(string \<Rightarrow> error + string) \<Rightarrow> string \<Rightarrow> error + string" where
  "GetGitPath ipLit giturl0 =
     (let giturl = TrimSuffix (TrimSuffix giturl0 ''/'') ''.git''
      in if Contains giturl ''@'' then
           (case SplitN2 giturl (CHR '':'') of
              [p0, p1] \<Rightarrow> Inr (TrimPrefix p1 ''/'')
            | _ \<Rightarrow> Inl (Err (''invalid SSH URL format: '' @ giturl)))
         else case urlParse ipLit giturl of
                Inl e \<Rightarrow> Inl e
              | Inr u \<Rightarrow> Inr (TrimPrefix (Path u) ''/''))"

section \<open>Well-formed repository URLs\<close>

text \<open>Host names and repository paths of ordinary repository URLs.\<close>

definition plainHost :: "string \<Rightarrow> bool" where
  "plainHost h \<longleftrightarrow> h \<noteq> [] \<and> list_all (\<lambda>c. alnum c \<or> c = CHR ''-'' \<or> c = CHR ''.'') h"

definition plainPath :: "string \<Rightarrow> bool" where
  "plainPath p \<longleftrightarrow> p \<noteq> [] \<and> hd p \<noteq> CHR ''/'' \<and> \<not> HasSuffix p ''/'' \<and> \<not> HasSuffix p ''.git'' \<and>
     list_all (\<lambda>c. c \<notin> {CHR ''@'', CHR ''#'', CHR ''?'', CHR ''%''} \<and> 32 \<le> byte_of c \<and> byte_of c \<noteq> 127) p"

lemmas char_classes = alnum_def isDigit_def isLetter_def byte_of_def

lemma unescape_plain: "list_all (\<lambda>c. c \<noteq> CHR ''%'' \<and> \<not> bad c) s \<Longrightarrow> unescape bad badhex s = Inr s"
  by (induction s) auto

lemma getScheme_https: "getScheme (''https:'' @ rest) = Inr (''https'', rest)"
  by (simp add: getScheme_def char_classes)

lemma ToLower_https: "ToLower ''https'' = ''https''"
  by (simp add: ToLower_def char_classes)

lemma plainHost_notin:
  assumes "plainHost h"
  shows "CHR ''/'' \<notin> set h" "CHR '':'' \<notin> set h" "CHR ''@'' \<notin> set h" "CHR ''['' \<notin> set h"
    "CHR ''#'' \<notin> set h" "CHR ''?'' \<notin> set h" "CHR ''%'' \<notin> set h"
  using assms by (auto simp: plainHost_def list_all_iff char_classes)

lemma plainHost_bytes: "plainHost h \<Longrightarrow> c \<in> set h \<Longrightarrow> 32 \<le> byte_of c \<and> byte_of c \<noteq> 127"
  by (auto simp: plainHost_def list_all_iff char_classes)

lemma parseHost_plain:
  assumes "plainHost h"
  shows "parseHost ipLit h = Inr h"
proof -
  have "list_all (\<lambda>c. c \<noteq> CHR ''%'' \<and> \<not> \<not> hostChar c) h"
    using assms plainHost_notin [OF assms] by (auto simp: plainHost_def list_all_iff hostChar_def)
  then show ?thesis
    using plainHost_notin [OF assms] by (simp add: parseHost_def count_list_0_iff unescape_plain)
qed

lemma plainPath_notin:
  assumes "plainPath p"
  shows "CHR ''@'' \<notin> set p" "CHR ''#'' \<notin> set p" "CHR ''?'' \<notin> set p" "CHR ''%'' \<notin> set p"
  using assms by (auto simp: plainPath_def list_all_iff)

lemma plainPath_bytes: "plainPath p \<Longrightarrow> c \<in> set p \<Longrightarrow> 32 \<le> byte_of c \<and> byte_of c \<noteq> 127"
  by (auto simp: plainPath_def list_all_iff)

lemma takeWhile_slash: "CHR ''/'' \<notin> set h \<Longrightarrow>
    takeWhile (\<lambda>c. c \<noteq> CHR ''/'') (h @ CHR ''/'' # p) = h \<and>
    dropWhile (\<lambda>c. c \<noteq> CHR ''/'') (h @ CHR ''/'' # p) = CHR ''/'' # p"
  by (induction h) auto

lemma parse_rest_https:
  assumes h: "plainHost h" and p: "CHR ''%'' \<notin> set p"
  shows "parse_rest ipLit ''https'' (''//'' @ h @ ''/'' @ p) =
         Inr \<lparr>Scheme = ''https'', Host = h, Path = ''/'' @ p\<rparr>"
proof -
  have "unescape (\<lambda>_. False) (\<lambda>_ _. False) (CHR ''/'' # p) = Inr (CHR ''/'' # p)"
    using p by (intro unescape_plain) (auto simp: list_all_iff)
  then show ?thesis
    using takeWhile_slash [OF plainHost_notin(1) [OF h], of p] plainHost_notin(3) [OF h]
    by (simp add: parse_rest_def HasPrefix_def parseAuthority_def parseHost_plain [OF h] setPath_def)
qed

lemma urlParse_https:
  assumes h: "plainHost h"
    and p: "CHR ''%'' \<notin> set p" "CHR ''#'' \<notin> set p" "CHR ''?'' \<notin> set p"
    and ctl: "\<And>c. c \<in> set p \<Longrightarrow> 32 \<le> byte_of c \<and> byte_of c \<noteq> 127"
  shows "urlParse ipLit (''https://'' @ h @ ''/'' @ p) =
         Inr \<lparr>Scheme = ''https'', Host = h, Path = ''/'' @ p\<rparr>"
proof -
  let ?u = "''https://'' @ h @ ''/'' @ p"
  have 1: "Cut ?u (CHR ''#'') = (?u, [], False)"
    using p plainHost_notin [OF h] by (intro Cut_absent) auto
  have 2: "fst (Cut (''//'' @ h @ ''/'' @ p) (CHR ''?'')) = ''//'' @ h @ ''/'' @ p"
    using p plainHost_notin [OF h] by (subst Cut_absent) auto
  have 3: "\<not> list_ex (\<lambda>c. byte_of c < 32 \<or> byte_of c = 127) ?u"
    using ctl plainHost_bytes [OF h] by (fastforce simp: list_ex_iff byte_of_def)
  have 4: "getScheme ?u = Inr (''https'', ''//'' @ h @ ''/'' @ p)"
    using getScheme_https [of "''//'' @ h @ ''/'' @ p"] by simp
  show ?thesis
    unfolding urlParse_def Let_def 1 using 3 parse_rest_https [OF h p(1)]
    by (simp add: 4 2 ToLower_https del: append.simps)
qed

lemma Hostname_plain: "plainHost (Host u) \<Longrightarrow> Hostname u = Host u"
  using plainHost_notin [of "Host u"]
  by (cases "Host u") (auto simp: Hostname_def Let_def HasPrefix_def plainHost_def)

lemma HasSuffix_prepend:
  assumes "\<not> HasSuffix p q" "CHR ''/'' \<notin> set q"
  shows "\<not> HasSuffix (x @ CHR ''/'' # p) q"
proof
  assume "HasSuffix (x @ CHR ''/'' # p) q"
  then obtain t where t: "x @ CHR ''/'' # p = t @ q" by (auto simp: HasSuffix_iff)
  then consider us where "x = t @ us" "us @ CHR ''/'' # p = q" | us where "t = x @ us" "CHR ''/'' # p = us @ q"
    by (auto simp: append_eq_append_conv2)
  then show False
  proof cases
    case 1
    then show False using assms(2) by auto
  next
    case 2
    then show False using assms by (cases us) (auto simp: HasSuffix_iff)
  qed
qed

lemma trim_git_suffix:
  assumes "plainPath p" and "suffix \<in> {[], ''.git'', ''/'', ''.git/''}"
  shows "TrimSuffix (TrimSuffix (x @ CHR ''/'' # p @ suffix) ''/'') ''.git'' = x @ CHR ''/'' # p"
proof -
  have ne: "p \<noteq> []" and last: "last p \<noteq> CHR ''/''" and git: "\<not> HasSuffix p ''.git''"
    using assms(1) by (auto simp: plainPath_def HasSuffix_byte)
  have 1: "TrimSuffix (x @ CHR ''/'' # p) ''/'' = x @ CHR ''/'' # p"
    using ne last by (intro TrimSuffix_id) (simp add: HasSuffix_byte)
  have 2: "TrimSuffix (x @ CHR ''/'' # p) ''.git'' = x @ CHR ''/'' # p"
    using HasSuffix_prepend [OF git] by (intro TrimSuffix_id) simp
  have 3: "TrimSuffix ((x @ CHR ''/'' # p) @ ''/'') ''/'' = x @ CHR ''/'' # p"
    by (rule TrimSuffix_append)
  have 4: "TrimSuffix ((x @ CHR ''/'' # p) @ ''.git'') ''.git'' = x @ CHR ''/'' # p"
    by (rule TrimSuffix_append)
  have 5: "TrimSuffix (((x @ CHR ''/'' # p) @ ''.git'') @ ''/'') ''/'' = (x @ CHR ''/'' # p) @ ''.git''"
    by (rule TrimSuffix_append)
  have 6: "TrimSuffix ((x @ CHR ''/'' # p) @ ''.git'') ''/'' = (x @ CHR ''/'' # p) @ ''.git''"
    by (intro TrimSuffix_id) (simp add: HasSuffix_byte)
  show ?thesis using assms(2) 1 2 3 4 5 6 by auto
qed

section \<open>Properties\<close>

text \<open>
  For an ordinary host and repository path, the HTTPS form of a repository URL, with or
  without a trailing \<open>.git\<close> or slash, yields exactly that host and that path.
\<close>

theorem https_url_parts:
  assumes h: "plainHost h" and p: "plainPath p" and s: "suffix \<in> {[], ''.git'', ''/'', ''.git/''}"
  shows "GetGitHost ipLit (''https://'' @ h @ ''/'' @ p @ suffix) = Inr h
       \<and> GetGitPath ipLit (''https://'' @ h @ ''/'' @ p @ suffix) = Inr p"
proof
  have ps: "CHR ''@'' \<notin> set (p @ suffix)" "CHR ''%'' \<notin> set (p @ suffix)"
    "CHR ''#'' \<notin> set (p @ suffix)" "CHR ''?'' \<notin> set (p @ suffix)"
    using plainPath_notin [OF p] s by auto
  have ctl: "\<And>c. c \<in> set (p @ suffix) \<Longrightarrow> 32 \<le> byte_of c \<and> byte_of c \<noteq> 127"
    using plainPath_bytes [OF p] s by (auto simp: byte_of_def)
  have at: "\<not> Contains (''https://'' @ h @ ''/'' @ q) ''@''" if "CHR ''@'' \<notin> set q" for q
    using that plainHost_notin(3) [OF h] unfolding Contains_byte by simp
  show "GetGitHost ipLit (''https://'' @ h @ ''/'' @ p @ suffix) = Inr h"
    unfolding GetGitHost_def
    using urlParse_https [OF h ps(2-4) ctl, of ipLit] at [OF ps(1)] h by (simp add: Hostname_plain)
  have "TrimSuffix (TrimSuffix (''https://'' @ h @ ''/'' @ p @ suffix) ''/'') ''.git'' = ''https://'' @ h @ ''/'' @ p"
    using trim_git_suffix [OF p s, of "''https://'' @ h"] by simp
  moreover have "urlParse ipLit (''https://'' @ h @ ''/'' @ p) = Inr \<lparr>Scheme = ''https'', Host = h, Path = ''/'' @ p\<rparr>"
    using plainPath_notin [OF p] plainPath_bytes [OF p] by (intro urlParse_https [OF h]) auto
  moreover have "TrimPrefix (''/'' @ p) ''/'' = p" by (rule TrimPrefix_append)
  ultimately show "GetGitPath ipLit (''https://'' @ h @ ''/'' @ p @ suffix) = Inr p"
    unfolding GetGitPath_def Let_def using at [OF plainPath_notin(1) [OF p]] by (simp del: append.simps)
qed

theorem https_url_parts_witness:
  "GetGitHost Inr (''https://'' @ ''gitlab.com'' @ ''/'' @ ''group/sub/repo'' @ ''.git/'') = Inr ''gitlab.com''
   \<and> GetGitPath Inr (''https://'' @ ''gitlab.com'' @ ''/'' @ ''group/sub/repo'' @ ''.git/'') = Inr ''group/sub/repo''"
  by (rule https_url_parts) (simp_all add: plainHost_def plainPath_def HasSuffix_def char_classes)

text \<open>
  The scp-like form \<open>user@host:path\<close> yields the same host and path as the HTTPS form
  does, for any user name without \<open>@\<close> and \<open>:\<close>, with or without a trailing \<open>.git\<close> or
  slash.
\<close>

theorem ssh_url_parts:
  assumes u: "CHR ''@'' \<notin> set user" "CHR '':'' \<notin> set user"
    and h: "plainHost h" and p: "plainPath (o1 @ ''/'' @ p)" and p2: "plainPath p"
    and s: "suffix \<in> {[], ''.git'', ''/'', ''.git/''}"
  shows "GetGitHost ipLit (user @ ''@'' @ h @ '':'' @ (o1 @ ''/'' @ p) @ suffix) = Inr h
       \<and> GetGitPath ipLit (user @ ''@'' @ h @ '':'' @ (o1 @ ''/'' @ p) @ suffix) = Inr (o1 @ ''/'' @ p)"
proof
  let ?a = "user @ ''@'' @ h"
  have at: "Contains (?a @ x) ''@''" for x unfolding Contains_byte by simp
  have colon: "CHR '':'' \<notin> set ?a" using u plainHost_notin(2) [OF h] by simp
  have split: "SplitN2 (?a @ CHR '':'' # q) (CHR '':'') = [?a, q]" for q
    using SplitN2_append [OF colon] by simp
  have "SplitN2 ?a (CHR ''@'') = [user, h]" using SplitN2_append [OF u(1), of h] by simp
  then show "GetGitHost ipLit (user @ ''@'' @ h @ '':'' @ (o1 @ ''/'' @ p) @ suffix) = Inr h"
    unfolding GetGitHost_def using at [of "'':'' @ (o1 @ ''/'' @ p) @ suffix"] split by simp
  have trim: "TrimSuffix (TrimSuffix (user @ ''@'' @ h @ '':'' @ (o1 @ ''/'' @ p) @ suffix) ''/'') ''.git''
      = ?a @ '':'' @ o1 @ ''/'' @ p"
    using trim_git_suffix [OF p2 s, of "?a @ '':'' @ o1"] by simp
  have "\<not> HasPrefix (o1 @ ''/'' @ p) ''/''"
    using p by (simp add: plainPath_def HasPrefix_byte)
  then show "GetGitPath ipLit (user @ ''@'' @ h @ '':'' @ (o1 @ ''/'' @ p) @ suffix) = Inr (o1 @ ''/'' @ p)"
    unfolding GetGitPath_def Let_def trim using at [of "'':'' @ o1 @ ''/'' @ p"] split [of "o1 @ ''/'' @ p"]
    by (simp add: TrimPrefix_def)
qed

theorem ssh_url_parts_witness:
  "GetGitHost Inr (''git'' @ ''@'' @ ''github.com'' @ '':'' @ (''owner'' @ ''/'' @ ''repo'') @ ''.git'') = Inr ''github.com''
   \<and> GetGitPath Inr (''git'' @ ''@'' @ ''github.com'' @ '':'' @ (''owner'' @ ''/'' @ ''repo'') @ ''.git'') = Inr (''owner'' @ ''/'' @ ''repo'')"
  by (rule ssh_url_parts) (simp_all add: plainHost_def plainPath_def HasSuffix_def char_classes)

lemma platform_loop_cases:
  "platform_loop host allowedGitPlatforms =
     (if Contains host ''github'' then ''github'' else if Contains host ''gitlab'' then ''gitlab''
      else if Contains host ''forge'' then ''forgejo'' else [])"
  by (simp add: allowedGitPlatforms_def del: Contains.simps)

lemma GetGitPlatform_cases:
  "GetGitPlatform ipLit url = Inr platform \<Longrightarrow> platform \<in> {''github'', ''gitlab'', ''forgejo''}"
  by (auto simp: GetGitPlatform_def platform_loop_cases Let_def split: sum.splits if_splits)

text \<open>
  Platform detection looks at the host only and is total on it: it fails exactly when
  the URL has no host or the host names none of the three platforms, and otherwise GitHub wins over
  GitLab, which wins over Forgejo.
\<close>

theorem GetGitPlatform_iff:
  "GetGitPlatform ipLit url = Inr platform \<longleftrightarrow>
     (\<exists>host. GetGitHost ipLit url = Inr host \<and>
       (platform = ''github'' \<and> Contains host ''github''
        \<or> platform = ''gitlab'' \<and> Contains host ''gitlab'' \<and> \<not> Contains host ''github''
        \<or> platform = ''forgejo'' \<and> Contains host ''forge'' \<and> \<not> Contains host ''gitlab'' \<and> \<not> Contains host ''github''))"
  by (auto simp: GetGitPlatform_def platform_loop_cases Let_def simp del: Contains.simps split: sum.splits if_splits)

text \<open>
  A URL with a scheme and an \<open>@\<close> anywhere behind it (credentials in the authority,
  or an \<open>@\<close> in the path) takes the branch for scp-like URLs and is refused.
\<close>

theorem GetGitHost_scheme_at:
  assumes "CHR '':'' \<notin> set scheme" "CHR ''@'' \<notin> set scheme" "CHR ''@'' \<in> set rest"
  shows "GetGitHost ipLit (scheme @ '':'' @ rest) = Inl (Err (''invalid SSH URL format: '' @ scheme @ '':'' @ rest))"
proof -
  have "Contains (scheme @ '':'' @ rest) ''@''" unfolding Contains_byte using assms(3) by simp
  then show ?thesis using assms(1,2) by (simp add: GetGitHost_def)
qed

theorem GetGitHost_scheme_at_witness:
  "GetGitHost Inr (''https'' @ '':'' @ ''//github.com/org/repo@v1'') =
   Inl (Err (''invalid SSH URL format: '' @ ''https'' @ '':'' @ ''//github.com/org/repo@v1''))"
  by (rule GetGitHost_scheme_at) simp_all

end
