(* ===== verification/Slices.thy ===== *)
theory Slices
  imports Prelude
begin

text \<open>
  The package \<open>internal/slices\<close> (\<open>slice.go\<close>): the order-preserving \<open>Filter\<close> and the
  length of the common prefix of two slices, \<open>Intersection\<close>, which ranks wildcard secrets.
\<close>

text \<open>The loop of \<open>Filter\<close>: \<open>ret\<close> is the slice accumulated so far.\<close>

fun Filter_loop :: "'a list \<Rightarrow> ('a \<Rightarrow> bool) \<Rightarrow> 'a list \<Rightarrow> 'a list" where
  "Filter_loop [] testFunction ret = ret"
| "Filter_loop (s # slice) testFunction ret =
     (if testFunction s then Filter_loop slice testFunction (ret @ [s])
      else Filter_loop slice testFunction ret)"

definition Filter :: "'a list \<Rightarrow> ('a \<Rightarrow> bool) \<Rightarrow> 'a list" where
  "Filter slice testFunction = Filter_loop slice testFunction []"

text \<open>
  The loop of \<open>Intersection\<close> over \<open>s1\<close> at index \<open>i\<close> with its counter; a mismatch, or
  running past the end of \<open>s2\<close>, breaks out.
\<close>

fun Intersection_loop :: "string list \<Rightarrow> string list \<Rightarrow> nat \<Rightarrow> nat \<Rightarrow> nat" where
  "Intersection_loop [] s2 i count = count"
| "Intersection_loop (e1 # s1) s2 i count =
     (if i < length s2 \<and> e1 = s2 ! i then Intersection_loop s1 s2 (Suc i) (Suc count) else count)"

definition Intersection :: "string list \<Rightarrow> string list \<Rightarrow> nat" where
  "Intersection s1 s2 = Intersection_loop s1 s2 0 0"

section \<open>Correctness\<close>

lemma Filter_loop_filter: "Filter_loop xs P acc = acc @ filter P xs"
  by (induction xs arbitrary: acc) auto

lemma Filter_filter [simp]: "Filter xs P = filter P xs"
  by (simp add: Filter_def Filter_loop_filter)

text \<open>The reference definition of the rank: the length of the longest common prefix.\<close>

fun common_prefix :: "'a list \<Rightarrow> 'a list \<Rightarrow> 'a list" where
  "common_prefix (x # xs) (y # ys) = (if x = y then x # common_prefix xs ys else [])"
| "common_prefix _ _ = []"

lemma common_prefix_Nil [simp]: "common_prefix xs [] = []"
  by (cases xs) auto

lemma Intersection_loop_drop:
  "Intersection_loop s1 s2 i c = c + length (common_prefix s1 (drop i s2))"
proof (induction s1 arbitrary: i c)
  case (Cons e s1)
  show ?case
  proof (cases "i < length s2")
    case True
    then have "drop i s2 = s2 ! i # drop (Suc i) s2"
      by (simp add: Cons_nth_drop_Suc)
    then show ?thesis by (simp add: Cons.IH True)
  next
    case False
    then show ?thesis by simp
  qed
qed simp

lemma Intersection_common_prefix: "Intersection s1 s2 = length (common_prefix s1 s2)"
  by (simp add: Intersection_def Intersection_loop_drop)

lemma length_common_prefix_le:
  "length (common_prefix s1 s2) \<le> length s1" "length (common_prefix s1 s2) \<le> length s2"
  by (induction s1 s2 rule: common_prefix.induct) auto

lemma take_common_prefix:
  "n \<le> length (common_prefix s1 s2) \<longleftrightarrow>
   n \<le> length s1 \<and> n \<le> length s2 \<and> take n s1 = take n s2"
proof (induction s1 s2 arbitrary: n rule: common_prefix.induct)
  case (1 x xs y ys)
  then show ?case by (cases n) auto
qed auto

text \<open>
  \<open>Intersection\<close> returns the largest \<open>n\<close> such that the two slices agree
  on their first \<open>n\<close> elements, so it never exceeds the shorter slice and stops at the first
  difference.
\<close>

theorem Intersection_greatest:
  "n \<le> Intersection s1 s2 \<longleftrightarrow> n \<le> length s1 \<and> n \<le> length s2 \<and> take n s1 = take n s2"
  by (simp add: Intersection_common_prefix take_common_prefix)

end
