(* ===== verification/SecretLookup.thy ===== *)
theory SecretLookup
  imports Kubernetes Slices "HOL-Library.Multiset"
begin

text \<open>
  The choice of a credentials secret for a repository. \<open>lookupSecret\<close> of the GitLab and
  Forgejo components and \<open>GetRPMActivationKey\<close> of the base component contain the same scan over
  the candidate secrets, word for word; it is modelled once here and used by all three.

  The scan collects, in a Go map from secret index to the number of matched path parts, the secrets
  with a matching wildcard, and ranges over that map at the end. Go leaves the order of such a loop
  open, so it is a parameter: \<open>order\<close> turns the map into the sequence the loop visits. What the
  code relies on is that a loop visits each entry once, \<open>mset (order m) = mset m\<close>.
\<close>

type_synonym matches = "(nat \<times> nat) list"

definition scmRepositoryAnnotation :: string where
  "scmRepositoryAnnotation = ''appstudio.redhat.com/scm.repository''"

definition trimRepository :: "string \<Rightarrow> string" where
  "trimRepository repository = TrimPrefix (TrimSuffix repository ''/'') ''/''"

definition secretRepositories :: "string \<Rightarrow> string list" where
  "secretRepositories annotation = map trimRepository (Split annotation (CHR '',''))"

definition wildcardRepos :: "string list \<Rightarrow> string list" where
  "wildcardRepos repos = Filter repos (\<lambda>s. HasSuffix s ''*'')"

definition wildcardParts :: "string \<Rightarrow> string list" where
  "wildcardParts repo = Split (TrimSuffix repo ''*'') (CHR ''/'')"

definition matchCount :: "matches \<Rightarrow> nat \<Rightarrow> nat" where
  "matchCount m index = (case map_of m index of None \<Rightarrow> 0 | Some n \<Rightarrow> n)"

text \<open>The inner loop over the wildcard patterns of one secret.\<close>

fun wildcard_loop :: "string list \<Rightarrow> nat \<Rightarrow> string list \<Rightarrow> matches \<Rightarrow> matches" where
  "wildcard_loop parts index [] potentialMatches = potentialMatches"
| "wildcard_loop parts index (repo # repos) potentialMatches =
     (let i = Intersection parts (wildcardParts repo)
      in if i > 0 \<and> matchCount potentialMatches index < i
         then wildcard_loop parts index repos (AList.update index i potentialMatches)
         else wildcard_loop parts index repos potentialMatches)"

text \<open>
  The outer loop: it returns at the first exact match, and otherwise ends with the host-only secrets
  and the potential matches.
\<close>

datatype scan = Exact Secret | Scanned "Secret list" matches

fun scan_loop :: "string \<Rightarrow> Secret list \<Rightarrow> nat \<Rightarrow> Secret list \<Rightarrow> matches \<Rightarrow> scan" where
  "scan_loop repository [] index hostOnlySecrets potentialMatches = Scanned hostOnlySecrets potentialMatches"
| "scan_loop repository (secret # secrets) index hostOnlySecrets potentialMatches =
     (let annotation = mapGet (Annotations (secMeta secret)) scmRepositoryAnnotation
      in if annotation = []
         then scan_loop repository secrets (Suc index) (hostOnlySecrets @ [secret]) potentialMatches
         else let repos = secretRepositories annotation
              in if repository \<in> set repos then Exact secret
                 else scan_loop repository secrets (Suc index) hostOnlySecrets
                        (wildcard_loop (Split repository (CHR ''/'')) index (wildcardRepos repos) potentialMatches))"

fun best_loop :: "matches \<Rightarrow> nat \<Rightarrow> nat \<Rightarrow> nat" where
  "best_loop [] bestIndex bestCount = bestIndex"
| "best_loop ((i, cnt) # m) bestIndex bestCount =
     (if cnt > bestCount then best_loop m i cnt else best_loop m bestIndex bestCount)"

definition selectSecret :: "(matches \<Rightarrow> matches) \<Rightarrow> string \<Rightarrow> Secret list \<Rightarrow> Secret option" where
  "selectSecret order repository secrets =
     (case scan_loop repository secrets 0 [] [] of
        Exact secret \<Rightarrow> Some secret
      | Scanned hostOnlySecrets potentialMatches \<Rightarrow>
          (if potentialMatches = [] then
             (case hostOnlySecrets of [] \<Rightarrow> None | s # _ \<Rightarrow> Some s)
           else Some (secrets ! best_loop (order potentialMatches) 0 0)))"

section \<open>Specification\<close>

text \<open>What a secret offers a repository: nothing but its host, an exact match, or a wildcard score.\<close>

definition repoAnnotation :: "Secret \<Rightarrow> string" where
  "repoAnnotation s = mapGet (Annotations (secMeta s)) scmRepositoryAnnotation"

definition hostOnly :: "Secret \<Rightarrow> bool" where
  "hostOnly s \<longleftrightarrow> repoAnnotation s = []"

definition exactFor :: "string \<Rightarrow> Secret \<Rightarrow> bool" where
  "exactFor repository s \<longleftrightarrow> \<not> hostOnly s \<and> repository \<in> set (secretRepositories (repoAnnotation s))"

definition score :: "string \<Rightarrow> Secret \<Rightarrow> nat" where
  "score repository s =
     (if hostOnly s then 0
      else fold max (map (\<lambda>repo. Intersection (Split repository (CHR ''/'')) (wildcardParts repo))
                         (wildcardRepos (secretRepositories (repoAnnotation s)))) 0)"

section \<open>The loops compute the specification\<close>

lemma matchCount_update [simp]:
  "matchCount (AList.update k v m) j = (if j = k then v else matchCount m j)"
  by (simp add: matchCount_def update_conv')

lemma wildcard_loop_count:
  "matchCount (wildcard_loop parts index repos m) j =
     (if j = index then fold max (map (\<lambda>r. Intersection parts (wildcardParts r)) repos) (matchCount m index)
      else matchCount m j)"
  by (induction parts index repos m rule: wildcard_loop.induct)
    (auto simp: Let_def max_absorb1 max_absorb2)

text \<open>The map has no duplicate keys and only positive counts.\<close>

definition wf_matches :: "matches \<Rightarrow> bool" where
  "wf_matches m \<longleftrightarrow> distinct (map fst m) \<and> (\<forall>(i, c) \<in> set m. 0 < c)"

lemma wf_matches_Nil [simp, wf_keep]: "wf_matches []"
  by (simp add: wf_matches_def)

lemma set_update_subset: "set (AList.update k v m) \<subseteq> insert (k, v) (set m)"
  by (induction m) auto

lemma wf_matches_update [wf_keep]: "wf_matches m \<Longrightarrow> 0 < v \<Longrightarrow> wf_matches (AList.update k v m)"
  using set_update_subset [of k v m] by (fastforce simp: wf_matches_def distinct_update)

lemma wf_matches_wildcard_loop [wf_keep]: "wf_matches m \<Longrightarrow> wf_matches (wildcard_loop parts index repos m)"
  by (induction parts index repos m rule: wildcard_loop.induct) (auto simp: Let_def wf_matches_update)

lemma wf_matches_in_iff:
  assumes "wf_matches m"
  shows "(i, c) \<in> set m \<longleftrightarrow> 0 < c \<and> matchCount m i = c"
proof
  assume in_m: "(i, c) \<in> set m"
  then have "map_of m i = Some c" using assms by (simp add: wf_matches_def)
  then show "0 < c \<and> matchCount m i = c" using assms in_m by (auto simp: wf_matches_def matchCount_def)
next
  assume "0 < c \<and> matchCount m i = c"
  then have "map_of m i = Some c" by (auto simp: matchCount_def split: option.splits)
  then show "(i, c) \<in> set m" by (rule map_of_SomeD)
qed

lemma score_shift:
  "index \<le> j \<Longrightarrow>
   (if j - index < length (s # ss) then f ((s # ss) ! (j - index)) else 0) =
   (if j = index then f s else if j - Suc index < length ss then f (ss ! (j - Suc index)) else (0::nat))"
  by (auto simp: nth_Cons' Suc_diff_le dest: le_neq_implies_less)

text \<open>What the scan of a list that starts at \<open>index\<close> leaves behind.\<close>

lemma scan_loop_Exact:
  "scan_loop repository secrets index host m = Exact s \<longleftrightarrow> find (exactFor repository) secrets = Some s"
  by (induction repository secrets index host m rule: scan_loop.induct)
    (auto simp: Let_def exactFor_def hostOnly_def repoAnnotation_def)

lemma scan_loop_Scanned:
  "scan_loop repository secrets index host m = Scanned host' m' \<Longrightarrow> wf_matches m \<Longrightarrow>
   (\<And>j. index \<le> j \<Longrightarrow> matchCount m j = 0) \<Longrightarrow>
   host' = host @ filter hostOnly secrets \<and> wf_matches m' \<and>
   (\<forall>j. matchCount m' j = (if j < index then matchCount m j
         else if j - index < length secrets then score repository (secrets ! (j - index)) else 0))"
proof (induction repository secrets index host m arbitrary: host' m' rule: scan_loop.induct)
  case (1 repository index host m)
  then show ?case by auto
next
  case (2 repository s secrets index host m)
  show ?case
  proof (cases "hostOnly s")
    case True
    then have an: "mapGet (Annotations (secMeta s)) scmRepositoryAnnotation = []"
      by (simp add: hostOnly_def repoAnnotation_def)
    have "scan_loop repository secrets (Suc index) (host @ [s]) m = Scanned host' m'"
      using "2.prems"(1) an by simp
    from "2.IH"(1) [OF refl an this "2.prems"(2)] "2.prems"(3)
    have IH: "host' = (host @ [s]) @ filter hostOnly secrets \<and> wf_matches m' \<and>
      (\<forall>j. matchCount m' j = (if j < Suc index then matchCount m j
         else if j - Suc index < length secrets then score repository (secrets ! (j - Suc index)) else 0))"
      by simp
    moreover have "score repository s = 0" using True by (simp add: score_def)
    ultimately show ?thesis
      using True "2.prems"(3) score_shift [of index _ s secrets "score repository"] by (simp add: less_Suc_eq)
  next
    case False
    let ?an = "mapGet (Annotations (secMeta s)) scmRepositoryAnnotation"
    let ?m = "wildcard_loop (Split repository (CHR ''/'')) index (wildcardRepos (secretRepositories ?an)) m"
    have an: "?an \<noteq> []" using False by (simp add: hostOnly_def repoAnnotation_def)
    have ne: "repository \<notin> set (secretRepositories ?an)"
      using "2.prems"(1) an by (auto simp: Let_def split: if_splits)
    have run: "scan_loop repository secrets (Suc index) host ?m = Scanned host' m'"
      using "2.prems"(1) an ne by (simp add: Let_def)
    have z: "\<And>j. Suc index \<le> j \<Longrightarrow> matchCount ?m j = 0"
      using "2.prems"(3) by (simp add: wildcard_loop_count)
    have at: "matchCount ?m index = score repository s"
      using "2.prems"(3) False by (simp add: wildcard_loop_count score_def repoAnnotation_def)
    from "2.IH"(2) [OF refl an refl ne run wf_matches_wildcard_loop [OF "2.prems"(2)] z]
    show ?thesis using False at score_shift [of index _ s secrets "score repository"]
      by (simp add: less_Suc_eq wildcard_loop_count)
  qed
qed

lemma best_loop_max:
  "m \<noteq> [] \<or> (bestIndex, bestCount) \<in> M \<Longrightarrow> (\<forall>(i, c) \<in> set m. 0 < c) \<Longrightarrow> bestCount = 0 \<or> (bestIndex, bestCount) \<in> M \<Longrightarrow>
   set m \<subseteq> M \<Longrightarrow>
   \<exists>c. (best_loop m bestIndex bestCount, c) \<in> M \<and> bestCount \<le> c \<and> (\<forall>(j, d) \<in> set m. d \<le> c)"
proof (induction m bestIndex bestCount rule: best_loop.induct)
  case (2 i cnt m bestIndex bestCount)
  show ?case
  proof (cases "cnt > bestCount")
    case True
    have "\<exists>c. (best_loop m i cnt, c) \<in> M \<and> cnt \<le> c \<and> (\<forall>(j, d) \<in> set m. d \<le> c)"
      by (rule "2.IH"(1) [OF True]) (use "2.prems" in auto)
    then show ?thesis using True by auto
  next
    case False
    then have bc: "(bestIndex, bestCount) \<in> M" using "2.prems" by auto
    have "\<exists>c. (best_loop m bestIndex bestCount, c) \<in> M \<and> bestCount \<le> c \<and> (\<forall>(j, d) \<in> set m. d \<le> c)"
      by (rule "2.IH"(2) [OF False]) (use "2.prems" bc in auto)
    then show ?thesis using False by auto
  qed
qed auto

section \<open>Properties\<close>

lemma scan_cases:
  obtains s where "scan_loop r secrets 0 [] [] = Exact s" "find (exactFor r) secrets = Some s"
  | m where "scan_loop r secrets 0 [] [] = Scanned (filter hostOnly secrets) m"
      "find (exactFor r) secrets = None" "wf_matches m"
      "\<And>j. matchCount m j = (if j < length secrets then score r (secrets ! j) else 0)"
proof (cases "scan_loop r secrets 0 [] []")
  case (Exact s)
  then show ?thesis using that(1) by (simp add: scan_loop_Exact)
next
  case (Scanned host m)
  have "find (exactFor r) secrets = None"
    using Scanned scan_loop_Exact [of r secrets 0 "[]" "[]"] by (cases "find (exactFor r) secrets") auto
  moreover have "host = [] @ filter hostOnly secrets \<and> wf_matches m \<and>
      (\<forall>j. matchCount m j = (if j < 0 then matchCount [] j
         else if j - 0 < length secrets then score r (secrets ! (j - 0)) else 0))"
    by (rule scan_loop_Scanned [OF Scanned]) (simp_all add: matchCount_def)
  ultimately show ?thesis using that(2) Scanned by auto
qed

lemma matches_Nil_iff:
  assumes "wf_matches m" "\<And>j. matchCount m j = (if j < length secrets then score r (secrets ! j) else 0)"
  shows "m = [] \<longleftrightarrow> (\<forall>s \<in> set secrets. score r s = 0)"
proof
  assume "m = []"
  then have "\<And>j. matchCount m j = 0" by (simp add: matchCount_def)
  then show "\<forall>s \<in> set secrets. score r s = 0"
    using assms(2) by (metis in_set_conv_nth)
next
  assume z: "\<forall>s \<in> set secrets. score r s = 0"
  show "m = []"
  proof (rule ccontr)
    assume "m \<noteq> []"
    then obtain i c where "(i, c) \<in> set m" by (cases m) auto
    then have "0 < matchCount m i" using wf_matches_in_iff [OF assms(1)] by auto
    then show False using assms(2) z by (auto split: if_splits)
  qed
qed

lemma best_is_maximal:
  assumes "mset (order m) = mset m" "wf_matches m" "m \<noteq> []"
    and "\<And>j. matchCount m j = (if j < length secrets then score r (secrets ! j) else 0)"
  shows "best_loop (order m) 0 0 < length secrets
       \<and> (\<forall>t \<in> set secrets. score r t \<le> score r (secrets ! best_loop (order m) 0 0))"
proof -
  have set: "set (order m) = set m" using assms(1) by (metis set_mset_mset)
  have pos: "\<forall>(i, c) \<in> set (order m). 0 < c" using assms(2) by (simp add: set wf_matches_def)
  have ne: "order m \<noteq> []" using assms(1,3) by auto
  obtain c where c: "(best_loop (order m) 0 0, c) \<in> set m" "\<forall>(j, d) \<in> set m. d \<le> c"
    using best_loop_max [of "order m" 0 0 "set m"] ne pos set by auto
  let ?b = "best_loop (order m) 0 0"
  have b: "0 < c" "matchCount m ?b = c" using wf_matches_in_iff [OF assms(2)] c(1) by auto
  then have lt: "?b < length secrets" "score r (secrets ! ?b) = c"
    using assms(4) [of ?b] by (auto split: if_splits)
  have "score r t \<le> c" if t: "t \<in> set secrets" for t
  proof (cases "score r t = 0")
    case False
    obtain j where j: "j < length secrets" "secrets ! j = t" using t by (auto simp: in_set_conv_nth)
    then have "(j, score r t) \<in> set m" using wf_matches_in_iff [OF assms(2)] False assms(4) [of j] by simp
    then show ?thesis using c(2) by auto
  qed simp
  then show ?thesis using lt by simp
qed

lemma selectSecret_exact: "find (exactFor r) secrets = Some s \<Longrightarrow> selectSecret order r secrets = Some s"
  by (rule scan_cases [of r secrets]) (auto simp: selectSecret_def)

lemma selectSecret_wildcard:
  assumes "\<And>m. mset (order m) = mset m" "find (exactFor r) secrets = None" "\<exists>s \<in> set secrets. 0 < score r s"
  shows "\<exists>s \<in> set secrets. selectSecret order r secrets = Some s \<and> (\<forall>t \<in> set secrets. score r t \<le> score r s)"
proof (rule scan_cases [of r secrets])
  fix m
  assume m: "scan_loop r secrets 0 [] [] = Scanned (filter hostOnly secrets) m" "wf_matches m"
    "\<And>j. matchCount m j = (if j < length secrets then score r (secrets ! j) else 0)"
  then have "m \<noteq> []" using matches_Nil_iff [OF m(2,3)] assms(3) by auto
  with m best_is_maximal [of order m, OF assms(1) m(2) _ m(3)] show ?thesis
    by (auto simp: selectSecret_def)
qed (use assms(2) in simp)

lemma selectSecret_hostOnly:
  assumes "find (exactFor r) secrets = None" "\<forall>s \<in> set secrets. score r s = 0"
  shows "selectSecret order r secrets = find hostOnly secrets"
proof (rule scan_cases [of r secrets])
  fix m
  assume m: "scan_loop r secrets 0 [] [] = Scanned (filter hostOnly secrets) m" "wf_matches m"
    "\<And>j. matchCount m j = (if j < length secrets then score r (secrets ! j) else 0)"
  then have "m = []" using matches_Nil_iff [OF m(2,3)] assms(2) by auto
  moreover have "(case filter hostOnly secrets of [] \<Rightarrow> None | s # _ \<Rightarrow> Some s) = find hostOnly secrets"
    by (induction secrets) auto
  ultimately show ?thesis using m(1) by (simp add: selectSecret_def)
qed (use assms(1) in simp)


definition secretFor :: "string \<Rightarrow> string \<Rightarrow> Secret" where
  "secretFor name annotation =
     \<lparr>secMeta = (newMeta name ''ns'')\<lparr>Annotations := [(scmRepositoryAnnotation, annotation)]\<rparr>,
      secType = ''kubernetes.io/basic-auth'', Data = [(''password'', ''pw'')], StringData = []\<rparr>"

lemmas lookup_defs = selectSecret_def secretFor_def newMeta_def mapGet_def scmRepositoryAnnotation_def
  secretRepositories_def trimRepository_def wildcardRepos_def wildcardParts_def Intersection_def
  matchCount_def TrimPrefix_def TrimSuffix_def HasPrefix_def HasSuffix_def Let_def


text \<open>
  A wildcard pattern need not match as a whole. A secret bound to \<open>o/r/*\<close> is
  selected for every other repository \<open>o/r'\<close> of the same owner when no better candidate exists,
  because one common path part is enough for a positive score.
\<close>

theorem wildcard_selects_sibling:
  assumes order: "\<And>m. mset (order m) = mset m"
    and an: "repoAnnotation s = own @ ''/'' @ r @ ''/*''"
    and plain: "own \<noteq> []" "CHR ''/'' \<notin> set own" "CHR '','' \<notin> set own" "CHR ''/'' \<notin> set r" "CHR '','' \<notin> set r"
  shows "selectSecret order (own @ ''/'' @ r') [s] = Some s"
proof -
  have "hd own \<noteq> CHR ''/''" using plain by (cases own) auto
  then have trim: "trimRepository (own @ ''/'' @ r @ ''/*'') = own @ ''/'' @ r @ ''/*''"
    using plain(1) by (simp add: trimRepository_def TrimPrefix_def TrimSuffix_def HasPrefix_byte HasSuffix_byte)
  have repos: "secretRepositories (repoAnnotation s) = [own @ CHR ''/'' # r @ ''/*'']"
    using plain trim by (simp add: an secretRepositories_def)
  have sfx: "HasSuffix (own @ CHR ''/'' # r @ ''/*'') ''*''" by (simp add: HasSuffix_byte)
  have "TrimSuffix ((own @ ''/'' @ r @ ''/'') @ ''*'') ''*'' = own @ ''/'' @ r @ ''/''"
    by (rule TrimSuffix_append)
  then have parts: "wildcardParts (own @ CHR ''/'' # r @ ''/*'') = [own, r, []]"
    using plain by (simp add: wildcardParts_def)
  have ho: "\<not> hostOnly s" using an by (simp add: hostOnly_def)
  have "Split (own @ ''/'' @ r') (CHR ''/'') = own # Split r' (CHR ''/'')" using plain by simp
  then have "0 < score (own @ ''/'' @ r') s"
    using ho sfx by (simp add: score_def repos wildcardRepos_def parts Intersection_common_prefix)
  then show ?thesis
    using selectSecret_exact [of "own @ ''/'' @ r'" "[s]" s order]
      selectSecret_wildcard [OF order, of "own @ ''/'' @ r'" "[s]"]
    by (cases "exactFor (own @ ''/'' @ r') s") auto
qed

theorem wildcard_selects_sibling_witness:
  "selectSecret rev (''org'' @ ''/'' @ ''other'') [secretFor ''wild'' ''org/private/*''] = Some (secretFor ''wild'' ''org/private/*'')"
  by (rule wildcard_selects_sibling [where r = "''private''"])
    (simp_all add: repoAnnotation_def lookup_defs)

end
