(* ===== verification/Encoding.thy ===== *)
theory Encoding
  imports Sanitize "HOL-Library.Code_Target_Numeral"
begin

text \<open>
  Text encodings of Go's standard library that the code relies on: decimal numbers
  (\<open>strconv.ParseInt\<close>, \<open>fmt\<close>'s \<open>%d\<close>), UTF-8, \<open>base64.StdEncoding.DecodeString\<close> and the
  time stamp of \<open>time.Now().UTC().Format("01021504")\<close>.
\<close>

section \<open>Decimal numbers\<close>

definition digit :: "nat \<Rightarrow> char" where
  "digit n = char_of (48 + n mod 10)"

fun nat_digits :: "nat \<Rightarrow> string" where
  "nat_digits n = (if n < 10 then [digit n] else nat_digits (n div 10) @ [digit (n mod 10)])"

declare nat_digits.simps [simp del]

definition Itoa :: "int \<Rightarrow> string" where
  "Itoa i = (if i < 0 then CHR ''-'' # nat_digits (nat (- i)) else nat_digits (nat i))"

fun digits_value :: "nat \<Rightarrow> string \<Rightarrow> nat option" where
  "digits_value acc [] = Some acc"
| "digits_value acc (c # s) =
     (if isDigit c then digits_value (10 * acc + (byte_of c - 48)) s else None)"

text \<open>\<open>strconv.ParseInt(s, 10, 64)\<close>: an optional sign, decimal digits, and the value in range.\<close>

definition ParseInt :: "string \<Rightarrow> int option" where
  "ParseInt s =
     (let (neg, digs) = (case s of
            [] \<Rightarrow> (False, [])
          | c # t \<Rightarrow> if c = CHR ''-'' then (True, t) else if c = CHR ''+'' then (False, t) else (False, s))
      in if digs = [] then None
         else (case digits_value 0 digs of
                 None \<Rightarrow> None
               | Some n \<Rightarrow>
                   if neg then (if n \<le> 2 ^ 63 then Some (- int n) else None)
                   else (if n < 2 ^ 63 then Some (int n) else None)))"

section \<open>UTF-8\<close>

text \<open>
  \<open>utf8.DecodeRune\<close>: the length of the well-formed encoding a byte string starts with, \<open>0\<close>
  where there is none, and \<open>toValidUTF8\<close>, which replaces every byte that is part of none by
  U+FFFD.
\<close>

definition inRange :: "nat \<Rightarrow> nat \<Rightarrow> char \<Rightarrow> bool" where
  "inRange lo hi c \<longleftrightarrow> lo \<le> byte_of c \<and> byte_of c \<le> hi"

fun utf8Len :: "string \<Rightarrow> nat" where
  "utf8Len [] = 0"
| "utf8Len (c0 # cs) =
     (let b = byte_of c0 in
      if b < 0x80 then 1
      else if 0xC2 \<le> b \<and> b \<le> 0xDF then
        (case cs of c1 # _ \<Rightarrow> if inRange 0x80 0xBF c1 then 2 else 0 | _ \<Rightarrow> 0)
      else if 0xE0 \<le> b \<and> b \<le> 0xEF then
        (case cs of c1 # c2 # _ \<Rightarrow>
           if inRange (if b = 0xE0 then 0xA0 else 0x80) (if b = 0xED then 0x9F else 0xBF) c1
              \<and> inRange 0x80 0xBF c2 then 3 else 0
         | _ \<Rightarrow> 0)
      else if 0xF0 \<le> b \<and> b \<le> 0xF4 then
        (case cs of c1 # c2 # c3 # _ \<Rightarrow>
           if inRange (if b = 0xF0 then 0x90 else 0x80) (if b = 0xF4 then 0x8F else 0xBF) c1
              \<and> inRange 0x80 0xBF c2 \<and> inRange 0x80 0xBF c3 then 4 else 0
         | _ \<Rightarrow> 0)
      else 0)"

fun encodeRune :: "nat \<Rightarrow> string" where
  "encodeRune r =
     (if r < 0x80 then [char_of r]
      else if r < 0x800 then [char_of (0xC0 + r div 64), char_of (0x80 + r mod 64)]
      else if r < 0x10000 then
        [char_of (0xE0 + r div 4096), char_of (0x80 + r div 64 mod 64), char_of (0x80 + r mod 64)]
      else
        [char_of (0xF0 + r div 262144), char_of (0x80 + r div 4096 mod 64),
         char_of (0x80 + r div 64 mod 64), char_of (0x80 + r mod 64)])"

definition replacementChar :: nat where
  "replacementChar = 0xFFFD"

function toValidUTF8 :: "string \<Rightarrow> string" where
  "toValidUTF8 s =
     (if s = [] then []
      else if utf8Len s = 0 then encodeRune replacementChar @ toValidUTF8 (tl s)
      else take (utf8Len s) s @ toValidUTF8 (drop (utf8Len s) s))"
  by pat_completeness auto
termination by (relation "measure length") auto

declare toValidUTF8.simps [simp del]

lemma toValidUTF8_ascii:
  "(\<And>c. c \<in> set s \<Longrightarrow> byte_of c < 0x80) \<Longrightarrow> toValidUTF8 s = s"
proof (induction s)
  case (Cons c s)
  then have "utf8Len (c # s) = 1" by simp
  with Cons show ?case by (subst toValidUTF8.simps) simp
qed (simp add: toValidUTF8.simps)

section \<open>Base64\<close>

definition b64Value :: "char \<Rightarrow> nat option" where
  "b64Value c =
     (let b = byte_of c in
      if 65 \<le> b \<and> b \<le> 90 then Some (b - 65)
      else if 97 \<le> b \<and> b \<le> 122 then Some (b - 71)
      else if 48 \<le> b \<and> b \<le> 57 then Some (b + 4)
      else if b = 43 then Some 62
      else if b = 47 then Some 63
      else None)"

text \<open>Quadruples of symbols; only the last one may end in one or two padding signs.\<close>

fun b64Quads :: "string \<Rightarrow> string option" where
  "b64Quads [] = Some []"
| "b64Quads (c0 # c1 # c2 # c3 # cs) =
     (case (b64Value c0, b64Value c1) of
        (Some v0, Some v1) \<Rightarrow>
          if c2 = CHR ''='' then
            (if c3 = CHR ''='' \<and> cs = [] then Some [char_of (v0 * 4 + v1 div 16)] else None)
          else if c3 = CHR ''='' then
            (case b64Value c2 of
               Some v2 \<Rightarrow>
                 if cs = [] then Some [char_of (v0 * 4 + v1 div 16), char_of (v1 mod 16 * 16 + v2 div 4)]
                 else None
             | None \<Rightarrow> None)
          else
            (case (b64Value c2, b64Value c3, b64Quads cs) of
               (Some v2, Some v3, Some rest) \<Rightarrow>
                 Some (char_of (v0 * 4 + v1 div 16) # char_of (v1 mod 16 * 16 + v2 div 4) #
                       char_of (v2 mod 4 * 64 + v3) # rest)
             | _ \<Rightarrow> None)
      | _ \<Rightarrow> None)"
| "b64Quads _ = None"

definition base64Decode :: "string \<Rightarrow> string option" where
  "base64Decode s = b64Quads (filter (\<lambda>c. c \<noteq> CHR 0x0A \<and> c \<noteq> CHR 0x0D) s)"

section \<open>The time stamp of pipeline run names\<close>

text \<open>
  Month, day, hour and minute of a Unix time in seconds, two digits each. The date comes from the
  day number by counting from 1 March of year 0 in the proleptic Gregorian calendar, as
  \<open>time\<close> does with its 400-year cycles.
\<close>

definition monthDay :: "int \<Rightarrow> nat \<times> nat" where
  "monthDay unixDay =
     (let z = unixDay + 719468;
          doe = z mod 146097;
          yoe = (doe - doe div 1460 + doe div 36524 - doe div 146096) div 365;
          doy = doe - (365 * yoe + yoe div 4 - yoe div 100);
          mp = (5 * doy + 2) div 153;
          day = doy - (153 * mp + 2) div 5 + 1;
          month = (if mp < 10 then mp + 3 else mp - 9)
      in (nat month, nat day))"

definition twoDigits :: "nat \<Rightarrow> string" where
  "twoDigits n = [digit (n div 10), digit n]"

definition FormatMMDDhhmm :: "int \<Rightarrow> string" where
  "FormatMMDDhhmm unix =
     (let (month, day) = monthDay (unix div 86400);
          sec = nat (unix mod 86400)
      in twoDigits month @ twoDigits day @ twoDigits (sec div 3600) @ twoDigits (sec div 60 mod 60))"

lemma length_FormatMMDDhhmm [simp]: "length (FormatMMDDhhmm unix) = 8"
  by (simp add: FormatMMDDhhmm_def twoDigits_def Let_def split: prod.splits)

lemma isDigit_digit [simp]: "isDigit (digit n)"
  by (simp add: isDigit_def byte_of_def digit_def of_char_of)

lemma isDigit_FormatMMDDhhmm: "c \<in> set (FormatMMDDhhmm unix) \<Longrightarrow> isDigit c"
  by (auto simp: FormatMMDDhhmm_def twoDigits_def Let_def split: prod.splits)

lemma isDigit_nat_digits: "c \<in> set (nat_digits n) \<Longrightarrow> isDigit c"
proof (induction n rule: nat_digits.induct)
  case (1 n)
  then show ?case by (subst (asm) (2) nat_digits.simps) (auto split: if_splits)
qed

end
