(* ===== verification/Json.thy ===== *)
theory Json
  imports Encoding "HOL-Library.List_Lexorder" "HOL-Library.Char_ord"
begin

text \<open>
  Go's \<open>encoding/json\<close> as far as the code uses it: \<open>Unmarshal\<close> into \<open>interface{}\<close>,
  \<open>map[string]interface{}\<close> and nested maps of strings, \<open>Marshal\<close> and \<open>MarshalIndent\<close>.
  Parsing keeps the members of an object in the order of the text, duplicates included; decoding
  into a map keeps the last of them. Numbers stay text: \<open>floatText\<close>, a parameter, is what the
  \<open>float64\<close> nearest to a literal prints as, and \<open>None\<close> where it is out of range.
\<close>

datatype json = JNull | JBool bool | JNum string | JStr string
  | JArr "json list" | JObj "(string \<times> json) list"

section \<open>Parsing\<close>

definition isSpace :: "char \<Rightarrow> bool" where
  "isSpace c \<longleftrightarrow> c = CHR '' '' \<or> c = CHR 0x09 \<or> c = CHR 0x0A \<or> c = CHR 0x0D"

definition skipSpace :: "string \<Rightarrow> string" where
  "skipSpace s = dropWhile isSpace s"

definition hexValue :: "char \<Rightarrow> nat option" where
  "hexValue c =
     (let b = byte_of c in
      if 48 \<le> b \<and> b \<le> 57 then Some (b - 48)
      else if 97 \<le> b \<and> b \<le> 102 then Some (b - 87)
      else if 65 \<le> b \<and> b \<le> 70 then Some (b - 55)
      else None)"

text \<open>\<open>getu4\<close>: the code unit of a \<open>\uXXXX\<close> escape, given what follows the \<open>u\<close>.\<close>

fun getu4 :: "string \<Rightarrow> nat option" where
  "getu4 (a # b # c # d # s) =
     (case (hexValue a, hexValue b, hexValue c, hexValue d) of
        (Some a', Some b', Some c', Some d') \<Rightarrow> Some (((a' * 16 + b') * 16 + c') * 16 + d')
      | _ \<Rightarrow> None)"
| "getu4 _ = None"

text \<open>A low surrogate escaped right after a high one.\<close>

definition lowSurrogate :: "string \<Rightarrow> nat option" where
  "lowSurrogate s =
     (if take 2 s = [CHR 0x5C, CHR ''u''] then
        (case getu4 (drop 2 s) of
           Some r \<Rightarrow> if 0xDC00 \<le> r \<and> r < 0xE000 then Some r else None
         | None \<Rightarrow> None)
      else None)"

definition simpleEscape :: "char \<Rightarrow> char option" where
  "simpleEscape c =
     (if c = CHR 0x22 \<or> c = CHR 0x5C \<or> c = CHR ''/'' then Some c
      else if c = CHR ''b'' then Some (CHR 0x08)
      else if c = CHR ''f'' then Some (CHR 0x0C)
      else if c = CHR ''n'' then Some (CHR 0x0A)
      else if c = CHR ''r'' then Some (CHR 0x0D)
      else if c = CHR ''t'' then Some (CHR 0x09)
      else None)"

definition pushBack :: "string \<Rightarrow> (string \<times> 'a) option \<Rightarrow> (string \<times> 'a) option" where
  "pushBack p r = map_option (\<lambda>(s, x). (p @ s, x)) r"

text \<open>The rest of a string literal behind its opening quote.\<close>

function parseString :: "string \<Rightarrow> (string \<times> string) option" where
  "parseString [] = None"
| "parseString (c # cs) =
     (if c = CHR 0x22 then Some ([], cs)
      else if byte_of c < 0x20 then None
      else if c = CHR 0x5C then
        (case cs of
           [] \<Rightarrow> None
         | e # es \<Rightarrow>
             if e = CHR ''u'' then
               (case getu4 es of
                  None \<Rightarrow> None
                | Some r \<Rightarrow>
                    if 0xD800 \<le> r \<and> r < 0xDC00 then
                      (case lowSurrogate (drop 4 es) of
                         Some r2 \<Rightarrow>
                           pushBack (encodeRune (0x10000 + (r - 0xD800) * 1024 + (r2 - 0xDC00)))
                             (parseString (drop 10 es))
                       | None \<Rightarrow> pushBack (encodeRune replacementChar) (parseString (drop 4 es)))
                    else
                      pushBack (encodeRune (if 0xDC00 \<le> r \<and> r < 0xE000 then replacementChar else r))
                        (parseString (drop 4 es)))
             else (case simpleEscape e of
                     Some d \<Rightarrow> pushBack [d] (parseString es)
                   | None \<Rightarrow> None))
      else pushBack [c] (parseString cs))"
  by pat_completeness auto
termination by (relation "measure length") auto

definition parseDigits :: "string \<Rightarrow> (string \<times> string) option" where
  "parseDigits s = (if takeWhile isDigit s = [] then None else Some (takeWhile isDigit s, dropWhile isDigit s))"

definition parseInteger :: "string \<Rightarrow> (string \<times> string) option" where
  "parseInteger s =
     (case s of c # cs \<Rightarrow> if c = CHR ''0'' then Some ([c], cs) else parseDigits s | [] \<Rightarrow> None)"

definition parseFraction :: "string \<Rightarrow> (string \<times> string) option" where
  "parseFraction s =
     (case s of c # cs \<Rightarrow> if c = CHR ''.'' then pushBack [c] (parseDigits cs) else Some ([], s)
              | [] \<Rightarrow> Some ([], []))"

definition parseExponent :: "string \<Rightarrow> (string \<times> string) option" where
  "parseExponent s =
     (case s of
        c # cs \<Rightarrow>
          if c = CHR ''e'' \<or> c = CHR ''E'' then
            (case cs of
               d # ds \<Rightarrow> if d = CHR ''+'' \<or> d = CHR ''-'' then pushBack [c, d] (parseDigits ds)
                         else pushBack [c] (parseDigits cs)
             | [] \<Rightarrow> None)
          else Some ([], s)
      | [] \<Rightarrow> Some ([], []))"

definition parseNumber :: "string \<Rightarrow> (string \<times> string) option" where
  "parseNumber s =
     (let (sign, t) = (case s of c # cs \<Rightarrow> if c = CHR ''-'' then ([c], cs) else ([], s) | [] \<Rightarrow> ([], []))
      in case parseInteger t of
           None \<Rightarrow> None
         | Some (i, t1) \<Rightarrow>
             (case parseFraction t1 of
                None \<Rightarrow> None
              | Some (f, t2) \<Rightarrow>
                  (case parseExponent t2 of
                     None \<Rightarrow> None
                   | Some (e, t3) \<Rightarrow> Some (sign @ i @ f @ e, t3))))"

text \<open>
  Values, the elements of an array and the members of an object. The first argument bounds the
  number of nested calls; \<open>Unmarshal\<close> starts with twice the length of the text, which is enough
  since every second call consumes a byte.
\<close>

fun parseValue :: "nat \<Rightarrow> string \<Rightarrow> (json \<times> string) option"
and parseElements :: "nat \<Rightarrow> string \<Rightarrow> (json list \<times> string) option"
and parseMembers :: "nat \<Rightarrow> string \<Rightarrow> ((string \<times> json) list \<times> string) option" where
  "parseValue 0 s = None"
| "parseValue (Suc n) s =
     (case skipSpace s of
        [] \<Rightarrow> None
      | c # cs \<Rightarrow>
          if c = CHR 0x22 then map_option (\<lambda>(t, r). (JStr (toValidUTF8 t), r)) (parseString cs)
          else if c = CHR 0x5B then
            (case skipSpace cs of
               d # ds \<Rightarrow> if d = CHR 0x5D then Some (JArr [], ds)
                         else map_option (\<lambda>(vs, r). (JArr vs, r)) (parseElements n cs)
             | [] \<Rightarrow> None)
          else if c = CHR 0x7B then
            (case skipSpace cs of
               d # ds \<Rightarrow> if d = CHR 0x7D then Some (JObj [], ds)
                         else map_option (\<lambda>(ms, r). (JObj ms, r)) (parseMembers n cs)
             | [] \<Rightarrow> None)
          else if HasPrefix (c # cs) ''true'' then Some (JBool True, drop 3 cs)
          else if HasPrefix (c # cs) ''false'' then Some (JBool False, drop 4 cs)
          else if HasPrefix (c # cs) ''null'' then Some (JNull, drop 3 cs)
          else map_option (\<lambda>(t, r). (JNum t, r)) (parseNumber (c # cs)))"
| "parseElements 0 s = None"
| "parseElements (Suc n) s =
     (case parseValue n s of
        None \<Rightarrow> None
      | Some (v, r) \<Rightarrow>
          (case skipSpace r of
             d # ds \<Rightarrow> if d = CHR '','' then map_option (\<lambda>(vs, q). (v # vs, q)) (parseElements n ds)
                       else if d = CHR 0x5D then Some ([v], ds)
                       else None
           | [] \<Rightarrow> None))"
| "parseMembers 0 s = None"
| "parseMembers (Suc n) s =
     (case skipSpace s of
        [] \<Rightarrow> None
      | c # cs \<Rightarrow>
          if c \<noteq> CHR 0x22 then None
          else
            (case parseString cs of
               None \<Rightarrow> None
             | Some (k, r) \<Rightarrow>
                 (case skipSpace r of
                    [] \<Rightarrow> None
                  | d # ds \<Rightarrow>
                      if d \<noteq> CHR '':'' then None
                      else
                        (case parseValue n ds of
                           None \<Rightarrow> None
                         | Some (v, q) \<Rightarrow>
                             (case skipSpace q of
                                e # es \<Rightarrow>
                                  if e = CHR '','' then
                                    map_option (\<lambda>(ms, p). ((toValidUTF8 k, v) # ms, p)) (parseMembers n es)
                                  else if e = CHR 0x7D then Some ([(toValidUTF8 k, v)], es)
                                  else None
                              | [] \<Rightarrow> None)))))"

definition parseJson :: "string \<Rightarrow> json option" where
  "parseJson s =
     (case parseValue (2 * length s + 2) s of
        Some (v, r) \<Rightarrow> if skipSpace r = [] then Some v else None
      | None \<Rightarrow> None)"

section \<open>Decoding\<close>

text \<open>Members of an object stored into a map one after the other: the last duplicate wins.\<close>

definition storeAll :: "(string \<times> 'v) list \<Rightarrow> 'v gomap \<Rightarrow> 'v gomap" where
  "storeAll kvs m = fold (\<lambda>(k, v). AList.update k v) kvs m"

text \<open>Decoding into \<open>interface{}\<close>.\<close>

fun decodeAny :: "(string \<Rightarrow> string option) \<Rightarrow> json \<Rightarrow> json option"
and decodeElements :: "(string \<Rightarrow> string option) \<Rightarrow> json list \<Rightarrow> json list option"
and decodeMembers :: "(string \<Rightarrow> string option) \<Rightarrow> (string \<times> json) list \<Rightarrow> (string \<times> json) list option"
where
  "decodeAny ft JNull = Some JNull"
| "decodeAny ft (JBool b) = Some (JBool b)"
| "decodeAny ft (JNum n) = map_option JNum (ft n)"
| "decodeAny ft (JStr s) = Some (JStr s)"
| "decodeAny ft (JArr vs) = map_option JArr (decodeElements ft vs)"
| "decodeAny ft (JObj ms) = map_option (\<lambda>kvs. JObj (storeAll kvs [])) (decodeMembers ft ms)"
| "decodeElements ft [] = Some []"
| "decodeElements ft (v # vs) =
     (case (decodeAny ft v, decodeElements ft vs) of
        (Some w, Some ws) \<Rightarrow> Some (w # ws)
      | _ \<Rightarrow> None)"
| "decodeMembers ft [] = Some []"
| "decodeMembers ft ((k, v) # ms) =
     (case (decodeAny ft v, decodeMembers ft ms) of
        (Some w, Some ws) \<Rightarrow> Some ((k, w) # ws)
      | _ \<Rightarrow> None)"

text \<open>
  \<open>Unmarshal\<close> into a variable of type \<open>map[string]interface{}\<close>: \<open>Some None\<close> is the \<open>nil\<close>
  map, which the text \<open>null\<close> leaves behind without an error.
\<close>

definition UnmarshalMap :: "(string \<Rightarrow> string option) \<Rightarrow> string \<Rightarrow> json gomap option option" where
  "UnmarshalMap ft s =
     (case parseJson s of
        None \<Rightarrow> None
      | Some j \<Rightarrow>
          (case decodeAny ft j of
             Some (JObj m) \<Rightarrow> Some (Some m)
           | Some JNull \<Rightarrow> Some None
           | _ \<Rightarrow> None))"

text \<open>Decoding into the typed nested maps of strings: \<open>null\<close> is the zero value at each level.\<close>

definition decodeMap :: "(json \<Rightarrow> 'v option) \<Rightarrow> json \<Rightarrow> 'v gomap option" where
  "decodeMap dec j =
     (case j of
        JNull \<Rightarrow> Some []
      | JObj ms \<Rightarrow>
          (if list_all (\<lambda>(k, v). dec v \<noteq> None) ms
           then Some (storeAll (map (\<lambda>(k, v). (k, the (dec v))) ms) [])
           else None)
      | _ \<Rightarrow> None)"

definition decodeString :: "json \<Rightarrow> string option" where
  "decodeString j = (case j of JNull \<Rightarrow> Some [] | JStr s \<Rightarrow> Some s | _ \<Rightarrow> None)"

text \<open>\<open>Unmarshal\<close> into \<open>map[string]map[string]map[string]string\<close>.\<close>

definition UnmarshalAuths :: "string \<Rightarrow> string gomap gomap gomap option" where
  "UnmarshalAuths s =
     (case parseJson s of
        None \<Rightarrow> None
      | Some j \<Rightarrow> decodeMap (decodeMap (decodeMap decodeString)) j)"

section \<open>Encoding\<close>

definition hex4 :: "nat \<Rightarrow> string" where
  "hex4 n = [hexDigit (n div 4096), hexDigit (n div 256 mod 16), hexDigit (n div 16 mod 16), hexDigit (n mod 16)]"

definition uEscape :: "nat \<Rightarrow> string" where
  "uEscape n = CHR 0x5C # CHR ''u'' # hex4 n"

text \<open>One byte below 0x80, with the HTML-safe escapes that \<open>Marshal\<close> uses.\<close>

definition encodeByte :: "char \<Rightarrow> string" where
  "encodeByte c =
     (if c = CHR 0x22 \<or> c = CHR 0x5C then [CHR 0x5C, c]
      else if c = CHR 0x08 then [CHR 0x5C, CHR ''b'']
      else if c = CHR 0x0C then [CHR 0x5C, CHR ''f'']
      else if c = CHR 0x0A then [CHR 0x5C, CHR ''n'']
      else if c = CHR 0x0D then [CHR 0x5C, CHR ''r'']
      else if c = CHR 0x09 then [CHR 0x5C, CHR ''t'']
      else if byte_of c < 0x20 \<or> c = CHR ''<'' \<or> c = CHR ''>'' \<or> c = CHR ''&'' then uEscape (byte_of c)
      else [c])"

text \<open>The encodings of U+2028 and U+2029 are escaped; bytes that are no UTF-8 become U+FFFD.\<close>

function encodeChars :: "string \<Rightarrow> string" where
  "encodeChars s =
     (if s = [] then []
      else if utf8Len s = 0 then uEscape replacementChar @ encodeChars (tl s)
      else if utf8Len s = 1 then encodeByte (hd s) @ encodeChars (tl s)
      else if take 3 s = encodeRune 0x2028 then uEscape 0x2028 @ encodeChars (drop 3 s)
      else if take 3 s = encodeRune 0x2029 then uEscape 0x2029 @ encodeChars (drop 3 s)
      else take (utf8Len s) s @ encodeChars (drop (utf8Len s) s))"
  by pat_completeness auto
termination by (relation "measure length") auto

declare encodeChars.simps [simp del]

definition encodeString :: "string \<Rightarrow> string" where
  "encodeString s = CHR 0x22 # encodeChars s @ [CHR 0x22]"

text \<open>
  One printer for both forms: \<open>nl n\<close> is the line break in front of something at depth \<open>n\<close>,
  \<open>colon\<close> what separates a key from its value. Members are printed in the order of their keys.
\<close>

fun encodeJson :: "(nat \<Rightarrow> string) \<Rightarrow> string \<Rightarrow> nat \<Rightarrow> json \<Rightarrow> string"
and encodeElements :: "(nat \<Rightarrow> string) \<Rightarrow> string \<Rightarrow> nat \<Rightarrow> json list \<Rightarrow> string list"
and encodeMembers :: "(nat \<Rightarrow> string) \<Rightarrow> string \<Rightarrow> nat \<Rightarrow> (string \<times> json) list \<Rightarrow> (string \<times> string) list"
where
  "encodeJson nl colon n JNull = ''null''"
| "encodeJson nl colon n (JBool b) = (if b then ''true'' else ''false'')"
| "encodeJson nl colon n (JNum t) = t"
| "encodeJson nl colon n (JStr s) = encodeString s"
| "encodeJson nl colon n (JArr vs) =
     (if vs = [] then ''[]''
      else ''['' @ Join (encodeElements nl colon (Suc n) vs) (CHR '','') @ nl n @ '']'')"
| "encodeJson nl colon n (JObj ms) =
     (if ms = [] then ''{}''
      else ''{'' @ Join (map snd (sort_key fst (encodeMembers nl colon (Suc n) ms))) (CHR '','') @ nl n @ ''}'')"
| "encodeElements nl colon n [] = []"
| "encodeElements nl colon n (v # vs) = (nl n @ encodeJson nl colon n v) # encodeElements nl colon n vs"
| "encodeMembers nl colon n [] = []"
| "encodeMembers nl colon n ((k, v) # ms) =
     (k, nl n @ encodeString k @ colon @ encodeJson nl colon n v) # encodeMembers nl colon n ms"

definition Marshal :: "json \<Rightarrow> string" where
  "Marshal j = encodeJson (\<lambda>n. []) '':'' 0 j"

definition MarshalIndent :: "json \<Rightarrow> string" where
  "MarshalIndent j = encodeJson (\<lambda>n. CHR 0x0A # replicate (2 * n) (CHR '' '')) '': '' 0 j"

end
