(* ===== verification/Config.thy ===== *)
theory Config
  imports Json
begin

text \<open>
  The package \<open>internal/config\<close>: reading the controller's configuration from a JSON file.
  Durations are nanoseconds (\<open>time.Duration\<close>, an \<open>int64\<close>). The file system and the
  environment are parameters: \<open>readFile\<close> and \<open>getenv\<close>. Of \<open>time.ParseDuration\<close> only the
  \<open>float64\<close> product for the digits behind a decimal point is a parameter, \<open>fracNanos\<close>.
\<close>

section \<open>\<open>time.ParseDuration\<close>\<close>

definition nanosecond_units :: "nat gomap" where
  "nanosecond_units =
     [(''ns'', 1), (''us'', 1000), (CHR 0xC2 # CHR 0xB5 # ''s'', 1000), (CHR 0xCE # CHR 0xBC # ''s'', 1000),
      (''ms'', 1000000), (''s'', 1000000000), (''m'', 60000000000), (''h'', 3600000000000)]"

fun leadingInt :: "nat \<Rightarrow> string \<Rightarrow> nat option" where
  "leadingInt x [] = Some x"
| "leadingInt x (c # s) =
     (if \<not> isDigit c then Some x
      else if x > 2 ^ 63 div 10 then None
      else if 10 * x + (byte_of c - 48) > 2 ^ 63 then None
      else leadingInt (10 * x + (byte_of c - 48)) s)"

text \<open>The digits of a fraction and how many of them count: digits past the overflow are skipped.\<close>

fun leadingFraction :: "nat \<Rightarrow> nat \<Rightarrow> bool \<Rightarrow> string \<Rightarrow> nat \<times> nat" where
  "leadingFraction x scale overflow [] = (x, scale)"
| "leadingFraction x scale overflow (c # s) =
     (if \<not> isDigit c then (x, scale)
      else if overflow \<or> x > (2 ^ 63 - 1) div 10 \<or> 10 * x + (byte_of c - 48) > 2 ^ 63
      then leadingFraction x scale True s
      else leadingFraction (10 * x + (byte_of c - 48)) (Suc scale) False s)"

definition unitChar :: "char \<Rightarrow> bool" where
  "unitChar c \<longleftrightarrow> c \<noteq> CHR ''.'' \<and> \<not> isDigit c"

text \<open>One number with its unit: the nanoseconds it stands for and the rest of the text.\<close>

definition durationItem :: "(nat \<Rightarrow> nat \<Rightarrow> nat \<Rightarrow> nat) \<Rightarrow> string \<Rightarrow> (nat \<times> string) option" where
  "durationItem fracNanos s =
     (if hd s \<noteq> CHR ''.'' \<and> \<not> isDigit (hd s) then None
      else case leadingInt 0 s of
        None \<Rightarrow> None
      | Some v \<Rightarrow>
          (let s1 = dropWhile isDigit s;
               pre = (s1 \<noteq> s);
               dot = (s1 \<noteq> [] \<and> hd s1 = CHR ''.'');
               (f, scale) = (if dot then leadingFraction 0 0 False (tl s1) else (0, 0));
               s2 = (if dot then dropWhile isDigit (tl s1) else s1);
               post = (dot \<and> s2 \<noteq> tl s1);
               u = takeWhile unitChar s2
           in if \<not> pre \<and> \<not> post then None
              else if u = [] then None
              else case map_of nanosecond_units u of
                None \<Rightarrow> None
              | Some unit \<Rightarrow>
                  if v > 2 ^ 63 div unit then None
                  else (let w = v * unit + (if f > 0 then fracNanos f scale unit else 0)
                        in if w > 2 ^ 63 then None else Some (w, dropWhile unitChar s2))))"

lemma length_dropWhile_unit: "takeWhile P s \<noteq> [] \<Longrightarrow> length (dropWhile P s) < length s"
  by (cases s) (auto simp: length_dropWhile_le le_imp_less_Suc split: if_splits)

lemma durationItem_shorter:
  assumes "durationItem fn s = Some (w, r)"
  shows "length r < length s"
proof -
  obtain s2 where "r = dropWhile unitChar s2" "takeWhile unitChar s2 \<noteq> []" "length s2 \<le> length s"
  proof -
    let ?s1 = "dropWhile isDigit s"
    have "length (dropWhile isDigit (tl ?s1)) \<le> length s"
      using length_dropWhile_le [of isDigit "tl ?s1"] length_dropWhile_le [of isDigit s] by simp
    then show ?thesis
      using assms that length_dropWhile_le [of isDigit s]
      by (auto simp: durationItem_def Let_def split: if_splits option.splits prod.splits)
  qed
  then show ?thesis using length_dropWhile_unit [of unitChar s2] by simp
qed

function duration_loop :: "(nat \<Rightarrow> nat \<Rightarrow> nat \<Rightarrow> nat) \<Rightarrow> nat \<Rightarrow> string \<Rightarrow> nat option" where
  "duration_loop fracNanos d s =
     (if s = [] then Some d
      else case durationItem fracNanos s of
        None \<Rightarrow> None
      | Some (w, rest) \<Rightarrow> if d + w > 2 ^ 63 then None else duration_loop fracNanos (d + w) rest)"
  by pat_completeness auto
termination by (relation "measure (\<lambda>(_, _, s). length s)") (auto dest: durationItem_shorter)

declare duration_loop.simps [simp del]

definition ParseDuration :: "(nat \<Rightarrow> nat \<Rightarrow> nat \<Rightarrow> nat) \<Rightarrow> string \<Rightarrow> int option" where
  "ParseDuration fracNanos s =
     (let (neg, t) = (case s of
            [] \<Rightarrow> (False, [])
          | c # cs \<Rightarrow> if c = CHR ''-'' then (True, cs) else if c = CHR ''+'' then (False, cs) else (False, s))
      in if t = ''0'' then Some 0
         else if t = [] then None
         else case duration_loop fracNanos 0 t of
           None \<Rightarrow> None
         | Some d \<Rightarrow> if neg then Some (- int d) else if d > 2 ^ 63 - 1 then None else Some (int d))"

section \<open>Configuration\<close>

record GitHubConfig =
  TokenTTL :: int
  TokenMinValidity :: int

record KiteConfig =
  Enabled :: bool
  APIURL :: string

record Config =
  GitHub :: GitHubConfig
  Kite :: KiteConfig

definition minute :: int where
  "minute = 60 * 10 ^ 9"

definition defaultConfigPath :: string where
  "defaultConfigPath = ''/etc/mintmaker/config.json''"

definition configPathEnvVar :: string where
  "configPathEnvVar = ''MINTMAKER_CONFIG_PATH''"

definition defaultTokenTTL :: int where
  "defaultTokenTTL = 60 * minute"

definition defaultTokenMinValidity :: int where
  "defaultTokenMinValidity = 30 * minute"

text \<open>The Go struct \<open>fileConfig\<close>, with its embedded structs flattened.\<close>

record fileConfig =
  fcTokenTTL :: string
  fcTokenMinValidity :: string
  fcEnabled :: bool
  fcAPIURL :: string

definition emptyFileConfig :: fileConfig where
  "emptyFileConfig = \<lparr>fcTokenTTL = [], fcTokenMinValidity = [], fcEnabled = False, fcAPIURL = []\<rparr>"

text \<open>
  Decoding into a struct: a member is stored into the field whose name it folds to (upper case,
  with the Kelvin sign and the long s as K and S), other members are skipped, \<open>null\<close> changes
  nothing, and a value of the wrong type makes \<open>Unmarshal\<close> fail.
\<close>

fun foldName :: "string \<Rightarrow> string" where
  "foldName [] = []"
| "foldName (c # s) =
     (if take 3 (c # s) = encodeRune 0x212A then CHR ''K'' # foldName (drop 2 s)
      else if take 2 (c # s) = encodeRune 0x17F then CHR ''S'' # foldName (drop 1 s)
      else (if inRange 97 122 c then char_of (byte_of c - 32) else c) # foldName s)"

definition setString :: "json \<Rightarrow> (string \<Rightarrow> fileConfig \<Rightarrow> fileConfig) \<Rightarrow> fileConfig \<Rightarrow> fileConfig option" where
  "setString v put fc = (case v of JNull \<Rightarrow> Some fc | JStr s \<Rightarrow> Some (put s fc) | _ \<Rightarrow> None)"

definition setBool :: "json \<Rightarrow> (bool \<Rightarrow> fileConfig \<Rightarrow> fileConfig) \<Rightarrow> fileConfig \<Rightarrow> fileConfig option" where
  "setBool v put fc = (case v of JNull \<Rightarrow> Some fc | JBool b \<Rightarrow> Some (put b fc) | _ \<Rightarrow> None)"

fun storeMembers ::
  "(string \<Rightarrow> json \<Rightarrow> fileConfig \<Rightarrow> fileConfig option) \<Rightarrow> (string \<times> json) list \<Rightarrow> fileConfig \<Rightarrow> fileConfig option"
where
  "storeMembers store [] fc = Some fc"
| "storeMembers store ((k, v) # ms) fc =
     (case store (foldName k) v fc of None \<Rightarrow> None | Some fc' \<Rightarrow> storeMembers store ms fc')"

definition decodeStruct ::
  "(string \<Rightarrow> json \<Rightarrow> fileConfig \<Rightarrow> fileConfig option) \<Rightarrow> json \<Rightarrow> fileConfig \<Rightarrow> fileConfig option" where
  "decodeStruct store j fc =
     (case j of JNull \<Rightarrow> Some fc | JObj ms \<Rightarrow> storeMembers store ms fc | _ \<Rightarrow> None)"

definition storeGitHub :: "string \<Rightarrow> json \<Rightarrow> fileConfig \<Rightarrow> fileConfig option" where
  "storeGitHub k v fc =
     (if k = ''TOKEN-TTL'' then setString v (\<lambda>s. fcTokenTTL_update (\<lambda>_. s)) fc
      else if k = ''TOKEN-MIN-VALIDITY'' then setString v (\<lambda>s. fcTokenMinValidity_update (\<lambda>_. s)) fc
      else Some fc)"

definition storeKite :: "string \<Rightarrow> json \<Rightarrow> fileConfig \<Rightarrow> fileConfig option" where
  "storeKite k v fc =
     (if k = ''ENABLED'' then setBool v (\<lambda>b. fcEnabled_update (\<lambda>_. b)) fc
      else if k = ''API-URL'' then setString v (\<lambda>s. fcAPIURL_update (\<lambda>_. s)) fc
      else Some fc)"

definition storeFileConfig :: "string \<Rightarrow> json \<Rightarrow> fileConfig \<Rightarrow> fileConfig option" where
  "storeFileConfig k v fc =
     (if k = ''GITHUB'' then decodeStruct storeGitHub v fc
      else if k = ''KITE'' then decodeStruct storeKite v fc
      else Some fc)"

definition UnmarshalFileConfig :: "string \<Rightarrow> fileConfig option" where
  "UnmarshalFileConfig data =
     (case parseJson data of None \<Rightarrow> None | Some j \<Rightarrow> decodeStruct storeFileConfig j emptyFileConfig)"

definition defaultConfig :: "(string \<Rightarrow> string) \<Rightarrow> Config" where
  "defaultConfig getenv =
     \<lparr>GitHub = \<lparr>TokenTTL = defaultTokenTTL, TokenMinValidity = defaultTokenMinValidity\<rparr>,
      Kite = \<lparr>Enabled = False, APIURL = getenv ''KITE_API_URL''\<rparr>\<rparr>"

text \<open>\<open>validate\<close>: \<open>None\<close> is Go's \<open>nil\<close> error.\<close>

definition validate :: "Config \<Rightarrow> error option" where
  "validate c =
     (if TokenMinValidity (GitHub c) \<ge> TokenTTL (GitHub c) then Some (Err ''invalid configuration'') else None)"

definition positiveDuration :: "(nat \<Rightarrow> nat \<Rightarrow> nat \<Rightarrow> nat) \<Rightarrow> string \<Rightarrow> int \<Rightarrow> int" where
  "positiveDuration fracNanos s dflt =
     (case ParseDuration fracNanos s of Some d \<Rightarrow> if d > 0 then d else dflt | None \<Rightarrow> dflt)"

definition parse :: "(nat \<Rightarrow> nat \<Rightarrow> nat \<Rightarrow> nat) \<Rightarrow> (string \<Rightarrow> string) \<Rightarrow> string \<Rightarrow> Config" where
  "parse fracNanos getenv data =
     (case UnmarshalFileConfig data of
        None \<Rightarrow> defaultConfig getenv
      | Some fc \<Rightarrow>
          (let cfg = defaultConfig getenv;
               gh = \<lparr>TokenTTL = positiveDuration fracNanos (fcTokenTTL fc) (TokenTTL (GitHub cfg)),
                     TokenMinValidity =
                       positiveDuration fracNanos (fcTokenMinValidity fc) (TokenMinValidity (GitHub cfg))\<rparr>;
               kite = \<lparr>Enabled = fcEnabled fc,
                       APIURL = (if fcAPIURL fc \<noteq> [] then fcAPIURL fc else APIURL (Kite cfg))\<rparr>;
               cfg = \<lparr>GitHub = gh, Kite = kite\<rparr>
           in case validate cfg of Some e \<Rightarrow> defaultConfig getenv | None \<Rightarrow> cfg))"

definition load ::
  "(nat \<Rightarrow> nat \<Rightarrow> nat \<Rightarrow> nat) \<Rightarrow> (string \<Rightarrow> string) \<Rightarrow> (string \<Rightarrow> error + string) \<Rightarrow> string \<Rightarrow> Config" where
  "load fracNanos getenv readFile path =
     (case readFile path of Inl e \<Rightarrow> defaultConfig getenv | Inr data \<Rightarrow> parse fracNanos getenv data)"

text \<open>The body that \<open>once.Do\<close> runs in \<open>Get\<close>.\<close>

definition initialConfig ::
  "(nat \<Rightarrow> nat \<Rightarrow> nat \<Rightarrow> nat) \<Rightarrow> (string \<Rightarrow> string) \<Rightarrow> (string \<Rightarrow> error + string) \<Rightarrow> Config" where
  "initialConfig fracNanos getenv readFile =
     (let path = getenv configPathEnvVar
      in load fracNanos getenv readFile (if path = [] then defaultConfigPath else path))"

text \<open>
  \<open>Get\<close>: the package variable \<open>instance\<close> is set by the first call and never again, so the
  outside world is only consulted once.
\<close>

definition config_Get ::
  "(nat \<Rightarrow> nat \<Rightarrow> nat \<Rightarrow> nat) \<Rightarrow> (string \<Rightarrow> string) \<Rightarrow> (string \<Rightarrow> error + string)
     \<Rightarrow> Config option \<Rightarrow> Config \<times> Config option" where
  "config_Get fracNanos getenv readFile instance_var =
     (case instance_var of
        Some c \<Rightarrow> (c, Some c)
      | None \<Rightarrow> (let c = initialConfig fracNanos getenv readFile in (c, Some c)))"

section \<open>Correctness\<close>

definition valid_config :: "Config \<Rightarrow> bool" where
  "valid_config c \<longleftrightarrow> 0 < TokenMinValidity (GitHub c) \<and> TokenMinValidity (GitHub c) < TokenTTL (GitHub c)"

lemma valid_defaultConfig [simp]: "valid_config (defaultConfig getenv)"
  by (simp add: valid_config_def defaultConfig_def defaultTokenTTL_def defaultTokenMinValidity_def minute_def)

lemma positiveDuration_pos: "0 < dflt \<Longrightarrow> 0 < positiveDuration fracNanos s dflt"
  by (simp add: positiveDuration_def split: option.splits)

lemma default_pos: "0 < defaultTokenTTL" "0 < defaultTokenMinValidity"
  by (simp_all add: defaultTokenTTL_def defaultTokenMinValidity_def minute_def)

lemma valid_parse [simp]: "valid_config (parse fracNanos getenv data)"
proof (cases "UnmarshalFileConfig data")
  case None
  then show ?thesis by (simp add: parse_def)
next
  case (Some fc)
  let ?mv = "positiveDuration fracNanos (fcTokenMinValidity fc) defaultTokenMinValidity"
  have "0 < ?mv" by (rule positiveDuration_pos [OF default_pos(2)])
  with Some show ?thesis
    by (simp add: parse_def Let_def validate_def valid_config_def [of "\<lparr>GitHub = _, Kite = _\<rparr>"] defaultConfig_def [THEN arg_cong [where f = GitHub]])
qed

lemma valid_initialConfig [simp]: "valid_config (initialConfig fracNanos getenv readFile)"
  by (simp add: initialConfig_def load_def Let_def split: sum.splits)

text \<open>
  Whatever the file contains and whatever the environment holds, every call of
  \<open>Get\<close> yields a configuration whose minimal token validity is positive and smaller than the
  token lifetime, and all calls after the first yield the same one, even if the file, the
  environment or the clock have changed in between.
\<close>

theorem config_Get_valid_once:
  "let (c, i) = config_Get fn env rf None
   in valid_config c \<and> (\<forall>fn' env' rf'. config_Get fn' env' rf' i = (c, i))"
  by (simp add: config_Get_def Let_def)


definition sampleConfigFile :: string where
  "sampleConfigFile = (let q = [CHR 0x22] in
     ''{ '' @ q @ ''github'' @ q @ '': { '' @ q @ ''token-ttl'' @ q @ '': '' @ q @ ''50m'' @ q
      @ '', '' @ q @ ''Token-Min-Validity'' @ q @ '': '' @ q @ ''1m30s'' @ q @ '' }, ''
      @ q @ ''kite'' @ q @ '': { '' @ q @ ''enabled'' @ q @ '': true } }'')"


end
