(* ===== verification/Metrics.thy ===== *)
theory Metrics
  imports Prelude "HOL-Library.Word"
begin

text \<open>
  The package \<open>internal/metrics\<close>: the counter of scheduled pipeline runs behind the interface
  \<open>AvailabilityProbe\<close> and the package functions that feed and read it. The counter is an
  \<open>atomic.Int32\<close>, a 32-bit word read as a signed number. Registration of the gauges with
  Prometheus and the ticker are the concern of the libraries; \<open>checkProbes\<close> is what one tick
  runs.
\<close>

section \<open>\<open>BackendProbe\<close>\<close>

record BackendProbe =
  scheduledRuns :: "32 word"

definition NewBackendProbe :: BackendProbe where
  "NewBackendProbe = \<lparr>scheduledRuns = 0\<rparr>"

definition AddEvent :: "BackendProbe \<Rightarrow> BackendProbe" where
  "AddEvent q = q\<lparr>scheduledRuns := scheduledRuns q + 1\<rparr>"

text \<open>The value is read, and reset by the deferred \<open>Store(0)\<close>.\<close>

definition CheckEvents :: "BackendProbe \<Rightarrow> int \<times> BackendProbe" where
  "CheckEvents q = (sint (scheduledRuns q), q\<lparr>scheduledRuns := 0\<rparr>)"

section \<open>The interface \<open>AvailabilityProbe\<close>\<close>

text \<open>
  A probe counts events and hands the count over once. The bound is the number of events it can
  hold between two checks.
\<close>

datatype probe_op = Add | Check

locale availability_probe =
  fixes new :: 'p
    and add :: "'p \<Rightarrow> 'p"
    and check :: "'p \<Rightarrow> int \<times> 'p"
    and pending :: "'p \<Rightarrow> int"
    and bound :: int
  assumes pending_new: "pending new = 0"
    and pending_add: "0 \<le> pending p \<Longrightarrow> pending p < bound \<Longrightarrow> pending (add p) = pending p + 1"
    and check_value: "fst (check p) = pending p"
    and check_reset: "pending (snd (check p)) = 0"
    and bound_nonneg: "0 \<le> bound"
begin

text \<open>A run of operations: the sum of all reported values and the final probe.\<close>

fun run :: "probe_op list \<Rightarrow> int \<Rightarrow> 'p \<Rightarrow> int \<times> 'p" where
  "run [] acc p = (acc, p)"
| "run (Add # ops) acc p = run ops acc (add p)"
| "run (Check # ops) acc p = run ops (acc + fst (check p)) (snd (check p))"

text \<open>The bound is never exceeded between two checks, \<open>n\<close> events being pending at the start.\<close>

fun fits :: "probe_op list \<Rightarrow> int \<Rightarrow> bool" where
  "fits [] n = True"
| "fits (Add # ops) n = (n < bound \<and> fits ops (n + 1))"
| "fits (Check # ops) n = fits ops 0"

lemma run_conserves:
  "0 \<le> pending p \<Longrightarrow> fits ops (pending p) \<Longrightarrow>
   fst (run ops acc p) + pending (snd (run ops acc p))
     = acc + pending p + int (length (filter ((=) Add) ops))"
proof (induction ops arbitrary: acc p)
  case (Cons op ops)
  show ?case
  proof (cases op)
    case Add
    with Cons.prems have "pending (add p) = pending p + 1" by (simp add: pending_add)
    with Add Cons show ?thesis by simp
  next
    case Check
    with Cons show ?thesis by (simp add: check_value check_reset)
  qed
qed simp

text \<open>Every event is reported exactly once, or still pending.\<close>

lemma no_event_lost:
  "fits ops 0 \<Longrightarrow>
   fst (run ops 0 new) + pending (snd (run ops 0 new)) = int (length (filter ((=) Add) ops))"
  using run_conserves [of new ops 0] by (simp add: pending_new)

end

lemma sint_plus_1:
  fixes w :: "32 word"
  assumes "0 \<le> sint w" "sint w < 2 ^ 31 - 1"
  shows "sint (w + 1) = sint w + 1"
proof -
  have "sint (w + 1) = signed_take_bit 31 (sint w + 1)"
    by (simp add: sint_word_ariths(1))
  also have "\<dots> = sint w + 1"
    using assms by (intro signed_take_bit_int_eq_self) auto
  finally show ?thesis .
qed

definition maxInt32 :: int where
  "maxInt32 = 2 ^ 31 - 1"

interpretation bp: availability_probe NewBackendProbe AddEvent CheckEvents
  "\<lambda>q. sint (scheduledRuns q)" maxInt32
  by unfold_locales (auto simp: maxInt32_def NewBackendProbe_def AddEvent_def CheckEvents_def sint_plus_1)

section \<open>The package functions\<close>

text \<open>
  Package variables: the two probes, created on first use, and the values the gauges show. The
  creation-time gauge has one value per namespace and name.
\<close>

record Metrics =
  probeSuccess :: "BackendProbe option"
  probeFailure :: "BackendProbe option"
  gaugeSuccess :: "int option"
  gaugeFailure :: "int option"
  creationTime :: "((string \<times> string) \<times> int) list"

definition initMetrics :: Metrics where
  "initMetrics = \<lparr>probeSuccess = None, probeFailure = None, gaugeSuccess = None, gaugeFailure = None,
     creationTime = []\<rparr>"

definition orNew :: "BackendProbe option \<Rightarrow> BackendProbe" where
  "orNew p = (case p of None \<Rightarrow> NewBackendProbe | Some q \<Rightarrow> q)"

definition CountScheduledRunSuccess :: "Metrics \<Rightarrow> Metrics" where
  "CountScheduledRunSuccess m = m\<lparr>probeSuccess := Some (AddEvent (orNew (probeSuccess m)))\<rparr>"

definition CountScheduledRunFailure :: "Metrics \<Rightarrow> Metrics" where
  "CountScheduledRunFailure m = m\<lparr>probeFailure := Some (AddEvent (orNew (probeFailure m)))\<rparr>"

definition RecordDependencyUpdateCheckCreation :: "int \<Rightarrow> string \<Rightarrow> string \<Rightarrow> Metrics \<Rightarrow> Metrics" where
  "RecordDependencyUpdateCheckCreation now namespace name m =
     m\<lparr>creationTime := AList.update (namespace, name) now (creationTime m)\<rparr>"

definition checkProbes :: "Metrics \<Rightarrow> Metrics" where
  "checkProbes m =
     (let m1 = (case probeSuccess m of
                  None \<Rightarrow> m
                | Some q \<Rightarrow> m\<lparr>probeSuccess := Some (snd (CheckEvents q)), gaugeSuccess := Some (fst (CheckEvents q))\<rparr>)
      in case probeFailure m1 of
           None \<Rightarrow> m1
         | Some q \<Rightarrow> m1\<lparr>probeFailure := Some (snd (CheckEvents q)), gaugeFailure := Some (fst (CheckEvents q))\<rparr>)"

text \<open>
  \<open>RegisterCommonMetrics\<close>: both gauges are registered with the registry, which is the library's, and
  then a goroutine is started; the flag says whether it is.
\<close>

datatype collector = ControllerAvailability | DependencyUpdateCheckCreationTime

definition RegisterCommonMetrics ::
  "(collector \<Rightarrow> 'r \<Rightarrow> error option \<times> 'r) \<Rightarrow> 'r \<Rightarrow> error option \<times> bool \<times> 'r" where
  "RegisterCommonMetrics Register r =
     (case Register ControllerAvailability r of
        (Some e, r1) \<Rightarrow> (Some (Wrap ''failed to register metrics'' e), False, r1)
      | (None, r1) \<Rightarrow>
          (case Register DependencyUpdateCheckCreationTime r1 of
             (Some e, r2) \<Rightarrow> (Some (Wrap ''failed to register metrics'' e), False, r2)
           | (None, r2) \<Rightarrow> (None, True, r2)))"

text \<open>
  The goroutine, on what it receives from the ticker and the context, one after the other; between
  the ticks \<open>other\<close> is what the rest of the program does to the metrics. The flag says whether the
  goroutine still runs.
\<close>

datatype signal = TickerC | ContextDone | Elsewhere "Metrics \<Rightarrow> Metrics"

fun ticker_loop :: "bool \<Rightarrow> signal list \<Rightarrow> Metrics \<Rightarrow> bool \<times> Metrics" where
  "ticker_loop running [] m = (running, m)"
| "ticker_loop running (Elsewhere f # es) m = ticker_loop running es (f m)"
| "ticker_loop running (TickerC # es) m = ticker_loop running es (if running then checkProbes m else m)"
| "ticker_loop running (ContextDone # es) m = ticker_loop False es m"

datatype metric_op = Success | Failure | Tick

fun metric_step :: "metric_op \<Rightarrow> Metrics \<Rightarrow> Metrics" where
  "metric_step Success m = CountScheduledRunSuccess m"
| "metric_step Failure m = CountScheduledRunFailure m"
| "metric_step Tick m = checkProbes m"

text \<open>Until the context is done, the goroutine makes the steps of \<open>Tick\<close>; behind that, none.\<close>

fun signalOf :: "metric_op \<Rightarrow> signal" where
  "signalOf Success = Elsewhere CountScheduledRunSuccess"
| "signalOf Failure = Elsewhere CountScheduledRunFailure"
| "signalOf Tick = TickerC"

lemma ticker_loop_steps: "ticker_loop True (map signalOf ops) m = (True, fold metric_step ops m)"
proof (induction ops arbitrary: m)
  case (Cons op ops)
  then show ?case by (cases op) simp_all
qed simp

lemma ticker_loop_done:
  "ticker_loop False (map signalOf ops) m = (False, fold metric_step (filter (\<lambda>op. op \<noteq> Tick) ops) m)"
proof (induction ops arbitrary: m)
  case (Cons op ops)
  then show ?case by (cases op) simp_all
qed simp

lemma ticker_started:
  "fst (snd (RegisterCommonMetrics Register r)) \<longleftrightarrow> fst (RegisterCommonMetrics Register r) = None"
  by (auto simp: RegisterCommonMetrics_def split: prod.splits option.splits)

text \<open>The values the success gauge takes at the ticks, summed up.\<close>

definition gaugeValue :: "int option \<Rightarrow> int" where
  "gaugeValue g = (case g of None \<Rightarrow> 0 | Some v \<Rightarrow> v)"

fun successTotal :: "metric_op list \<Rightarrow> int \<Rightarrow> Metrics \<Rightarrow> int \<times> Metrics" where
  "successTotal [] acc m = (acc, m)"
| "successTotal (op # ops) acc m =
     (let m' = metric_step op m
      in successTotal ops (if op = Tick then acc + gaugeValue (gaugeSuccess m') else acc) m')"

definition successOps :: "metric_op list \<Rightarrow> probe_op list" where
  "successOps ops = map (\<lambda>op. if op = Success then Add else Check) (filter (\<lambda>op. op \<noteq> Failure) ops)"

text \<open>A run of the package functions is a run of the probe for successes.\<close>

lemma successTotal_run:
  "(probeSuccess m = None \<longrightarrow> gaugeSuccess m = None) \<Longrightarrow>
   fst (successTotal ops acc m) = fst (bp.run (successOps ops) acc (orNew (probeSuccess m))) \<and>
   sint (scheduledRuns (orNew (probeSuccess (snd (successTotal ops acc m)))))
     = sint (scheduledRuns (snd (bp.run (successOps ops) acc (orNew (probeSuccess m)))))"
proof (induction ops arbitrary: acc m)
  case (Cons op ops)
  show ?case
  proof (cases op)
    case Success
    then show ?thesis using Cons.IH [of "CountScheduledRunSuccess m" acc]
      by (simp add: successOps_def CountScheduledRunSuccess_def orNew_def [of "Some _"])
  next
    case Failure
    then show ?thesis using Cons.IH [of "CountScheduledRunFailure m" acc] Cons.prems
      by (simp add: successOps_def CountScheduledRunFailure_def)
  next
    case Tick
    have p: "orNew (probeSuccess (checkProbes m)) = snd (CheckEvents (orNew (probeSuccess m)))"
      by (auto simp: checkProbes_def Let_def orNew_def CheckEvents_def NewBackendProbe_def split: option.splits)
    have g: "gaugeValue (gaugeSuccess (checkProbes m)) = fst (CheckEvents (orNew (probeSuccess m)))"
      using Cons.prems
      by (auto simp: checkProbes_def Let_def orNew_def CheckEvents_def NewBackendProbe_def gaugeValue_def
          split: option.splits)
    have "probeSuccess (checkProbes m) = None \<longrightarrow> gaugeSuccess (checkProbes m) = None"
      using Cons.prems by (auto simp: checkProbes_def Let_def split: option.splits)
    from Cons.IH [OF this, of "acc + gaugeValue (gaugeSuccess (checkProbes m))"] show ?thesis
      using Tick by (simp add: successOps_def p g)
  qed
qed (simp add: successOps_def)

lemma length_successOps:
  "length (filter ((=) Add) (successOps ops)) = length (filter ((=) Success) ops)"
  by (induction ops) (auto simp: successOps_def)

text \<open>Never more than \<open>2^31 - 1\<close> successes between two ticks, \<open>n\<close> being pending at the start.\<close>

fun successes_fit :: "metric_op list \<Rightarrow> int \<Rightarrow> bool" where
  "successes_fit [] n = True"
| "successes_fit (Success # ops) n = (n < maxInt32 \<and> successes_fit ops (n + 1))"
| "successes_fit (Failure # ops) n = successes_fit ops n"
| "successes_fit (Tick # ops) n = successes_fit ops 0"

lemma fits_successOps: "successes_fit ops n \<Longrightarrow> bp.fits (successOps ops) n"
  by (induction ops n rule: successes_fit.induct) (simp_all add: successOps_def)



section \<open>Concurrent calls\<close>

text \<open>
  \<open>CheckEvents\<close> is two atomic operations, \<open>Load\<close> and \<open>Store(0)\<close>; an \<open>AddEvent\<close> of the
  reconciler may happen in between. \<open>reported\<close> holds what the checker has returned so far.
\<close>

record probe_state =
  counter :: "32 word"
  loaded :: "int option"
  reported :: int

datatype probe_event = EvAdd | EvLoad | EvStore

inductive probe_step :: "probe_state \<Rightarrow> probe_event \<Rightarrow> probe_state \<Rightarrow> bool" where
  step_add: "probe_step s EvAdd (s\<lparr>counter := counter s + 1\<rparr>)"
| step_load: "loaded s = None \<Longrightarrow> probe_step s EvLoad (s\<lparr>loaded := Some (sint (counter s))\<rparr>)"
| step_store: "loaded s = Some v \<Longrightarrow>
    probe_step s EvStore (s\<lparr>counter := 0, loaded := None, reported := reported s + v\<rparr>)"

inductive_simps probe_step_simps [simp]:
  "probe_step s EvAdd s'" "probe_step s EvLoad s'" "probe_step s EvStore s'"

inductive probe_steps :: "probe_state \<Rightarrow> probe_event list \<Rightarrow> probe_state \<Rightarrow> bool" where
  steps_nil: "probe_steps s [] s"
| steps_cons: "probe_step s e s' \<Longrightarrow> probe_steps s' es s'' \<Longrightarrow> probe_steps s (e # es) s''"

definition idle :: "32 word \<Rightarrow> probe_state" where
  "idle n = \<lparr>counter = n, loaded = None, reported = 0\<rparr>"

text \<open>
  An event that falls between the two halves of \<open>CheckEvents\<close> is lost: it is in no
  reported value and no longer pending either.
\<close>

theorem concurrent_event_lost:
  "\<exists>s. probe_steps (idle n) [EvLoad, EvAdd, EvStore] s \<and> reported s = sint n \<and> counter s = 0"
proof -
  let ?a = "(idle n)\<lparr>loaded := Some (sint n)\<rparr>"
  let ?b = "?a\<lparr>counter := n + 1\<rparr>"
  let ?c = "?b\<lparr>counter := 0, loaded := None, reported := sint n\<rparr>"
  have "probe_step (idle n) EvLoad ?a" "probe_step ?a EvAdd ?b" "probe_step ?b EvStore ?c"
    by (simp_all add: idle_def)
  then have "probe_steps (idle n) [EvLoad, EvAdd, EvStore] ?c"
    by (blast intro: steps_nil steps_cons)
  then show ?thesis by (intro exI [of _ ?c]) (simp add: idle_def)
qed

end
