(* ===== verification/World.thy ===== *)
theory World
  imports Kubernetes GitUrl SecretLookup Config Metrics "HOL-Library.State_Monad"
begin

text \<open>
  What surrounds the program. The record \<open>env\<close> holds, as parameters of the model, everything the
  code calls but does not define: the Kubernetes API (through controller-runtime's client), the
  GitLab, Forgejo and GitHub services with their client libraries, the clock, the random
  generator, the environment and the file system, and the choices the Go runtime makes (map order,
  goroutine scheduling). All of them act on a world of arbitrary type \<open>'w\<close> and may answer anything
  at any time, so a statement for all \<open>env\<close> holds for every behaviour of the cluster, other clients
  included.

  The program is written in the state monad over \<open>'w st\<close>: the world, the trace of the calls made so
  far, and the package variables. The trace is what the properties of the controllers speak about.
\<close>

named_theorems quiet_rules \<open>calls stay within a set\<close>
named_theorems run_simps \<open>running a program on a state\<close>

section \<open>Package variables\<close>

text \<open>\<open>internal/component/github\<close>: tokens, installations and the cache of installations.\<close>

record TokenInfo =
  Token :: string
  ExpiresAt :: int

record AppInstallation =
  InstallationID :: int
  Repositories :: "string list"

text \<open>
  The cache of installations (\<open>StaleAllowedCache\<close> for its one key). The refresh function is a
  closure over the component that created the cache, so its credentials are part of the state. A
  background refresh that was started and has not finished is \<open>refreshInProgress\<close>.
\<close>

record StaleAllowedCache =
  cacheAppID :: int
  cacheAppPrivateKey :: string
  cacheData :: "AppInstallation list option"
  cacheExpiry :: int
  refreshInProgress :: bool

text \<open>
  All package variables of the program. \<open>renovateBaseConfig\<close> is a Go map, shared by everyone who
  got hold of it, so storing into "a" configuration is storing into this one.
\<close>

record globals =
  configInstance :: "Config option"
  metrics :: Metrics
  renovateBaseConfig :: "json gomap option"
  ghAppID :: int
  ghAppPrivateKey :: "string option"
  ghUserID :: int
  ghAppSlug :: string
  tokenEntries :: "TokenInfo gomap"
  ghAppInstallationsCache :: "StaleAllowedCache option"

definition initGlobals :: globals where
  "initGlobals = \<lparr>configInstance = None, metrics = initMetrics, renovateBaseConfig = None, ghAppID = 0,
     ghAppPrivateKey = None, ghUserID = 0, ghAppSlug = [], tokenEntries = [],
     ghAppInstallationsCache = None\<rparr>"

section \<open>Calls and their trace\<close>

text \<open>What the command line tools do to the file system, and the calls of the whole program.\<close>

datatype fileop = FMkdirAll string | FOpen string | FCopy string | FWrite string string | FClose string

datatype call =
    CGet kind string string
  | CList kind string "string gomap"
  | CListRuns string "string gomap" "error + PipelineRun list"
  | CCreate obj "error + obj"
  | CUpdate obj "error option"
  | CPatch obj obj "error option"
  | CDelete objkey
  | CExternal string
  | CHttp string
  | CSleep int
  | CFile fileop

text \<open>
  The kinds of objects that the manager keeps in a cache, because a controller watches them. Reads of
  these are served from the cache, all others by the cluster itself.
\<close>

fun cachedKind :: "kind \<Rightarrow> bool" where
  "cachedKind KDependencyUpdateCheck = True"
| "cachedKind KEvent = True"
| "cachedKind KPipelineRun = True"
| "cachedKind k = False"

text \<open>
  Reads past the cache, which are all that the git components do. The controllers read the watched
  kinds themselves, and their properties speak about these calls.
\<close>

fun is_read :: "call \<Rightarrow> bool" where
  "is_read (CGet k ns n) = (\<not> cachedKind k)"
| "is_read (CList k ns l) = (\<not> cachedKind k)"
| "is_read (CExternal s) = True"
| "is_read c = False"

record 'w st =
  world :: 'w
  trace :: "call list"
  vars :: globals

type_synonym ('w, 'a) prog = "('w st, 'a) state"
type_synonym ('w, 'a) io = "'w \<Rightarrow> 'a \<times> 'w"

section \<open>The environment\<close>

record 'w env =
  k8sGetDependencyUpdateCheck :: "string \<Rightarrow> string \<Rightarrow> ('w, error + DependencyUpdateCheck) io"
  k8sGetComponent :: "string \<Rightarrow> string \<Rightarrow> ('w, error + Component) io"
  k8sGetSecret :: "string \<Rightarrow> string \<Rightarrow> ('w, error + Secret) io"
  k8sGetConfigMap :: "string \<Rightarrow> string \<Rightarrow> ('w, error + ConfigMap) io"
  k8sGetServiceAccount :: "string \<Rightarrow> string \<Rightarrow> ('w, error + ServiceAccount) io"
  k8sGetPod :: "string \<Rightarrow> string \<Rightarrow> ('w, error + Pod) io"
  k8sGetEvent :: "string \<Rightarrow> string \<Rightarrow> ('w, error + Event) io"
  k8sGetPipelineRun :: "string \<Rightarrow> string \<Rightarrow> ('w, error + PipelineRun) io"
  k8sListComponents :: "string \<Rightarrow> ('w, error + Component list) io"
  k8sListSecrets :: "string \<Rightarrow> string gomap \<Rightarrow> ('w, error + Secret list) io"
  k8sListConfigMaps :: "string \<Rightarrow> string gomap \<Rightarrow> ('w, error + ConfigMap list) io"
  k8sListPipelineRuns :: "string \<Rightarrow> string gomap \<Rightarrow> ('w, error + PipelineRun list) io"
  k8sCreateSecret :: "Secret \<Rightarrow> ('w, error + Secret) io"
  k8sCreateConfigMap :: "ConfigMap \<Rightarrow> ('w, error + ConfigMap) io"
  k8sCreatePipelineRun :: "PipelineRun \<Rightarrow> ('w, error + PipelineRun) io"
  k8sUpdateSecret :: "Secret \<Rightarrow> ('w, error option) io"
  k8sUpdateConfigMap :: "ConfigMap \<Rightarrow> ('w, error option) io"
  k8sUpdateDependencyUpdateCheck :: "DependencyUpdateCheck \<Rightarrow> ('w, error + DependencyUpdateCheck) io"
  k8sDelete :: "objkey \<Rightarrow> ('w, error option) io"
  k8sPatchEvent :: "Event \<Rightarrow> Event \<Rightarrow> ('w, error option) io"
  k8sPatchPipelineRun :: "PipelineRun \<Rightarrow> PipelineRun \<Rightarrow> ('w, error option) io"
  setOwnerReference :: "PipelineRun \<Rightarrow> ObjectMeta \<Rightarrow> error + ObjectMeta"
  markFailed :: "string \<Rightarrow> Condition list \<Rightarrow> Condition list"
  gitlabNewClient :: "string \<Rightarrow> string \<Rightarrow> ('w, error option) io"
  gitlabGetBranch :: "string \<Rightarrow> string \<Rightarrow> string \<Rightarrow> string \<Rightarrow> ('w, error option) io"
  gitlabGetProject :: "string \<Rightarrow> string \<Rightarrow> string \<Rightarrow> ('w, error + string option) io"
  giteaNewClient :: "string \<Rightarrow> string \<Rightarrow> ('w, error option) io"
  giteaGetRepoBranch :: "string \<Rightarrow> string \<Rightarrow> string \<Rightarrow> string \<Rightarrow> string \<Rightarrow> ('w, error option) io"
  giteaGetRepo :: "string \<Rightarrow> string \<Rightarrow> string \<Rightarrow> string \<Rightarrow> ('w, error + string option) io"
  githubNewAppsTransport :: "int \<Rightarrow> string \<Rightarrow> error option"
  githubNewTransport :: "int \<Rightarrow> int \<Rightarrow> string \<Rightarrow> error option"
  githubNewClient :: "('w, error option) io"
  githubToken :: "int \<Rightarrow> int \<Rightarrow> string \<Rightarrow> ('w, error + string) io"
  githubAppsGet :: "int \<Rightarrow> string \<Rightarrow> ('w, error + string) io"
  githubListInstallations :: "int \<Rightarrow> string \<Rightarrow> nat \<Rightarrow> ('w, (error \<times> nat) + (int list \<times> nat)) io"
  githubListRepos :: "int \<Rightarrow> int \<Rightarrow> string \<Rightarrow> nat \<Rightarrow> ('w, error + (string list \<times> nat)) io"
  githubGetBranch :: "string \<Rightarrow> string \<Rightarrow> string \<Rightarrow> string \<Rightarrow> ('w, error option) io"
  githubGetRepository :: "string \<Rightarrow> string \<Rightarrow> string \<Rightarrow> ('w, error + string option) io"
  githubGetUser :: "string \<Rightarrow> ('w, error + int) io"
  githubPages :: nat
  ipLiteral :: "string \<Rightarrow> error + string"
  floatText :: "string \<Rightarrow> string option"
  fractionNanos :: "nat \<Rightarrow> nat \<Rightarrow> nat \<Rightarrow> nat"
  getenv :: "string \<Rightarrow> string"
  logSanitizerScript :: string
  readFile :: "('w, string \<Rightarrow> error + string) io"
  clock :: "('w, int) io"
  randomBytes :: "('w, nat \<Rightarrow> 8 word) io"
  matchOrder :: "('w, matches \<Rightarrow> matches) io"
  keyOrder :: "('w, string list \<Rightarrow> string list) io"
  backgroundDone :: "('w, bool) io"

section \<open>Primitive programs\<close>

definition return :: "'a \<Rightarrow> ('w, 'a) prog" where
  "return x = State_Monad.return x"

text \<open>A call that is recorded with its result, and a choice of the runtime that is not.\<close>

definition perform :: "('w, 'a) io \<Rightarrow> ('a \<Rightarrow> call) \<Rightarrow> ('w, 'a) prog" where
  "perform f c = State (\<lambda>s. (fst (f (world s)), s\<lparr>world := snd (f (world s)), trace := trace s @ [c (fst (f (world s)))]\<rparr>))"

definition runtime :: "('w, 'a) io \<Rightarrow> ('w, 'a) prog" where
  "runtime f = State (\<lambda>s. (fst (f (world s)), s\<lparr>world := snd (f (world s))\<rparr>))"

definition getVars :: "(globals \<Rightarrow> 'a) \<Rightarrow> ('w, 'a) prog" where
  "getVars f = State (\<lambda>s. (f (vars s), s))"

definition modifyVars :: "(globals \<Rightarrow> globals) \<Rightarrow> ('w, unit) prog" where
  "modifyVars f = State (\<lambda>s. ((), s\<lparr>vars := f (vars s)\<rparr>))"

text \<open>\<open>x, err := m; if err != nil { return err }\<close> and the same with a wrapped error.\<close>

definition onOk :: "('w, error + 'a) prog \<Rightarrow> ('a \<Rightarrow> ('w, error + 'b) prog) \<Rightarrow> ('w, error + 'b) prog" where
  "onOk m f = m \<bind> (\<lambda>r. case r of Inl e \<Rightarrow> return (Inl e) | Inr x \<Rightarrow> f x)"

definition wrapErr :: "string \<Rightarrow> ('w, error + 'a) prog \<Rightarrow> ('w, error + 'a) prog" where
  "wrapErr msg m = m \<bind> (\<lambda>r. return (case r of Inl e \<Rightarrow> Inl (Wrap msg e) | Inr x \<Rightarrow> Inr x))"

text \<open>\<open>if err := m; err != nil { return err }\<close> for a call that returns nothing but an error.\<close>

definition asResult :: "('w, error option) prog \<Rightarrow> ('w, error + unit) prog" where
  "asResult m = m \<bind> (\<lambda>r. return (case r of Some e \<Rightarrow> Inl e | None \<Rightarrow> Inr ()))"

declare run_state_bind [simp del]

lemma run_return [simp, run_simps]: "run_state (return x) s = (x, s)"
  by (simp add: return_def)

lemma run_bind [simp, run_simps]:
  "run_state (m \<bind> f) s = run_state (f (fst (run_state m s))) (snd (run_state m s))"
  by (simp add: run_state_bind split: prod.splits)

lemma run_perform [simp, run_simps]:
  "run_state (perform f c) s =
     (fst (f (world s)), s\<lparr>world := snd (f (world s)), trace := trace s @ [c (fst (f (world s)))]\<rparr>)"
  by (simp add: perform_def)

lemma run_runtime [simp, run_simps]:
  "run_state (runtime f) s = (fst (f (world s)), s\<lparr>world := snd (f (world s))\<rparr>)"
  by (simp add: runtime_def)

lemma run_getVars [simp, run_simps]: "run_state (getVars f) s = (f (vars s), s)"
  by (simp add: getVars_def)

lemma run_modifyVars [simp, run_simps]: "run_state (modifyVars f) s = ((), s\<lparr>vars := f (vars s)\<rparr>)"
  by (simp add: modifyVars_def)

section \<open>What a program calls\<close>

text \<open>
  \<open>emits m Q\<close>: started in any state, the program appends calls \<open>ts\<close> to the trace and returns \<open>x\<close>
  with \<open>Q ts x\<close>. \<open>within P m\<close>: all its calls satisfy \<open>P\<close>, and \<open>quiet m\<close>: they only read.
\<close>

definition emits :: "('w, 'a) prog \<Rightarrow> (call list \<Rightarrow> 'a \<Rightarrow> bool) \<Rightarrow> bool" where
  "emits m Q \<longleftrightarrow>
     (\<forall>s. \<exists>ts. trace (snd (run_state m s)) = trace s @ ts \<and> Q ts (fst (run_state m s)))"

definition within :: "(call \<Rightarrow> bool) \<Rightarrow> ('w, 'a) prog \<Rightarrow> bool" where
  "within P m \<longleftrightarrow> emits m (\<lambda>ts x. list_all P ts)"

abbreviation quiet :: "('w, 'a) prog \<Rightarrow> bool" where
  "quiet m \<equiv> within is_read m"

lemma emits_return: "Q [] x \<Longrightarrow> emits (return x) Q"
  by (simp add: emits_def)

lemma emits_bind:
  assumes "emits m P"
    and "\<And>ts x. P ts x \<Longrightarrow> emits (f x) (\<lambda>us. Q (ts @ us))"
  shows "emits (m \<bind> f) Q"
  unfolding emits_def
proof
  fix s
  obtain ts where ts: "trace (snd (run_state m s)) = trace s @ ts" "P ts (fst (run_state m s))"
    using assms(1) by (auto simp: emits_def)
  obtain us where us:
    "trace (snd (run_state (f (fst (run_state m s))) (snd (run_state m s)))) = trace (snd (run_state m s)) @ us"
    "Q (ts @ us) (fst (run_state (f (fst (run_state m s))) (snd (run_state m s))))"
    using assms(2) [OF ts(2)] by (auto simp: emits_def)
  show "\<exists>vs. trace (snd (run_state (m \<bind> f) s)) = trace s @ vs \<and> Q vs (fst (run_state (m \<bind> f) s))"
    using ts us by (intro exI [of _ "ts @ us"]) simp
qed

lemma emits_perform: "(\<And>r. Q [c r] r) \<Longrightarrow> emits (perform f c) Q"
  by (simp add: emits_def)

lemma emits_runtime: "(\<And>r. Q [] r) \<Longrightarrow> emits (runtime f) Q"
  by (simp add: emits_def)

lemma emits_getVars: "(\<And>r. Q [] r) \<Longrightarrow> emits (getVars f) Q"
  by (simp add: emits_def)

lemma emits_modifyVars: "Q [] () \<Longrightarrow> emits (modifyVars f) Q"
  by (simp add: emits_def)

lemma emits_mono: "emits m P \<Longrightarrow> (\<And>ts x. P ts x \<Longrightarrow> Q ts x) \<Longrightarrow> emits m Q"
  unfolding emits_def by blast

lemma emits_conj: "emits m P \<Longrightarrow> emits m Q \<Longrightarrow> emits m (\<lambda>ts x. P ts x \<and> Q ts x)"
  unfolding emits_def by (metis append_same_eq same_append_eq)

lemma emits_onOk:
  assumes "emits m P"
    and "\<And>ts e. P ts (Inl e) \<Longrightarrow> Q ts (Inl e)"
    and "\<And>ts x. P ts (Inr x) \<Longrightarrow> emits (f x) (\<lambda>us. Q (ts @ us))"
  shows "emits (onOk m f) Q"
  unfolding onOk_def
  by (rule emits_bind [OF assms(1)]) (auto split: sum.splits intro!: emits_return assms(2,3))

lemma emits_run: "emits m Q \<Longrightarrow> \<exists>ts. trace (snd (run_state m s)) = trace s @ ts \<and> Q ts (fst (run_state m s))"
  by (simp add: emits_def)

lemma within_return [quiet_rules]: "within P (return x)"
  by (simp add: within_def emits_return)

lemma within_bind [quiet_rules]: "within P m \<Longrightarrow> (\<And>x. within P (f x)) \<Longrightarrow> within P (m \<bind> f)"
  unfolding within_def by (erule emits_bind) (auto elim: emits_mono)

lemma within_perform [quiet_rules]: "(\<And>r. P (c r)) \<Longrightarrow> within P (perform f c)"
  by (simp add: within_def emits_perform)

lemma within_runtime [quiet_rules]: "within P (runtime f)"
  by (simp add: within_def emits_runtime)

lemma within_getVars [quiet_rules]: "within P (getVars f)"
  by (simp add: within_def emits_getVars)

lemma within_modifyVars [quiet_rules]: "within P (modifyVars f)"
  by (simp add: within_def emits_modifyVars)

lemma within_onOk [quiet_rules]: "within P m \<Longrightarrow> (\<And>x. within P (f x)) \<Longrightarrow> within P (onOk m f)"
  unfolding onOk_def by (intro quiet_rules) (auto split: sum.splits intro!: quiet_rules)

lemma within_wrapErr [quiet_rules]: "within P m \<Longrightarrow> within P (wrapErr msg m)"
  unfolding wrapErr_def by (intro quiet_rules)

lemma within_asResult [quiet_rules]: "within P m \<Longrightarrow> within P (asResult m)"
  unfolding asResult_def by (intro quiet_rules)

lemma within_if [quiet_rules]: "(b \<Longrightarrow> within P m) \<Longrightarrow> (\<not> b \<Longrightarrow> within P n) \<Longrightarrow> within P (if b then m else n)"
  by simp

lemma within_sum [quiet_rules]:
  "(\<And>a. x = Inl a \<Longrightarrow> within P (f a)) \<Longrightarrow> (\<And>b. x = Inr b \<Longrightarrow> within P (g b)) \<Longrightarrow> within P (case_sum f g x)"
  by (cases x) auto

lemma within_option [quiet_rules]:
  "(x = None \<Longrightarrow> within P m) \<Longrightarrow> (\<And>b. x = Some b \<Longrightarrow> within P (g b)) \<Longrightarrow> within P (case_option m g x)"
  by (cases x) auto

lemma within_prod [quiet_rules]: "(\<And>a b. x = (a, b) \<Longrightarrow> within P (f a b)) \<Longrightarrow> within P (case_prod f x)"
  by (cases x) auto

lemma within_list [quiet_rules]:
  "(x = [] \<Longrightarrow> within P m) \<Longrightarrow> (\<And>a as. x = a # as \<Longrightarrow> within P (g a as)) \<Longrightarrow> within P (case_list m g x)"
  by (cases x) auto

lemma within_Let [quiet_rules]: "within P (f x) \<Longrightarrow> within P (Let x f)"
  by simp

lemma within_mono: "within P m \<Longrightarrow> (\<And>c. P c \<Longrightarrow> Q c) \<Longrightarrow> within Q m"
  unfolding within_def by (erule emits_mono) (auto simp: list_all_iff)

lemma within_emits: "within P m \<Longrightarrow> (\<And>ts x. list_all P ts \<Longrightarrow> Q ts x) \<Longrightarrow> emits m Q"
  unfolding within_def by (erule emits_mono)

section \<open>The client\<close>

definition Get_DependencyUpdateCheck :: "'w env \<Rightarrow> string \<Rightarrow> string \<Rightarrow> ('w, error + DependencyUpdateCheck) prog" where
  "Get_DependencyUpdateCheck E ns n = perform (k8sGetDependencyUpdateCheck E ns n) (\<lambda>_. CGet KDependencyUpdateCheck ns n)"

definition Get_Component :: "'w env \<Rightarrow> string \<Rightarrow> string \<Rightarrow> ('w, error + Component) prog" where
  "Get_Component E ns n = perform (k8sGetComponent E ns n) (\<lambda>_. CGet KComponent ns n)"

definition Get_Secret :: "'w env \<Rightarrow> string \<Rightarrow> string \<Rightarrow> ('w, error + Secret) prog" where
  "Get_Secret E ns n = perform (k8sGetSecret E ns n) (\<lambda>_. CGet KSecret ns n)"

definition Get_ConfigMap :: "'w env \<Rightarrow> string \<Rightarrow> string \<Rightarrow> ('w, error + ConfigMap) prog" where
  "Get_ConfigMap E ns n = perform (k8sGetConfigMap E ns n) (\<lambda>_. CGet KConfigMap ns n)"

definition Get_ServiceAccount :: "'w env \<Rightarrow> string \<Rightarrow> string \<Rightarrow> ('w, error + ServiceAccount) prog" where
  "Get_ServiceAccount E ns n = perform (k8sGetServiceAccount E ns n) (\<lambda>_. CGet KServiceAccount ns n)"

definition Get_Pod :: "'w env \<Rightarrow> string \<Rightarrow> string \<Rightarrow> ('w, error + Pod) prog" where
  "Get_Pod E ns n = perform (k8sGetPod E ns n) (\<lambda>_. CGet KPod ns n)"

definition Get_Event :: "'w env \<Rightarrow> string \<Rightarrow> string \<Rightarrow> ('w, error + Event) prog" where
  "Get_Event E ns n = perform (k8sGetEvent E ns n) (\<lambda>_. CGet KEvent ns n)"

definition Get_PipelineRun :: "'w env \<Rightarrow> string \<Rightarrow> string \<Rightarrow> ('w, error + PipelineRun) prog" where
  "Get_PipelineRun E ns n = perform (k8sGetPipelineRun E ns n) (\<lambda>_. CGet KPipelineRun ns n)"

definition List_Components :: "'w env \<Rightarrow> string \<Rightarrow> ('w, error + Component list) prog" where
  "List_Components E ns = perform (k8sListComponents E ns) (\<lambda>_. CList KComponent ns [])"

definition List_Secrets :: "'w env \<Rightarrow> string \<Rightarrow> string gomap \<Rightarrow> ('w, error + Secret list) prog" where
  "List_Secrets E ns labels = perform (k8sListSecrets E ns labels) (\<lambda>_. CList KSecret ns labels)"

definition List_ConfigMaps :: "'w env \<Rightarrow> string \<Rightarrow> string gomap \<Rightarrow> ('w, error + ConfigMap list) prog" where
  "List_ConfigMaps E ns labels = perform (k8sListConfigMaps E ns labels) (\<lambda>_. CList KConfigMap ns labels)"

definition List_PipelineRuns :: "'w env \<Rightarrow> string \<Rightarrow> string gomap \<Rightarrow> ('w, error + PipelineRun list) prog" where
  "List_PipelineRuns E ns labels = perform (k8sListPipelineRuns E ns labels) (CListRuns ns labels)"

definition Create_Secret :: "'w env \<Rightarrow> Secret \<Rightarrow> ('w, error + Secret) prog" where
  "Create_Secret E x = perform (k8sCreateSecret E x) (\<lambda>r. CCreate (OSecret x) (map_sum id OSecret r))"

definition Create_ConfigMap :: "'w env \<Rightarrow> ConfigMap \<Rightarrow> ('w, error + ConfigMap) prog" where
  "Create_ConfigMap E x = perform (k8sCreateConfigMap E x) (\<lambda>r. CCreate (OConfigMap x) (map_sum id OConfigMap r))"

definition Create_PipelineRun :: "'w env \<Rightarrow> PipelineRun \<Rightarrow> ('w, error + PipelineRun) prog" where
  "Create_PipelineRun E x =
     perform (k8sCreatePipelineRun E x) (\<lambda>r. CCreate (OPipelineRun x) (map_sum id OPipelineRun r))"

definition Update_Secret :: "'w env \<Rightarrow> Secret \<Rightarrow> ('w, error + unit) prog" where
  "Update_Secret E x = asResult (perform (k8sUpdateSecret E x) (CUpdate (OSecret x)))"

definition Update_ConfigMap :: "'w env \<Rightarrow> ConfigMap \<Rightarrow> ('w, error + unit) prog" where
  "Update_ConfigMap E x = asResult (perform (k8sUpdateConfigMap E x) (CUpdate (OConfigMap x)))"

definition Update_DependencyUpdateCheck ::
  "'w env \<Rightarrow> DependencyUpdateCheck \<Rightarrow> ('w, error + DependencyUpdateCheck) prog" where
  "Update_DependencyUpdateCheck E x =
     perform (k8sUpdateDependencyUpdateCheck E x)
       (\<lambda>r. CUpdate (ODependencyUpdateCheck x) (case r of Inl e \<Rightarrow> Some e | Inr _ \<Rightarrow> None))"

definition Delete :: "'w env \<Rightarrow> obj \<Rightarrow> ('w, error option) prog" where
  "Delete E x = perform (k8sDelete E (objKey x)) (\<lambda>_. CDelete (objKey x))"

definition Patch_Event :: "'w env \<Rightarrow> Event \<Rightarrow> Event \<Rightarrow> ('w, error option) prog" where
  "Patch_Event E original x = perform (k8sPatchEvent E original x) (CPatch (OEvent original) (OEvent x))"

definition Patch_PipelineRun :: "'w env \<Rightarrow> PipelineRun \<Rightarrow> PipelineRun \<Rightarrow> ('w, error option) prog" where
  "Patch_PipelineRun E original x =
     perform (k8sPatchPipelineRun E original x) (CPatch (OPipelineRun original) (OPipelineRun x))"

text \<open>A call of one of the git services.\<close>

definition external :: "string \<Rightarrow> ('w, 'a) io \<Rightarrow> ('w, 'a) prog" where
  "external name f = perform f (\<lambda>_. CExternal name)"

lemmas client_defs = Get_DependencyUpdateCheck_def Get_Component_def Get_Secret_def Get_ConfigMap_def
  Get_ServiceAccount_def Get_Pod_def Get_Event_def Get_PipelineRun_def List_Components_def
  List_Secrets_def List_ConfigMaps_def List_PipelineRuns_def Create_Secret_def Create_ConfigMap_def
  Create_PipelineRun_def Update_Secret_def Update_ConfigMap_def Update_DependencyUpdateCheck_def
  Delete_def Patch_Event_def Patch_PipelineRun_def external_def

text \<open>Reads of the watched kinds.\<close>

lemma emits_Get:
  "emits (Get_DependencyUpdateCheck E ns n) (\<lambda>ts r. ts = [CGet KDependencyUpdateCheck ns n])"
  "emits (Get_Event E ns n) (\<lambda>ts r. ts = [CGet KEvent ns n])"
  "emits (Get_PipelineRun E ns n) (\<lambda>ts r. ts = [CGet KPipelineRun ns n])"
  by (simp_all add: client_defs emits_perform)

lemma within_Get [quiet_rules]:
  "P (CGet KDependencyUpdateCheck ns n) \<Longrightarrow> within P (Get_DependencyUpdateCheck E ns n)"
  "P (CGet KEvent ns n) \<Longrightarrow> within P (Get_Event E ns n)"
  "P (CGet KPipelineRun ns n) \<Longrightarrow> within P (Get_PipelineRun E ns n)"
  by (simp_all add: client_defs within_perform)

lemma quiet_client [quiet_rules]:
  "quiet (Get_Component E ns n)" "quiet (Get_Secret E ns n)" "quiet (Get_ConfigMap E ns n)"
  "quiet (Get_ServiceAccount E ns n)" "quiet (Get_Pod E ns n)" "quiet (List_Components E ns)"
  "quiet (List_Secrets E ns labels)" "quiet (List_ConfigMaps E ns labels)"
  "quiet (external name f)"
  unfolding client_defs by (auto intro!: quiet_rules)

text \<open>\<open>config.Get()\<close> on the package variable.\<close>

definition configGet :: "'w env \<Rightarrow> ('w, Config) prog" where
  "configGet E =
     runtime (readFile E) \<bind> (\<lambda>rf.
     getVars configInstance \<bind> (\<lambda>i.
     modifyVars (configInstance_update (\<lambda>_. snd (config_Get (fractionNanos E) (getenv E) rf i))) \<bind> (\<lambda>_.
     return (fst (config_Get (fractionNanos E) (getenv E) rf i)))))"

lemma quiet_configGet [quiet_rules]: "within P (configGet E)"
  unfolding configGet_def by (intro quiet_rules)

text \<open>Seconds since the epoch, of a clock that counts nanoseconds.\<close>

definition unixSeconds :: "int \<Rightarrow> int" where
  "unixSeconds t = t div 10 ^ 9"

section \<open>A sample environment\<close>

text \<open>
  A cluster for examples: nothing is found, lists are empty, every write succeeds and leaves the
  object as it is, the git services answer nothing and the runtime makes the simplest choices.
\<close>

definition emptyCluster :: "unit env" where
  "emptyCluster =
     \<lparr>k8sGetDependencyUpdateCheck = (\<lambda>ns n w. (Inl (NotFound n), w)),
      k8sGetComponent = (\<lambda>ns n w. (Inl (NotFound n), w)),
      k8sGetSecret = (\<lambda>ns n w. (Inl (NotFound n), w)),
      k8sGetConfigMap = (\<lambda>ns n w. (Inl (NotFound n), w)),
      k8sGetServiceAccount = (\<lambda>ns n w. (Inl (NotFound n), w)),
      k8sGetPod = (\<lambda>ns n w. (Inl (NotFound n), w)),
      k8sGetEvent = (\<lambda>ns n w. (Inl (NotFound n), w)),
      k8sGetPipelineRun = (\<lambda>ns n w. (Inl (NotFound n), w)),
      k8sListComponents = (\<lambda>ns w. (Inr [], w)),
      k8sListSecrets = (\<lambda>ns l w. (Inr [], w)),
      k8sListConfigMaps = (\<lambda>ns l w. (Inr [], w)),
      k8sListPipelineRuns = (\<lambda>ns l w. (Inr [], w)),
      k8sCreateSecret = (\<lambda>x w. (Inr x, w)),
      k8sCreateConfigMap = (\<lambda>x w. (Inr x, w)),
      k8sCreatePipelineRun = (\<lambda>x w. (Inr x, w)),
      k8sUpdateSecret = (\<lambda>x w. (None, w)),
      k8sUpdateConfigMap = (\<lambda>x w. (None, w)),
      k8sUpdateDependencyUpdateCheck = (\<lambda>x w. (Inr x, w)),
      k8sDelete = (\<lambda>k w. (None, w)),
      k8sPatchEvent = (\<lambda>o' x w. (None, w)),
      k8sPatchPipelineRun = (\<lambda>o' x w. (None, w)),
      setOwnerReference = (\<lambda>p m. Inr (m\<lparr>OwnerReferences := OwnerReferences m @ [(''PipelineRun'', Name (plrMeta p))]\<rparr>)),
      markFailed = (\<lambda>msg cs. \<lparr>condType = ''Succeeded'', condStatus = ''False''\<rparr> # cs),
      gitlabNewClient = (\<lambda>t b w. (None, w)),
      gitlabGetBranch = (\<lambda>t b r v w. (Some (Err ''no branch''), w)),
      gitlabGetProject = (\<lambda>t b r w. (Inr None, w)),
      giteaNewClient = (\<lambda>t b w. (None, w)),
      giteaGetRepoBranch = (\<lambda>t b o' r v w. (Some (Err ''no branch''), w)),
      giteaGetRepo = (\<lambda>t b o' r w. (Inr None, w)),
      githubNewAppsTransport = (\<lambda>i k. None),
      githubNewTransport = (\<lambda>i j k. None),
      githubNewClient = (\<lambda>w. (None, w)),
      githubToken = (\<lambda>i j k w. (Inr ''token'', w)),
      githubAppsGet = (\<lambda>i k w. (Inr ''app'', w)),
      githubListInstallations = (\<lambda>i k p w. (Inr ([], 0), w)),
      githubListRepos = (\<lambda>i j k p w. (Inr ([], 0), w)),
      githubGetBranch = (\<lambda>t o' r v w. (Some (Err ''no branch''), w)),
      githubGetRepository = (\<lambda>t o' r w. (Inr None, w)),
      githubGetUser = (\<lambda>u w. (Inr 1, w)),
      githubPages = 10,
      ipLiteral = (\<lambda>s. Inl (Err ''no address'')),
      floatText = (\<lambda>s. Some s),
      fractionNanos = (\<lambda>f sc u. f * u div 10 ^ sc),
      getenv = (\<lambda>n. []),
      logSanitizerScript = [],
      readFile = (\<lambda>w. (\<lambda>p. Inl (NotFound p), w)),
      clock = (\<lambda>w. (0, w)),
      randomBytes = (\<lambda>w. (\<lambda>i. 0, w)),
      matchOrder = (\<lambda>w. (\<lambda>m. m, w)),
      keyOrder = (\<lambda>w. (\<lambda>m. m, w)),
      backgroundDone = (\<lambda>w. (False, w))\<rparr>"

definition start :: "unit st" where
  "start = \<lparr>world = (), trace = [], vars = initGlobals\<rparr>"

end
