(* ===== verification/BaseComponent.thy ===== *)
theory BaseComponent
  imports World
begin

text \<open>
  \<open>internal/component/base/base.go\<close> and the interface \<open>GitComponent\<close> of
  \<open>internal/component/component.go\<close>. The interface is a record of its methods; the three platforms
  fill it in their own theories. Programs that run on the record never look at the platform behind
  it, as in Go.
\<close>

section \<open>The interface\<close>

record 'w GitComponent =
  GetName :: string
  GetNamespace :: string
  GetApplication :: string
  GetPlatform :: string
  GetHost :: string
  GetGitURL :: string
  GetRepository :: string
  GetToken :: "('w, error + string) prog"
  GetBranches :: "('w, error + string list) prog"
  GetAPIEndpoint :: string
  GetRenovateConfig :: "Secret option \<Rightarrow> string \<Rightarrow> ('w, error + string) prog"
  GetRPMActivationKey :: "('w, error + string \<times> string) prog"

text \<open>The contract of the interface towards the cluster: no method writes.\<close>

definition read_only :: "'w GitComponent \<Rightarrow> bool" where
  "read_only c \<longleftrightarrow> quiet (GetToken c) \<and> quiet (GetBranches c)
     \<and> (\<forall>secret branch. quiet (GetRenovateConfig c secret branch)) \<and> quiet (GetRPMActivationKey c)"

section \<open>\<open>BaseComponent\<close>\<close>

record BaseComponent =
  bcName :: string
  bcNamespace :: string
  bcApplication :: string
  bcPlatform :: string
  bcHost :: string
  bcGitURL :: string
  bcRepository :: string
  bcVersions :: "string list"
  bcOldCRDVersion :: bool

text \<open>The getters, which the components of all platforms take over.\<close>

definition base_GetName :: "BaseComponent \<Rightarrow> string" where
  [simp]: "base_GetName c = bcName c"

definition base_GetNamespace :: "BaseComponent \<Rightarrow> string" where
  [simp]: "base_GetNamespace c = bcNamespace c"

definition base_GetApplication :: "BaseComponent \<Rightarrow> string" where
  [simp]: "base_GetApplication c = bcApplication c"

definition base_GetPlatform :: "BaseComponent \<Rightarrow> string" where
  [simp]: "base_GetPlatform c = bcPlatform c"

definition base_GetHost :: "BaseComponent \<Rightarrow> string" where
  [simp]: "base_GetHost c = bcHost c"

definition base_GetGitURL :: "BaseComponent \<Rightarrow> string" where
  [simp]: "base_GetGitURL c = bcGitURL c"

definition base_GetRepository :: "BaseComponent \<Rightarrow> string" where
  [simp]: "base_GetRepository c = bcRepository c"

definition SecretTypeOpaque :: string where
  "SecretTypeOpaque = ''Opaque''"

definition SecretTypeBasicAuth :: string where
  "SecretTypeBasicAuth = ''kubernetes.io/basic-auth''"

definition SecretTypeDockerConfigJson :: string where
  "SecretTypeDockerConfigJson = ''kubernetes.io/dockerconfigjson''"

definition BasicAuthPasswordKey :: string where
  "BasicAuthPasswordKey = ''password''"

subsection \<open>Registry credentials as host rules\<close>

type_synonym HostRule = "string gomap"

text \<open>The body of the loop: one registry and its credentials.\<close>

definition hostRule :: "string \<Rightarrow> string gomap \<Rightarrow> error + HostRule" where
  "hostRule registry credentials =
     (case map_of credentials ''auth'' of
        None \<Rightarrow> Inr [(''matchHost'', registry)]
      | Some auth \<Rightarrow>
          (case base64Decode auth of
             None \<Rightarrow> Inl (Err ''illegal base64 data'')
           | Some auth_plain \<Rightarrow>
               (let (username, password, found) = Cut auth_plain (CHR '':'')
                in if \<not> found then Inl (Err ''could not find delimiter in auth'')
                   else Inr [(''matchHost'', registry), (''username'', username), (''password'', password),
                             (''hostType'', ''docker'')])))"

fun hostRules_loop :: "string gomap gomap \<Rightarrow> error + HostRule list" where
  "hostRules_loop [] = Inr []"
| "hostRules_loop ((registry, credentials) # auths) =
     (case hostRule registry credentials of
        Inl e \<Rightarrow> Inl e
      | Inr r \<Rightarrow> (case hostRules_loop auths of Inl e \<Rightarrow> Inl e | Inr rs \<Rightarrow> Inr (r # rs)))"

text \<open>A map visited in the order the runtime picks.\<close>

definition visit :: "(string list \<Rightarrow> string list) \<Rightarrow> 'v gomap \<Rightarrow> 'v gomap" where
  "visit order m = List.map_filter (\<lambda>k. map_option (Pair k) (map_of m k)) (order (map fst m))"

definition GetHostRules :: "'w env \<Rightarrow> Secret \<Rightarrow> ('w, error + HostRule list) prog" where
  "GetHostRules E registrySecret =
     (case map_of (Data registrySecret) DockerConfigJsonKey of
        None \<Rightarrow> return (Inl (Err (''secret '' @ Name (secMeta registrySecret) @ '' is missing the '' @ DockerConfigJsonKey @ '' key'')))
      | Some config \<Rightarrow>
          (case UnmarshalAuths config of
             None \<Rightarrow> return (Inl (Err ''cannot unmarshal registry secret''))
           | Some secrets \<Rightarrow>
               (let auths = (case map_of secrets ''auths'' of None \<Rightarrow> [] | Some a \<Rightarrow> a)
                in runtime (keyOrder E) \<bind> (\<lambda>order. return (hostRules_loop (visit order auths))))))"

subsection \<open>The Renovate base configuration\<close>

text \<open>
  The result is what the caller gets hold of: \<open>True\<close> stands for the map that the package variable
  holds, which every caller shares, \<open>False\<close> for a \<open>nil\<close> map. Storing into a \<open>nil\<close> map panics.
\<close>

definition nilMapPanic :: error where
  "nilMapPanic = Panic ''assignment to entry in nil map''"

definition GetRenovateBaseConfig :: "'w env \<Rightarrow> ('w, error + bool) prog" where
  "GetRenovateBaseConfig E =
     getVars renovateBaseConfig \<bind> (\<lambda>cached.
     if cached \<noteq> None then return (Inr True)
     else onOk (Get_ConfigMap E ''mintmaker'' ''renovate-config'') (\<lambda>baseConfig.
       case UnmarshalMap (floatText E) (mapGet (cmData baseConfig) ''renovate.json'') of
         None \<Rightarrow> return (Inl (Err ''error unmarshaling Renovate config''))
       | Some config \<Rightarrow>
           (case UnmarshalMap (floatText E) (mapGet (cmData baseConfig) ''self_hosted.json'') of
              None \<Rightarrow> return (Inl (Err ''error unmarshaling Renovate self-hosted config''))
            | Some selfHostedConfig \<Rightarrow>
                (case (config, selfHostedConfig) of
                   (None, Some (kv # kvs)) \<Rightarrow> return (Inl nilMapPanic)
                 | (None, _) \<Rightarrow> modifyVars (renovateBaseConfig_update (\<lambda>_. None)) \<bind> (\<lambda>_. return (Inr False))
                 | (Some c, sh) \<Rightarrow>
                     modifyVars (renovateBaseConfig_update
                       (\<lambda>_. Some (storeAll (case sh of None \<Rightarrow> [] | Some m \<Rightarrow> m) c))) \<bind> (\<lambda>_. return (Inr True))))))"

text \<open>\<open>baseConfig[k] = v\<close> on the shared map.\<close>

definition setBaseConfig :: "string \<Rightarrow> json \<Rightarrow> ('w, unit) prog" where
  "setBaseConfig k v = modifyVars (renovateBaseConfig_update (map_option (AList.update k v)))"

definition hostRulesJson :: "HostRule list \<Rightarrow> json" where
  "hostRulesJson rules = JArr (map (\<lambda>r. JObj (map (\<lambda>(k, v). (k, JStr v)) r)) rules)"

text \<open>
  The part of the three \<open>GetRenovateConfig\<close> methods that adds the host rules: an error of
  \<open>GetHostRules\<close> and an empty list of rules leave the configuration alone.
\<close>

definition addHostRules :: "'w env \<Rightarrow> bool \<Rightarrow> Secret option \<Rightarrow> ('w, error + unit) prog" where
  "addHostRules E usable registrySecret =
     (case registrySecret of
        None \<Rightarrow> return (Inr ())
      | Some secret \<Rightarrow>
          GetHostRules E secret \<bind> (\<lambda>r.
          case r of
            Inl e \<Rightarrow> return (Inr ())
          | Inr hostRules \<Rightarrow>
              if hostRules = [] then return (Inr ())
              else if \<not> usable then return (Inl nilMapPanic)
              else setBaseConfig ''hostRules'' (hostRulesJson hostRules) \<bind> (\<lambda>_. return (Inr ()))))"

text \<open>The value of the key \<open>repositories\<close>, and the text that \<open>MarshalIndent\<close> makes of the map.\<close>

definition repositoriesJson :: "string \<Rightarrow> string \<Rightarrow> json" where
  "repositoriesJson repository branch =
     JArr [JObj [(''baseBranchPatterns'', JArr [JStr branch]), (''repository'', JStr repository)]]"

definition marshalBaseConfig :: "('w, error + string) prog" where
  "marshalBaseConfig =
     getVars renovateBaseConfig \<bind> (\<lambda>c.
     return (Inr (case c of None \<Rightarrow> ''null'' | Some m \<Rightarrow> MarshalIndent (JObj m))))"

subsection \<open>RPM activation keys\<close>

definition getActivationKeyFromSecret :: "Secret option \<Rightarrow> error + string \<times> string" where
  "getActivationKeyFromSecret secret =
     (case secret of
        None \<Rightarrow> Inl (Err ''no viable activation key secret has been found'')
      | Some s \<Rightarrow>
          (let activationKey = mapGet (Data s) ''activationkey''; org = mapGet (Data s) ''org''
           in if activationKey = [] \<or> org = []
              then Inl (Err (''secret '' @ Name (secMeta s) @ '' doesn't contain activation key or org''))
              else Inr (activationKey, org)))"

definition base_GetRPMActivationKey :: "'w env \<Rightarrow> BaseComponent \<Rightarrow> ('w, error + string \<times> string) prog" where
  "base_GetRPMActivationKey E c =
     Get_Secret E (bcNamespace c) ''activation-key'' \<bind> (\<lambda>d.
     let defaultSecret = (case d of Inl _ \<Rightarrow> None | Inr s \<Rightarrow> Some s) in
     List_Secrets E (bcNamespace c)
       [(''appstudio.redhat.com/credentials'', ''rpm''), (''appstudio.redhat.com/scm.host'', bcHost c)] \<bind> (\<lambda>l.
     case l of
       Inl _ \<Rightarrow> return (getActivationKeyFromSecret defaultSecret)
     | Inr items \<Rightarrow>
         (let secrets = Filter items (\<lambda>s. secType s = SecretTypeOpaque \<and> Data s \<noteq> [])
          in if secrets = [] then return (getActivationKeyFromSecret defaultSecret)
             else runtime (matchOrder E) \<bind> (\<lambda>order.
               case selectSecret order (bcRepository c) secrets of
                 None \<Rightarrow> return (getActivationKeyFromSecret defaultSecret)
               | Some s \<Rightarrow> return (getActivationKeyFromSecret (Some s))))))"

section \<open>Properties\<close>

lemma quiet_setBaseConfig [quiet_rules]: "within P (setBaseConfig k v)"
  unfolding setBaseConfig_def by (intro quiet_rules)

lemma quiet_GetHostRules [quiet_rules]: "within P (GetHostRules E s)"
  unfolding GetHostRules_def by (intro quiet_rules)

lemma quiet_addHostRules [quiet_rules]: "within P (addHostRules E usable s)"
  unfolding addHostRules_def by (intro quiet_rules)

lemma quiet_marshalBaseConfig [quiet_rules]: "within P marshalBaseConfig"
  unfolding marshalBaseConfig_def by (intro quiet_rules)

lemma quiet_GetRenovateBaseConfig [quiet_rules]: "quiet (GetRenovateBaseConfig E)"
  unfolding GetRenovateBaseConfig_def by (intro quiet_rules)

lemma quiet_GetRPMActivationKey [quiet_rules]: "quiet (base_GetRPMActivationKey E c)"
  unfolding base_GetRPMActivationKey_def by (intro quiet_rules)

end
