(* ===== verification/GitLab.thy ===== *)
theory GitLab
  imports BaseComponent
begin

text \<open>
  \<open>internal/component/gitlab/gitlab.go\<close>. A client of the GitLab library is the pair of token and
  base URL it was made from. The loop of \<open>GetBranches\<close> that keeps the versions the service knows
  as branches is the same on all platforms and lives here.
\<close>

section \<open>Shared loop\<close>

fun branches_loop :: "(string \<Rightarrow> ('w, error option) prog) \<Rightarrow> string list \<Rightarrow> ('w, string list) prog" where
  "branches_loop getBranch [] = return []"
| "branches_loop getBranch (version # versions) =
     getBranch version \<bind> (\<lambda>err.
     branches_loop getBranch versions \<bind> (\<lambda>branches.
     return (if err = None then version # branches else branches)))"

definition orNoVersions :: "string list \<Rightarrow> error + string list" where
  "orNoVersions branches =
     (if branches = [] then Inl (Err ''no versions found or all versions are tags (not branches)'') else Inr branches)"

definition noDefaultBranch :: string where
  "noDefaultBranch = ''component does not have a branch specified and failed to get default branch''"

section \<open>The component\<close>

definition gitlab_NewComponent ::
  "'w env \<Rightarrow> Component \<Rightarrow> string \<Rightarrow> string list \<Rightarrow> bool \<Rightarrow> error + BaseComponent" where
  "gitlab_NewComponent E component giturl versions oldCRDVersion =
     (case GetGitPlatform (ipLiteral E) giturl of
        Inl e \<Rightarrow> Inl e
      | Inr platform \<Rightarrow>
          (case GetGitHost (ipLiteral E) giturl of
             Inl e \<Rightarrow> Inl e
           | Inr host \<Rightarrow>
               (case GetGitPath (ipLiteral E) giturl of
                  Inl e \<Rightarrow> Inl e
                | Inr repository \<Rightarrow>
                    Inr \<lparr>bcName = Name (compMeta component), bcNamespace = Namespace (compMeta component),
                         bcApplication = Application component, bcPlatform = platform, bcHost = host,
                         bcGitURL = giturl, bcRepository = repository, bcVersions = versions,
                         bcOldCRDVersion = oldCRDVersion\<rparr>)))"

definition gitlab_lookupSecret :: "'w env \<Rightarrow> BaseComponent \<Rightarrow> ('w, error + Secret) prog" where
  "gitlab_lookupSecret E c =
     onOk (wrapErr (''failed to list scm secrets in namespace '' @ bcNamespace c)
       (List_Secrets E (bcNamespace c)
         [(''appstudio.redhat.com/credentials'', ''scm''), (''appstudio.redhat.com/scm.host'', bcHost c)])) (\<lambda>items.
     let secrets = Filter items (\<lambda>s. secType s = SecretTypeBasicAuth \<and> Data s \<noteq> [])
     in if secrets = [] then return (Inl (Err (''no secrets available for git host '' @ bcHost c)))
        else runtime (matchOrder E) \<bind> (\<lambda>order.
          return (case selectSecret order (bcRepository c) secrets of
                    None \<Rightarrow> Inl (Err ''no secrets available for component'')
                  | Some s \<Rightarrow> Inr s)))"

definition gitlab_GetToken :: "'w env \<Rightarrow> BaseComponent \<Rightarrow> ('w, error + string) prog" where
  "gitlab_GetToken E c =
     onOk (gitlab_lookupSecret E c) (\<lambda>secret. return (Inr (mapGet (Data secret) BasicAuthPasswordKey)))"

definition gitlab_getClient :: "'w env \<Rightarrow> BaseComponent \<Rightarrow> ('w, error + string \<times> string) prog" where
  "gitlab_getClient E c =
     onOk (wrapErr ''failed to get GitLab token'' (gitlab_GetToken E c)) (\<lambda>token.
     case urlParse (ipLiteral E) (bcGitURL c) of
       Inl e \<Rightarrow> return (Inl (Wrap ''failed to parse git url'' e))
     | Inr u \<Rightarrow>
         (let baseUrl = Scheme u @ ''://'' @ bcHost c
          in onOk (wrapErr ''failed to create GitLab client''
                     (asResult (external ''gitlab.NewClient'' (gitlabNewClient E token baseUrl)))) (\<lambda>_.
             return (Inr (token, baseUrl)))))"

definition gitlab_getDefaultBranch :: "'w env \<Rightarrow> BaseComponent \<Rightarrow> ('w, error + string) prog" where
  "gitlab_getDefaultBranch E c =
     onOk (wrapErr ''failed to get GitLab client'' (gitlab_getClient E c)) (\<lambda>(token, baseUrl).
     onOk (external ''gitlab.GetProject'' (gitlabGetProject E token baseUrl (bcRepository c))) (\<lambda>project.
     return (case project of
               None \<Rightarrow> Inl (Err ''project info is empty in GitLab API response'')
             | Some defaultBranch \<Rightarrow> Inr defaultBranch)))"

definition gitlab_GetBranches :: "'w env \<Rightarrow> BaseComponent \<Rightarrow> ('w, error + string list) prog" where
  "gitlab_GetBranches E c =
     (if bcVersions c = [] \<and> bcOldCRDVersion c
      then onOk (wrapErr noDefaultBranch (gitlab_getDefaultBranch E c)) (\<lambda>b. return (Inr [b]))
      else onOk (wrapErr ''failed to get GitLab client'' (gitlab_getClient E c)) (\<lambda>(token, baseUrl).
        branches_loop (\<lambda>version. external ''gitlab.GetBranch'' (gitlabGetBranch E token baseUrl (bcRepository c) version))
          (bcVersions c) \<bind> (\<lambda>branches.
        return (orNoVersions branches))))"

definition gitlab_GetAPIEndpoint :: "BaseComponent \<Rightarrow> string" where
  "gitlab_GetAPIEndpoint c = ''https://'' @ bcHost c @ ''/api/v4/''"

definition gitlab_GetRenovateConfig ::
  "'w env \<Rightarrow> BaseComponent \<Rightarrow> Secret option \<Rightarrow> string \<Rightarrow> ('w, error + string) prog" where
  "gitlab_GetRenovateConfig E c registrySecret currentBranch =
     onOk (GetRenovateBaseConfig E) (\<lambda>usable.
     onOk (addHostRules E usable registrySecret) (\<lambda>_.
     if \<not> usable then return (Inl nilMapPanic)
     else
       setBaseConfig ''platform'' (JStr (bcPlatform c)) \<bind> (\<lambda>_.
       setBaseConfig ''endpoint'' (JStr (gitlab_GetAPIEndpoint c)) \<bind> (\<lambda>_.
       setBaseConfig ''username'' (JStr []) \<bind> (\<lambda>_.
       setBaseConfig ''gitAuthor'' (JStr []) \<bind> (\<lambda>_.
       setBaseConfig ''repositories'' (repositoriesJson (bcRepository c) currentBranch) \<bind> (\<lambda>_.
       marshalBaseConfig)))))))"

definition gitlab_component :: "'w env \<Rightarrow> BaseComponent \<Rightarrow> 'w GitComponent" where
  "gitlab_component E c =
     \<lparr>GetName = base_GetName c, GetNamespace = base_GetNamespace c, GetApplication = base_GetApplication c,
      GetPlatform = base_GetPlatform c, GetHost = base_GetHost c, GetGitURL = base_GetGitURL c,
      GetRepository = base_GetRepository c, GetToken = gitlab_GetToken E c,
      GetBranches = gitlab_GetBranches E c, GetAPIEndpoint = gitlab_GetAPIEndpoint c,
      GetRenovateConfig = gitlab_GetRenovateConfig E c,
      GetRPMActivationKey = base_GetRPMActivationKey E c\<rparr>"

section \<open>The methods only read\<close>

lemma quiet_branches_loop [quiet_rules]:
  "(\<And>v. quiet (getBranch v)) \<Longrightarrow> quiet (branches_loop getBranch versions)"
  by (induction versions) (auto intro!: quiet_rules)

lemma quiet_gitlab [quiet_rules]:
  "quiet (gitlab_lookupSecret E c)" "quiet (gitlab_GetToken E c)" "quiet (gitlab_getClient E c)"
  "quiet (gitlab_getDefaultBranch E c)" "quiet (gitlab_GetBranches E c)"
  "quiet (gitlab_GetRenovateConfig E c registrySecret currentBranch)"
proof -
  show 1: "quiet (gitlab_lookupSecret E c)"
    unfolding gitlab_lookupSecret_def by (intro quiet_rules)
  show 2: "quiet (gitlab_GetToken E c)"
    unfolding gitlab_GetToken_def by (intro quiet_rules 1)
  show 3: "quiet (gitlab_getClient E c)"
    unfolding gitlab_getClient_def by (intro quiet_rules 2)
  show 4: "quiet (gitlab_getDefaultBranch E c)"
    unfolding gitlab_getDefaultBranch_def by (intro quiet_rules 3)
  show "quiet (gitlab_GetBranches E c)"
    unfolding gitlab_GetBranches_def by (intro quiet_rules 3 4)
  show "quiet (gitlab_GetRenovateConfig E c registrySecret currentBranch)"
    unfolding gitlab_GetRenovateConfig_def by (intro quiet_rules)
qed

lemma read_only_gitlab: "read_only (gitlab_component E c)"
  unfolding read_only_def gitlab_component_def by (simp add: quiet_gitlab quiet_GetRPMActivationKey)

end
