(* ===== verification/Forgejo.thy ===== *)
theory Forgejo
  imports GitLab
begin

text \<open>
  \<open>internal/component/forgejo/forgejo.go\<close>. A client of the Gitea library is the pair of token and
  base URL it was made from.
\<close>

definition forgejo_NewComponent ::
  "'w env \<Rightarrow> Component \<Rightarrow> string \<Rightarrow> string list \<Rightarrow> bool \<Rightarrow> error + BaseComponent" where
  "forgejo_NewComponent E component giturl versions oldCRDVersion =
     (case GetGitPlatform (ipLiteral E) giturl of
        Inl e \<Rightarrow> Inl e
      | Inr platform \<Rightarrow>
          (case GetGitHost (ipLiteral E) giturl of
             Inl e \<Rightarrow> Inl e
           | Inr host \<Rightarrow>
               (case GetGitPath (ipLiteral E) giturl of
                  Inl e \<Rightarrow> Inl e
                | Inr repository \<Rightarrow>
                    Inr \<lparr>bcName = Name (compMeta component), bcNamespace = Namespace (compMeta component),
                         bcApplication = Application component, bcPlatform = platform, bcHost = host,
                         bcGitURL = giturl, bcRepository = repository, bcVersions = versions,
                         bcOldCRDVersion = oldCRDVersion\<rparr>)))"

definition forgejo_lookupSecret :: "'w env \<Rightarrow> BaseComponent \<Rightarrow> ('w, error + Secret) prog" where
  "forgejo_lookupSecret E c =
     onOk (wrapErr (''failed to list scm secrets in namespace '' @ bcNamespace c)
       (List_Secrets E (bcNamespace c)
         [(''appstudio.redhat.com/credentials'', ''scm''), (''appstudio.redhat.com/scm.host'', bcHost c)])) (\<lambda>items.
     let secrets = Filter items (\<lambda>s. secType s = SecretTypeBasicAuth \<and> Data s \<noteq> [])
     in if secrets = [] then return (Inl (Err (''no secrets available for git host '' @ bcHost c)))
        else runtime (matchOrder E) \<bind> (\<lambda>order.
          return (case selectSecret order (bcRepository c) secrets of
                    None \<Rightarrow> Inl (Err ''no secrets available for component'')
                  | Some s \<Rightarrow> Inr s)))"

definition forgejo_scheme :: "'w env \<Rightarrow> BaseComponent \<Rightarrow> string" where
  "forgejo_scheme E c =
     (case urlParse (ipLiteral E) (bcGitURL c) of
        Inl e \<Rightarrow> ''https''
      | Inr u \<Rightarrow> if Scheme u \<noteq> [] then Scheme u else ''https'')"

definition forgejo_GetToken :: "'w env \<Rightarrow> BaseComponent \<Rightarrow> ('w, error + string) prog" where
  "forgejo_GetToken E c =
     onOk (forgejo_lookupSecret E c) (\<lambda>secret. return (Inr (mapGet (Data secret) BasicAuthPasswordKey)))"

definition forgejo_GetAPIEndpoint :: "'w env \<Rightarrow> BaseComponent \<Rightarrow> string" where
  "forgejo_GetAPIEndpoint E c = forgejo_scheme E c @ ''://'' @ bcHost c @ ''/api/v1/''"

definition forgejo_getClient :: "'w env \<Rightarrow> BaseComponent \<Rightarrow> ('w, error + string \<times> string) prog" where
  "forgejo_getClient E c =
     onOk (wrapErr ''failed to get Forgejo token'' (forgejo_GetToken E c)) (\<lambda>token.
     let baseURL = forgejo_scheme E c @ ''://'' @ bcHost c
     in onOk (wrapErr ''failed to create Forgejo client''
                (asResult (external ''gitea.NewClient'' (giteaNewClient E token baseURL)))) (\<lambda>_.
        return (Inr (token, baseURL))))"

definition forgejo_getOwnerAndRepo :: "BaseComponent \<Rightarrow> error + string \<times> string" where
  "forgejo_getOwnerAndRepo c =
     (case SplitN2 (bcRepository c) (CHR ''/'') of
        [owner, repo] \<Rightarrow>
          if owner = [] \<or> repo = []
          then Inl (Err (''invalid repository format '' @ bcRepository c @ '' (expected owner/repo)''))
          else Inr (owner, repo)
      | _ \<Rightarrow> Inl (Err (''invalid repository format '' @ bcRepository c @ '' (expected owner/repo)'')))"

definition forgejo_getDefaultBranch :: "'w env \<Rightarrow> BaseComponent \<Rightarrow> ('w, error + string) prog" where
  "forgejo_getDefaultBranch E c =
     onOk (wrapErr ''failed to get Forgejo client'' (forgejo_getClient E c)) (\<lambda>(token, baseURL).
     onOk (return (forgejo_getOwnerAndRepo c)) (\<lambda>(owner, repo).
     onOk (wrapErr ''failed to get repo''
             (external ''gitea.GetRepo'' (giteaGetRepo E token baseURL owner repo))) (\<lambda>repository.
     return (case repository of
               None \<Rightarrow> Inl (Err ''repository or default branch is empty in Forgejo API response'')
             | Some defaultBranch \<Rightarrow>
                 if defaultBranch = [] then Inl (Err ''repository or default branch is empty in Forgejo API response'')
                 else Inr defaultBranch))))"

definition forgejo_GetBranches :: "'w env \<Rightarrow> BaseComponent \<Rightarrow> ('w, error + string list) prog" where
  "forgejo_GetBranches E c =
     (if bcVersions c = [] \<and> bcOldCRDVersion c
      then onOk (wrapErr noDefaultBranch (forgejo_getDefaultBranch E c)) (\<lambda>b. return (Inr [b]))
      else onOk (wrapErr ''GetBranches: failed to get Forgejo client'' (forgejo_getClient E c)) (\<lambda>(token, baseURL).
        onOk (wrapErr ''GetBranches: failed to get owner and repository'' (return (forgejo_getOwnerAndRepo c))) (\<lambda>(owner, repo).
        branches_loop (\<lambda>version. external ''gitea.GetRepoBranch'' (giteaGetRepoBranch E token baseURL owner repo version))
          (bcVersions c) \<bind> (\<lambda>branches.
        return (orNoVersions branches)))))"

definition forgejo_GetRenovateConfig ::
  "'w env \<Rightarrow> BaseComponent \<Rightarrow> Secret option \<Rightarrow> string \<Rightarrow> ('w, error + string) prog" where
  "forgejo_GetRenovateConfig E c registrySecret currentBranch =
     onOk (GetRenovateBaseConfig E) (\<lambda>usable.
     onOk (addHostRules E usable registrySecret) (\<lambda>_.
     if \<not> usable then return (Inl nilMapPanic)
     else
       setBaseConfig ''platform'' (JStr (bcPlatform c)) \<bind> (\<lambda>_.
       setBaseConfig ''endpoint'' (JStr (forgejo_GetAPIEndpoint E c)) \<bind> (\<lambda>_.
       setBaseConfig ''username'' (JStr []) \<bind> (\<lambda>_.
       setBaseConfig ''gitAuthor'' (JStr []) \<bind> (\<lambda>_.
       setBaseConfig ''repositories'' (repositoriesJson (bcRepository c) currentBranch) \<bind> (\<lambda>_.
       marshalBaseConfig)))))))"

definition forgejo_component :: "'w env \<Rightarrow> BaseComponent \<Rightarrow> 'w GitComponent" where
  "forgejo_component E c =
     \<lparr>GetName = base_GetName c, GetNamespace = base_GetNamespace c, GetApplication = base_GetApplication c,
      GetPlatform = base_GetPlatform c, GetHost = base_GetHost c, GetGitURL = base_GetGitURL c,
      GetRepository = base_GetRepository c, GetToken = forgejo_GetToken E c,
      GetBranches = forgejo_GetBranches E c, GetAPIEndpoint = forgejo_GetAPIEndpoint E c,
      GetRenovateConfig = forgejo_GetRenovateConfig E c,
      GetRPMActivationKey = base_GetRPMActivationKey E c\<rparr>"

section \<open>The methods only read\<close>

lemma quiet_forgejo [quiet_rules]:
  "quiet (forgejo_lookupSecret E c)" "quiet (forgejo_GetToken E c)" "quiet (forgejo_getClient E c)"
  "quiet (forgejo_getDefaultBranch E c)" "quiet (forgejo_GetBranches E c)"
  "quiet (forgejo_GetRenovateConfig E c registrySecret currentBranch)"
proof -
  show 1: "quiet (forgejo_lookupSecret E c)"
    unfolding forgejo_lookupSecret_def by (intro quiet_rules)
  show 2: "quiet (forgejo_GetToken E c)"
    unfolding forgejo_GetToken_def by (intro quiet_rules 1)
  show 3: "quiet (forgejo_getClient E c)"
    unfolding forgejo_getClient_def by (intro quiet_rules 2)
  show 4: "quiet (forgejo_getDefaultBranch E c)"
    unfolding forgejo_getDefaultBranch_def by (intro quiet_rules 3)
  show "quiet (forgejo_GetBranches E c)"
    unfolding forgejo_GetBranches_def by (intro quiet_rules 3 4)
  show "quiet (forgejo_GetRenovateConfig E c registrySecret currentBranch)"
    unfolding forgejo_GetRenovateConfig_def by (intro quiet_rules)
qed

lemma read_only_forgejo: "read_only (forgejo_component E c)"
  unfolding read_only_def forgejo_component_def by (simp add: quiet_forgejo quiet_GetRPMActivationKey)

end
