(* ===== verification/GitHubApp.thy ===== *)
theory GitHubApp
  imports GitLab
begin

text \<open>
  \<open>internal/component/github\<close>: the component for repositories served through the GitHub
  application, with its package-wide caches (\<open>cache.go\<close>): the tokens of the installations and the
  list of installations. The installation cache is modelled as its sequence of calls sees it; the
  goroutine that refreshes stale data in the background runs when the runtime lets it, at the
  latest when a caller waits for it. \<open>CacheThreads\<close> has the same code under concurrent callers.
\<close>

section \<open>\<open>TokenCache\<close>\<close>

text \<open>\<open>time.Until\<close>, which saturates.\<close>

definition timeUntil :: "int \<Rightarrow> int \<Rightarrow> int" where
  "timeUntil t now = max (- (2 ^ 63)) (min (2 ^ 63 - 1) (t - now))"

definition TokenCache_Set :: "string \<Rightarrow> TokenInfo \<Rightarrow> TokenInfo gomap \<Rightarrow> TokenInfo gomap" where
  "TokenCache_Set key tokenInfo entries = AList.update key tokenInfo entries"

definition TokenCache_Get :: "int \<Rightarrow> int \<Rightarrow> string \<Rightarrow> TokenInfo gomap \<Rightarrow> TokenInfo option" where
  "TokenCache_Get minValidity now key entries =
     (case map_of entries key of
        None \<Rightarrow> None
      | Some entry \<Rightarrow> if timeUntil (ExpiresAt entry) now < minValidity then None else Some entry)"

section \<open>The component\<close>

record GitHubComponent =
  ghBase :: BaseComponent
  AppID :: int
  AppPrivateKey :: string

text \<open>A missing key is \<open>nil\<close>: the component uses it as empty, the package variable stays unset.\<close>

definition fetchAppIDAndKey :: "'w env \<Rightarrow> ('w, error + int \<times> string) prog" where
  "fetchAppIDAndKey E =
     onOk (Get_Secret E ''mintmaker'' ''pipelines-as-code-secret'') (\<lambda>appSecret.
     case ParseInt (mapGet (Data appSecret) ''github-application-id'') of
       None \<Rightarrow> return (Inl (Wrap ''failed to parse GitHub APP ID'' (Err ''invalid syntax'')))
     | Some num \<Rightarrow>
         modifyVars (\<lambda>g. g\<lparr>ghAppID := num, ghAppPrivateKey := map_of (Data appSecret) ''github-private-key''\<rparr>) \<bind> (\<lambda>_.
         return (Inr (num, mapGet (Data appSecret) ''github-private-key''))))"

definition getAppIDAndKey :: "'w env \<Rightarrow> ('w, error + int \<times> string) prog" where
  "getAppIDAndKey E =
     getVars (\<lambda>g. (ghAppID g, ghAppPrivateKey g)) \<bind> (\<lambda>(i, k).
     case k of
       Some key \<Rightarrow> if i \<noteq> 0 then return (Inr (i, key)) else fetchAppIDAndKey E
     | None \<Rightarrow> fetchAppIDAndKey E)"

definition github_NewComponent ::
  "'w env \<Rightarrow> Component \<Rightarrow> string \<Rightarrow> string list \<Rightarrow> bool \<Rightarrow> ('w, error + GitHubComponent) prog" where
  "github_NewComponent E component giturl versions oldCRDVersion =
     onOk (wrapErr ''failed to get GitHub APP ID and private key'' (getAppIDAndKey E)) (\<lambda>(appID, appPrivateKey).
     return (case GetGitPlatform (ipLiteral E) giturl of
        Inl e \<Rightarrow> Inl e
      | Inr platform \<Rightarrow>
          (case GetGitHost (ipLiteral E) giturl of
             Inl e \<Rightarrow> Inl e
           | Inr host \<Rightarrow>
               (case GetGitPath (ipLiteral E) giturl of
                  Inl e \<Rightarrow> Inl e
                | Inr repository \<Rightarrow>
                    Inr \<lparr>ghBase =
                           \<lparr>bcName = Name (compMeta component), bcNamespace = Namespace (compMeta component),
                            bcApplication = Application component, bcPlatform = platform, bcHost = host,
                            bcGitURL = giturl, bcRepository = repository, bcVersions = versions,
                            bcOldCRDVersion = oldCRDVersion\<rparr>,
                         AppID = appID, AppPrivateKey = appPrivateKey\<rparr>))))"

section \<open>Installations\<close>

text \<open>
  The two paging loops of \<open>fetchAppInstallations\<close>. A page has a successor until its \<open>NextPage\<close> is
  zero; \<open>githubPages\<close> bounds the number of pages the service hands out.
\<close>

definition pagesExceeded :: error where
  "pagesExceeded = Err ''more pages than the service has''"

fun listRepos_loop ::
  "'w env \<Rightarrow> nat \<Rightarrow> int \<Rightarrow> int \<Rightarrow> string \<Rightarrow> nat \<Rightarrow> string list \<Rightarrow> ('w, error + string list) prog" where
  "listRepos_loop E 0 appID installationID key page repositories = return (Inl pagesExceeded)"
| "listRepos_loop E (Suc n) appID installationID key page repositories =
     external ''github.ListRepos'' (githubListRepos E appID installationID key page) \<bind> (\<lambda>r.
     case r of
       Inl e \<Rightarrow> return (Inr repositories)
     | Inr (repos, nextPage) \<Rightarrow>
         (if nextPage = 0 then return (Inr (repositories @ repos))
          else listRepos_loop E n appID installationID key nextPage (repositories @ repos)))"

definition installationOf :: "'w env \<Rightarrow> int \<Rightarrow> string \<Rightarrow> int \<Rightarrow> ('w, error + AppInstallation) prog" where
  "installationOf E appID key installationID =
     (case githubNewTransport E appID installationID key of
        Some e \<Rightarrow> return (Inl (Wrap ''error creating installation transport'' e))
      | None \<Rightarrow>
          onOk (wrapErr ''failed to create GitHub installation client''
                  (asResult (external ''github.NewClient'' (githubNewClient E)))) (\<lambda>_.
          onOk (listRepos_loop E (githubPages E) appID installationID key 0 []) (\<lambda>repositories.
          return (Inr \<lparr>InstallationID = installationID, Repositories = repositories\<rparr>))))"

fun installations_loop ::
  "'w env \<Rightarrow> int \<Rightarrow> string \<Rightarrow> int list \<Rightarrow> AppInstallation list \<Rightarrow> ('w, error + AppInstallation list) prog" where
  "installations_loop E appID key [] appInstallations = return (Inr appInstallations)"
| "installations_loop E appID key (i # is) appInstallations =
     onOk (installationOf E appID key i) (\<lambda>a. installations_loop E appID key is (appInstallations @ [a]))"

fun pages_loop ::
  "'w env \<Rightarrow> nat \<Rightarrow> int \<Rightarrow> string \<Rightarrow> nat \<Rightarrow> AppInstallation list \<Rightarrow> ('w, error + AppInstallation list) prog" where
  "pages_loop E 0 appID key page appInstallations = return (Inl pagesExceeded)"
| "pages_loop E (Suc n) appID key page appInstallations =
     external ''github.ListInstallations'' (githubListInstallations E appID key page) \<bind> (\<lambda>r.
     case r of
       Inl (e, status) \<Rightarrow>
         return (Inl (if status = 401 then Err ''GitHub Application private key does not match Application ID''
                      else if status = 404 then Err ''GitHub Application with given ID does not exist''
                      else Wrap ''error getting GitHub Application installations'' e))
     | Inr (installations, nextPage) \<Rightarrow>
         onOk (installations_loop E appID key installations appInstallations) (\<lambda>acc.
         if nextPage = 0 then return (Inr acc) else pages_loop E n appID key nextPage acc))"

definition fetchAppInstallations :: "'w env \<Rightarrow> int \<Rightarrow> string \<Rightarrow> ('w, error + AppInstallation list) prog" where
  "fetchAppInstallations E appID key =
     (case githubNewAppsTransport E appID key of
        Some e \<Rightarrow> return (Inl e)
      | None \<Rightarrow>
          onOk (wrapErr ''failed to create GitHub client''
                  (asResult (external ''github.NewClient'' (githubNewClient E)))) (\<lambda>_.
          onOk (wrapErr ''failed to load GitHub app metadata''
                  (external ''github.Apps.Get'' (githubAppsGet E appID key))) (\<lambda>_.
          pages_loop E (githubPages E) appID key 0 [])))"

subsection \<open>The cache of installations\<close>

definition refreshPeriod :: int where
  "refreshPeriod = 2 * 60 * minute"

definition updateCache :: "(StaleAllowedCache \<Rightarrow> StaleAllowedCache) \<Rightarrow> ('w, unit) prog" where
  "updateCache f = modifyVars (ghAppInstallationsCache_update (map_option f))"

text \<open>A refresh, in the caller or in the background: new data and a new expiry, or neither.\<close>

definition refreshCache :: "'w env \<Rightarrow> StaleAllowedCache \<Rightarrow> ('w, error + AppInstallation list) prog" where
  "refreshCache E cache =
     fetchAppInstallations E (cacheAppID cache) (cacheAppPrivateKey cache) \<bind> (\<lambda>r.
     case r of
       Inl e \<Rightarrow> updateCache (refreshInProgress_update (\<lambda>_. False)) \<bind> (\<lambda>_. return (Inl e))
     | Inr newData \<Rightarrow>
         runtime (clock E) \<bind> (\<lambda>now.
         updateCache (\<lambda>c. c\<lparr>cacheData := Some newData, cacheExpiry := now + refreshPeriod, refreshInProgress := False\<rparr>) \<bind> (\<lambda>_.
         return (Inr newData))))"

text \<open>
  \<open>getWithRefresh\<close>: wait for a running refresh, use data that turns out fresh, hand out stale data
  and leave the refresh to a goroutine, or fetch the first data.
\<close>

definition getWithRefresh :: "'w env \<Rightarrow> StaleAllowedCache \<Rightarrow> ('w, AppInstallation list option) prog" where
  "getWithRefresh E cache =
     (if refreshInProgress cache then
        refreshCache E cache \<bind> (\<lambda>_. getVars (\<lambda>g. Option.bind (ghAppInstallationsCache g) cacheData))
      else
        case cacheData cache of
          Some value \<Rightarrow>
            runtime (clock E) \<bind> (\<lambda>now.
            if now \<le> cacheExpiry cache then return (Some value)
            else updateCache (refreshInProgress_update (\<lambda>_. True)) \<bind> (\<lambda>_. return (Some value)))
        | None \<Rightarrow>
            updateCache (refreshInProgress_update (\<lambda>_. True)) \<bind> (\<lambda>_.
            refreshCache E cache \<bind> (\<lambda>r.
            return (case r of Inl e \<Rightarrow> None | Inr newData \<Rightarrow> Some newData))))"

definition StaleAllowedCache_Get :: "'w env \<Rightarrow> ('w, AppInstallation list option) prog" where
  "StaleAllowedCache_Get E =
     getVars ghAppInstallationsCache \<bind> (\<lambda>c.
     case c of
       None \<Rightarrow> return None
     | Some cache \<Rightarrow>
         (case cacheData cache of
            None \<Rightarrow> getWithRefresh E cache
          | Some value \<Rightarrow>
              runtime (clock E) \<bind> (\<lambda>now.
              if now \<le> cacheExpiry cache then return (Some value) else getWithRefresh E cache)))"

text \<open>A refresh in the background may have finished since the last call.\<close>

definition settleBackground :: "'w env \<Rightarrow> ('w, unit) prog" where
  "settleBackground E =
     getVars ghAppInstallationsCache \<bind> (\<lambda>c.
     case c of
       None \<Rightarrow> return ()
     | Some cache \<Rightarrow>
         runtime (backgroundDone E) \<bind> (\<lambda>finished.
         if refreshInProgress cache \<and> finished then refreshCache E cache \<bind> (\<lambda>_. return ()) else return ()))"

definition NewStaleAllowedCache :: "int \<Rightarrow> int \<Rightarrow> string \<Rightarrow> StaleAllowedCache" where
  "NewStaleAllowedCache now appID key =
     \<lparr>cacheAppID = appID, cacheAppPrivateKey = key, cacheData = None, cacheExpiry = now + refreshPeriod,
      refreshInProgress = False\<rparr>"

definition getAppInstallations :: "'w env \<Rightarrow> GitHubComponent \<Rightarrow> ('w, error + AppInstallation list) prog" where
  "getAppInstallations E c =
     getVars ghAppInstallationsCache \<bind> (\<lambda>cache.
     (case cache of
        Some _ \<Rightarrow> return ()
      | None \<Rightarrow>
          runtime (clock E) \<bind> (\<lambda>now.
          modifyVars (ghAppInstallationsCache_update
            (\<lambda>_. Some (NewStaleAllowedCache now (AppID c) (AppPrivateKey c)))))) \<bind> (\<lambda>_.
     settleBackground E \<bind> (\<lambda>_.
     StaleAllowedCache_Get E \<bind> (\<lambda>v.
     return (case v of
               None \<Rightarrow> Inl (Err ''failed to get GitHub app installations'')
             | Some installations \<Rightarrow> Inr installations)))))"

section \<open>Tokens\<close>

definition findInstallation :: "string \<Rightarrow> AppInstallation list \<Rightarrow> AppInstallation option" where
  "findInstallation repository installations =
     find (\<lambda>a. list_ex (\<lambda>repo. TrimSuffix (TrimPrefix repo ''/'') ''/'' = repository) (Repositories a)) installations"

definition getInstallationID :: "'w env \<Rightarrow> GitHubComponent \<Rightarrow> ('w, error + int) prog" where
  "getInstallationID E c =
     onOk (getAppInstallations E c) (\<lambda>appInstallations.
     return (case findInstallation (bcRepository (ghBase c)) appInstallations of
               None \<Rightarrow> Inl (Err (''repository '' @ bcRepository (ghBase c) @ '' not found in any GitHub App installation''))
             | Some a \<Rightarrow> Inr (InstallationID a)))"

definition tokenKey :: "int \<Rightarrow> string" where
  "tokenKey installationID = ''installation_'' @ Itoa installationID"

definition github_GetToken :: "'w env \<Rightarrow> GitHubComponent \<Rightarrow> ('w, error + string) prog" where
  "github_GetToken E c =
     onOk (wrapErr ''failed to get installation ID'' (getInstallationID E c)) (\<lambda>installationID.
     configGet E \<bind> (\<lambda>cfg.
     getVars tokenEntries \<bind> (\<lambda>entries.
     runtime (clock E) \<bind> (\<lambda>now.
     case TokenCache_Get (TokenMinValidity (GitHub cfg)) now (tokenKey installationID) entries of
       Some tokenInfo \<Rightarrow> return (Inr (Token tokenInfo))
     | None \<Rightarrow>
         (case githubNewTransport E (AppID c) installationID (AppPrivateKey c) of
            Some e \<Rightarrow> return (Inl (Wrap ''error creating installation transport'' e))
          | None \<Rightarrow>
              onOk (wrapErr ''error getting installation token''
                      (external ''github.Token'' (githubToken E (AppID c) installationID (AppPrivateKey c)))) (\<lambda>token.
              runtime (clock E) \<bind> (\<lambda>now.
              modifyVars (tokenEntries_update (TokenCache_Set (tokenKey installationID)
                \<lparr>Token = token, ExpiresAt = now + TokenTTL (GitHub cfg)\<rparr>)) \<bind> (\<lambda>_.
              return (Inr token)))))))))"

section \<open>Branches and configuration\<close>

definition github_getClient :: "'w env \<Rightarrow> GitHubComponent \<Rightarrow> ('w, error + string) prog" where
  "github_getClient E c =
     onOk (wrapErr ''failed to get GitHub token'' (github_GetToken E c)) (\<lambda>token.
     onOk (wrapErr ''failed to create GitHub client''
             (asResult (external ''github.NewClient'' (githubNewClient E)))) (\<lambda>_.
     return (Inr token)))"

definition github_getOwnerAndRepo :: "GitHubComponent \<Rightarrow> error + string \<times> string" where
  "github_getOwnerAndRepo c =
     (case Split (bcRepository (ghBase c)) (CHR ''/'') of
        [owner, repo] \<Rightarrow> Inr (owner, repo)
      | _ \<Rightarrow> Inl (Err (''invalid repository format: '' @ bcRepository (ghBase c))))"

definition github_getDefaultBranch :: "'w env \<Rightarrow> GitHubComponent \<Rightarrow> ('w, error + string) prog" where
  "github_getDefaultBranch E c =
     onOk (wrapErr ''failed to get GitHub client'' (github_getClient E c)) (\<lambda>token.
     onOk (wrapErr ''failed to get owner and repository'' (return (github_getOwnerAndRepo c))) (\<lambda>(owner, repo).
     onOk (wrapErr ''failed to get repository information''
             (external ''github.Repositories.Get'' (githubGetRepository E token owner repo))) (\<lambda>defaultBranch.
     return (case defaultBranch of
               None \<Rightarrow> Inl (Err ''repository default branch is nil'')
             | Some b \<Rightarrow> Inr b))))"

definition github_GetBranches :: "'w env \<Rightarrow> GitHubComponent \<Rightarrow> ('w, error + string list) prog" where
  "github_GetBranches E c =
     (if bcVersions (ghBase c) = [] \<and> bcOldCRDVersion (ghBase c)
      then onOk (wrapErr noDefaultBranch (github_getDefaultBranch E c)) (\<lambda>b. return (Inr [b]))
      else onOk (wrapErr ''GetBranches: failed to get GitHub client'' (github_getClient E c)) (\<lambda>token.
        onOk (wrapErr ''GetBranches: failed to get owner and repository'' (return (github_getOwnerAndRepo c))) (\<lambda>(owner, repo).
        branches_loop (\<lambda>version. external ''github.GetBranch'' (githubGetBranch E token owner repo version))
          (bcVersions (ghBase c)) \<bind> (\<lambda>branches.
        return (orNoVersions branches)))))"

definition github_GetAPIEndpoint :: "GitHubComponent \<Rightarrow> string" where
  "github_GetAPIEndpoint c = ''https://api.'' @ bcHost (ghBase c) @ ''/''"

definition getAppSlug :: "'w env \<Rightarrow> ('w, error + string) prog" where
  "getAppSlug E =
     getVars ghAppSlug \<bind> (\<lambda>slug.
     if slug \<noteq> [] then return (Inr slug)
     else onOk (getAppIDAndKey E) (\<lambda>(appID, appPrivateKey).
       case githubNewAppsTransport E appID appPrivateKey of
         Some e \<Rightarrow> return (Inl e)
       | None \<Rightarrow>
           onOk (wrapErr ''failed to create GitHub client''
                   (asResult (external ''github.NewClient'' (githubNewClient E)))) (\<lambda>_.
           onOk (wrapErr ''failed to load GitHub app metadata''
                   (external ''github.Apps.Get'' (githubAppsGet E appID appPrivateKey))) (\<lambda>slug.
           modifyVars (ghAppSlug_update (\<lambda>_. slug)) \<bind> (\<lambda>_.
           return (Inr slug))))))"

definition getUserId :: "'w env \<Rightarrow> string \<Rightarrow> ('w, error + int) prog" where
  "getUserId E username =
     getVars ghUserID \<bind> (\<lambda>userID.
     if userID \<noteq> 0 then return (Inr userID)
     else onOk (wrapErr ''failed to create GitHub client''
                  (asResult (external ''github.NewClient'' (githubNewClient E)))) (\<lambda>_.
          onOk (wrapErr ''failed to get user information''
                  (external ''github.Users.Get'' (githubGetUser E username))) (\<lambda>userID.
          modifyVars (ghUserID_update (\<lambda>_. userID)) \<bind> (\<lambda>_.
          return (Inr userID)))))"

definition github_GetRenovateConfig ::
  "'w env \<Rightarrow> GitHubComponent \<Rightarrow> Secret option \<Rightarrow> string \<Rightarrow> ('w, error + string) prog" where
  "github_GetRenovateConfig E c registrySecret currentBranch =
     onOk (GetRenovateBaseConfig E) (\<lambda>usable.
     onOk (addHostRules E usable registrySecret) (\<lambda>_.
     onOk (getAppSlug E) (\<lambda>appSlug.
     onOk (getUserId E (appSlug @ ''[bot]'')) (\<lambda>botId.
     if \<not> usable then return (Inl nilMapPanic)
     else
       setBaseConfig ''gitAuthor''
         (JStr (appSlug @ '' <'' @ Itoa botId @ ''+'' @ appSlug @ ''[bot]@users.noreply.github.com>'')) \<bind> (\<lambda>_.
       setBaseConfig ''username'' (JStr (appSlug @ ''[bot]'')) \<bind> (\<lambda>_.
       setBaseConfig ''platform'' (JStr (bcPlatform (ghBase c))) \<bind> (\<lambda>_.
       setBaseConfig ''endpoint'' (JStr (github_GetAPIEndpoint c)) \<bind> (\<lambda>_.
       setBaseConfig ''repositories'' (repositoriesJson (bcRepository (ghBase c)) currentBranch) \<bind> (\<lambda>_.
       marshalBaseConfig)))))))))"

definition github_component :: "'w env \<Rightarrow> GitHubComponent \<Rightarrow> 'w GitComponent" where
  "github_component E c =
     \<lparr>GetName = base_GetName (ghBase c), GetNamespace = base_GetNamespace (ghBase c),
      GetApplication = base_GetApplication (ghBase c), GetPlatform = base_GetPlatform (ghBase c),
      GetHost = base_GetHost (ghBase c), GetGitURL = base_GetGitURL (ghBase c),
      GetRepository = base_GetRepository (ghBase c), GetToken = github_GetToken E c,
      GetBranches = github_GetBranches E c, GetAPIEndpoint = github_GetAPIEndpoint c,
      GetRenovateConfig = github_GetRenovateConfig E c,
      GetRPMActivationKey = base_GetRPMActivationKey E (ghBase c)\<rparr>"

section \<open>The methods only read\<close>

lemma quiet_listRepos_loop [quiet_rules]: "quiet (listRepos_loop E n appID i key page repos)"
  by (induction n arbitrary: page repos) (auto intro!: quiet_rules)

lemma quiet_installations_loop [quiet_rules]: "quiet (installations_loop E appID key is acc)"
  by (induction "is" arbitrary: acc) (auto simp: installationOf_def intro!: quiet_rules)

lemma quiet_pages_loop [quiet_rules]: "quiet (pages_loop E n appID key page acc)"
  by (induction n arbitrary: page acc) (auto intro!: quiet_rules)

lemma quiet_fetchAppInstallations [quiet_rules]: "quiet (fetchAppInstallations E appID key)"
  unfolding fetchAppInstallations_def by (intro quiet_rules)

lemma quiet_updateCache [quiet_rules]: "within P (updateCache f)"
  unfolding updateCache_def by (intro quiet_rules)

lemma quiet_refreshCache [quiet_rules]: "quiet (refreshCache E cache)"
  unfolding refreshCache_def by (intro quiet_rules)

lemma quiet_getWithRefresh [quiet_rules]: "quiet (getWithRefresh E cache)"
  unfolding getWithRefresh_def by (intro quiet_rules)

lemma quiet_StaleAllowedCache_Get [quiet_rules]: "quiet (StaleAllowedCache_Get E)" "quiet (settleBackground E)"
  unfolding StaleAllowedCache_Get_def settleBackground_def by (intro quiet_rules)+

lemma quiet_getAppInstallations [quiet_rules]: "quiet (getAppInstallations E c)"
  unfolding getAppInstallations_def by (intro quiet_rules)

lemma quiet_getAppIDAndKey [quiet_rules]: "quiet (getAppIDAndKey E)"
  unfolding getAppIDAndKey_def fetchAppIDAndKey_def by (intro quiet_rules)

lemma quiet_github_NewComponent [quiet_rules]: "quiet (github_NewComponent E component giturl versions old)"
  unfolding github_NewComponent_def by (intro quiet_rules)

lemma quiet_github_GetToken [quiet_rules]: "quiet (github_GetToken E c)"
  unfolding github_GetToken_def getInstallationID_def by (intro quiet_rules)

lemma quiet_github_getClient [quiet_rules]: "quiet (github_getClient E c)"
  unfolding github_getClient_def by (intro quiet_rules)

lemma quiet_github_GetBranches [quiet_rules]: "quiet (github_GetBranches E c)"
  unfolding github_GetBranches_def github_getDefaultBranch_def by (intro quiet_rules)

lemma quiet_getAppSlug [quiet_rules]: "quiet (getAppSlug E)"
  unfolding getAppSlug_def by (intro quiet_rules)

lemma quiet_getUserId [quiet_rules]: "quiet (getUserId E username)"
  unfolding getUserId_def by (intro quiet_rules)

lemma quiet_github_GetRenovateConfig [quiet_rules]: "quiet (github_GetRenovateConfig E c registrySecret branch)"
  unfolding github_GetRenovateConfig_def by (intro quiet_rules)

lemma read_only_github: "read_only (github_component E c)"
  unfolding read_only_def github_component_def
  by (simp add: quiet_github_GetToken quiet_github_GetBranches quiet_github_GetRenovateConfig
      quiet_GetRPMActivationKey)

end
