(* ===== verification/GitComponents.thy ===== *)
theory GitComponents
  imports Forgejo GitHubApp "HOL-Library.Sublist"
begin

text \<open>
  \<open>internal/component/component.go\<close>: the factory that picks the platform of a component, and what
  the three platforms promise through the interface \<open>GitComponent\<close>.
\<close>

section \<open>The factory\<close>

definition component_GetGitURL :: "Component \<Rightarrow> error + string \<times> bool" where
  "component_GetGitURL c =
     (case GitSource c of
        Some src \<Rightarrow>
          if gsURL src \<noteq> [] then Inr (gsURL src, True)
          else if GitURL c \<noteq> [] then Inr (GitURL c, False)
          else Inl (Err (''component '' @ Name (compMeta c) @ '' has no git source or empty URL defined''))
      | None \<Rightarrow>
          if GitURL c \<noteq> [] then Inr (GitURL c, False)
          else Inl (Err (''component '' @ Name (compMeta c) @ '' has no git source or empty URL defined'')))"

definition component_GetVersions :: "Component \<Rightarrow> string list" where
  "component_GetVersions c =
     (case GitSource c of
        Some src \<Rightarrow> if gsRevision src \<noteq> [] then [gsRevision src] else Versions c
      | None \<Rightarrow> Versions c)"

definition NewGitComponent :: "'w env \<Rightarrow> Component \<Rightarrow> ('w, error + 'w GitComponent) prog" where
  "NewGitComponent E c =
     (case component_GetGitURL c of
        Inl e \<Rightarrow> return (Inl e)
      | Inr (gitUrl, oldCRDVersion) \<Rightarrow>
          (case GetGitPlatform (ipLiteral E) gitUrl of
             Inl e \<Rightarrow> return (Inl e)
           | Inr platform \<Rightarrow>
               if platform = ''github'' then
                 onOk (wrapErr ''error creating git component''
                         (github_NewComponent E c gitUrl (component_GetVersions c) oldCRDVersion)) (\<lambda>g.
                 return (Inr (github_component E g)))
               else if platform = ''gitlab'' then
                 onOk (wrapErr ''error creating git component''
                         (return (gitlab_NewComponent E c gitUrl (component_GetVersions c) oldCRDVersion))) (\<lambda>g.
                 return (Inr (gitlab_component E g)))
               else if platform = ''forgejo'' then
                 onOk (wrapErr ''error creating git component''
                         (return (forgejo_NewComponent E c gitUrl (component_GetVersions c) oldCRDVersion))) (\<lambda>g.
                 return (Inr (forgejo_component E g)))
               else return (Inl (Err (''unsupported platform: '' @ platform)))))"

section \<open>The contract of a factory\<close>

text \<open>
  What the controllers rely on: making a component reads the cluster at most, and so do the methods
  of the component made. The controllers take the factory as an argument, as the reconcilers in Go
  do, and their properties are proved once for every factory with this contract.
\<close>

locale git_component_factory =
  fixes newGitComponent :: "Component \<Rightarrow> ('w, error + 'w GitComponent) prog"
  assumes factory_quiet: "quiet (newGitComponent c)"
    and factory_read_only: "emits (newGitComponent c) (\<lambda>ts r. \<forall>g. r = Inr g \<longrightarrow> read_only g)"
begin

lemma factory_emits:
  "emits (newGitComponent c) (\<lambda>ts r. list_all is_read ts \<and> (\<forall>g. r = Inr g \<longrightarrow> read_only g))"
  using emits_conj [OF factory_quiet [unfolded within_def] factory_read_only] .

lemma within_factory:
  assumes "\<And>call. is_read call \<Longrightarrow> P call" "\<And>e. within P (f (Inl e))" "\<And>g. read_only g \<Longrightarrow> within P (f (Inr g))"
  shows "within P (newGitComponent c \<bind> f)"
  unfolding within_def
proof (rule emits_bind [OF factory_emits], elim conjE, goal_cases)
  case (1 ts r)
  have "list_all P ts" using 1(1) assms(1) by (auto simp: list_all_iff)
  moreover have "within P (f r)" using assms(2,3) 1(2) by (cases r) auto
  ultimately show ?case by (auto simp: within_def elim: emits_mono)
qed

end

text \<open>Postconditions of results that do not depend on the calls.\<close>

lemma emits_result_bind:
  assumes "\<And>x. emits (f x) (\<lambda>ts. Q)" "quiet m"
  shows "emits (m \<bind> f) (\<lambda>ts. Q)"
  using assms by (intro emits_bind [OF assms(2) [unfolded within_def]])

lemma emits_result_onOk:
  assumes "quiet m" "\<And>e. Q (Inl e)" "\<And>x. emits (f x) (\<lambda>ts. Q)"
  shows "emits (onOk m f) (\<lambda>ts. Q)"
  by (rule emits_onOk [OF assms(1) [unfolded within_def]]) (use assms in auto)

lemma quiet_NewGitComponent [quiet_rules]: "quiet (NewGitComponent E c)"
  unfolding NewGitComponent_def by (intro quiet_rules)

lemma NewGitComponent_read_only:
  "emits (NewGitComponent E c) (\<lambda>ts r. \<forall>g. r = Inr g \<longrightarrow> read_only g)"
  unfolding NewGitComponent_def
  by (auto split: sum.splits prod.splits
      intro!: emits_return emits_result_onOk quiet_rules
        read_only_github read_only_gitlab read_only_forgejo)

interpretation gc: git_component_factory "NewGitComponent E" for E
  by unfold_locales (rule quiet_NewGitComponent, rule NewGitComponent_read_only)

section \<open>The component a resource describes\<close>

lemma platforms_of_url:
  "GetGitPlatform ipLit url = Inr p \<Longrightarrow> p = ''github'' \<or> p = ''gitlab'' \<or> p = ''forgejo''"
  by (auto simp: GetGitPlatform_def allowedGitPlatforms_def Let_def split: sum.splits if_splits)

definition describes :: "'w env \<Rightarrow> Component \<Rightarrow> 'w GitComponent \<Rightarrow> bool" where
  "describes E c g \<longleftrightarrow>
     (\<exists>url old. component_GetGitURL c = Inr (url, old)
        \<and> GetGitURL g = url
        \<and> GetGitPlatform (ipLiteral E) url = Inr (GetPlatform g)
        \<and> GetGitHost (ipLiteral E) url = Inr (GetHost g)
        \<and> GetGitPath (ipLiteral E) url = Inr (GetRepository g)
        \<and> GetName g = Name (compMeta c) \<and> GetNamespace g = Namespace (compMeta c)
        \<and> GetApplication g = Application c)"

lemma base_describes:
  "gitlab_NewComponent E c url versions old = Inr b \<Longrightarrow> component_GetGitURL c = Inr (url, old)
     \<Longrightarrow> describes E c (gitlab_component E b)"
  "forgejo_NewComponent E c url versions old = Inr b \<Longrightarrow> component_GetGitURL c = Inr (url, old)
     \<Longrightarrow> describes E c (forgejo_component E b)"
  by (auto simp: describes_def gitlab_NewComponent_def gitlab_component_def forgejo_NewComponent_def
      forgejo_component_def split: sum.splits)

lemma github_describes:
  "component_GetGitURL c = Inr (url, old) \<Longrightarrow>
   emits (github_NewComponent E c url versions old)
     (\<lambda>ts r. \<forall>b. r = Inr b \<longrightarrow> describes E c (github_component E b))"
  unfolding github_NewComponent_def
  by (auto intro!: emits_result_onOk emits_return quiet_rules
      simp: describes_def github_component_def split: sum.splits prod.splits)

lemma emits_wrapErr:
  "emits m (\<lambda>ts r. \<forall>x. r = Inr x \<longrightarrow> P x) \<Longrightarrow> emits (wrapErr msg m) (\<lambda>ts r. \<forall>x. r = Inr x \<longrightarrow> P x)"
  unfolding wrapErr_def by (erule emits_bind) (auto intro!: emits_return split: sum.splits)

lemma NewGitComponent_describing:
  "emits (NewGitComponent E c) (\<lambda>ts r. \<forall>g. r = Inr g \<longrightarrow> describes E c g)"
proof (cases "component_GetGitURL c")
  case (Inr p)
  obtain url old where p: "component_GetGitURL c = Inr (url, old)" using Inr by (cases p) auto
  have gh: "emits (onOk (wrapErr msg (github_NewComponent E c url vs old)) (\<lambda>g. return (Inr (github_component E g))))
      (\<lambda>ts r. \<forall>g. r = Inr g \<longrightarrow> describes E c g)" for msg vs
    by (rule emits_onOk [OF emits_wrapErr [OF github_describes [OF p]]]) (auto intro!: emits_return)
  have ret: "emits (onOk (wrapErr msg (return x)) (\<lambda>g. return (Inr (h g)))) (\<lambda>ts r. \<forall>g. r = Inr g \<longrightarrow> describes E c g)"
    if "\<And>b. x = Inr b \<Longrightarrow> describes E c (h b)" for msg and x :: "error + BaseComponent" and h
    by (rule emits_onOk [OF emits_wrapErr [where P = "\<lambda>b. x = Inr b"]]) (auto intro!: emits_return that)
  show ?thesis
    unfolding NewGitComponent_def p
    by (auto split: sum.splits intro!: emits_return gh ret base_describes [OF _ p])
qed (simp add: NewGitComponent_def emits_return)

text \<open>
  C24: a component made by the factory is the one the resource describes: name, namespace and
  application are those of the resource, and platform, host and repository path are exactly what the
  URL parsers yield for its git URL, the old-style \<open>git.url\<close> taking precedence over the new one.
\<close>

theorem NewGitComponent_describes:
  "emits (NewGitComponent E c) (\<lambda>ts r. case r of Inl e \<Rightarrow> True | Inr g \<Rightarrow> describes E c g)"
  by (rule emits_mono [OF NewGitComponent_describing]) (auto split: sum.splits)

section \<open>Branches\<close>

lemma branches_loop_subseq:
  "(\<And>v. quiet (getBranch v)) \<Longrightarrow> emits (branches_loop getBranch versions) (\<lambda>ts bs. subseq bs versions)"
proof (induction versions)
  case (Cons v versions)
  have "emits (branches_loop getBranch versions \<bind> (\<lambda>bs. return (if err = None then v # bs else bs)))
          (\<lambda>ts bs. subseq bs (v # versions))" for err :: "error option"
    by (rule emits_bind [OF Cons.IH [OF Cons.prems]]) (auto intro!: emits_return)
  then show ?case
    by (simp) (rule emits_result_bind [OF _ Cons.prems])
qed (simp add: emits_return)

definition branches_contract :: "BaseComponent \<Rightarrow> error + string list \<Rightarrow> bool" where
  "branches_contract c r \<longleftrightarrow>
     (\<forall>bs. r = Inr bs \<longrightarrow> bs \<noteq> [] \<and>
        (if bcVersions c = [] \<and> bcOldCRDVersion c then length bs = 1 else subseq bs (bcVersions c)))"

lemma branches_contract_Inl [simp]: "branches_contract c (Inl e)"
  by (simp add: branches_contract_def)

lemma branches_tail:
  assumes "\<And>v. quiet (getBranch v)" "\<not> (bcVersions c = [] \<and> bcOldCRDVersion c)"
  shows "emits (branches_loop getBranch (bcVersions c) \<bind> (\<lambda>bs. return (orNoVersions bs)))
           (\<lambda>ts. branches_contract c)"
  by (rule emits_bind [OF branches_loop_subseq [OF assms(1)]])
    (use assms(2) in \<open>auto intro!: emits_return simp: branches_contract_def orNoVersions_def\<close>)

lemma branches_default:
  "bcVersions c = [] \<and> bcOldCRDVersion c \<Longrightarrow> quiet m \<Longrightarrow>
   emits (onOk m (\<lambda>b. return (Inr [b]))) (\<lambda>ts. branches_contract c)"
  by (rule emits_result_onOk) (auto intro!: emits_return simp: branches_contract_def)

lemma gitlab_branches: "emits (gitlab_GetBranches E c) (\<lambda>ts. branches_contract c)"
  unfolding gitlab_GetBranches_def
  by (auto intro!: branches_default emits_result_onOk branches_tail quiet_rules split: prod.splits)

lemma forgejo_branches: "emits (forgejo_GetBranches E c) (\<lambda>ts. branches_contract c)"
  unfolding forgejo_GetBranches_def
  by (auto intro!: branches_default emits_result_onOk branches_tail quiet_rules split: prod.splits)

lemma github_branches: "emits (github_GetBranches E c) (\<lambda>ts. branches_contract (ghBase c))"
  unfolding github_GetBranches_def github_getDefaultBranch_def
  by (auto intro!: branches_default emits_result_onOk branches_tail quiet_rules split: prod.splits)


end
