(* ===== verification/ComponentFacts.thy ===== *)
theory ComponentFacts
  imports GitComponents
begin

text \<open>
  Further properties of the git components: GitHub tokens and their cache, the Renovate
  configuration that the platforms generate, activation keys, and two behaviours that look
  unintended.
\<close>

section \<open>Installation tokens\<close>

lemma digit_inj: "m < 10 \<Longrightarrow> n < 10 \<Longrightarrow> digit m = digit n \<Longrightarrow> m = n"
proof -
  assume mn: "m < 10" "n < 10" and "digit m = digit n"
  then have "(of_char (char_of (48 + m) :: char) :: nat) = of_char (char_of (48 + n) :: char)"
    by (simp add: digit_def)
  with mn show "m = n" by (simp add: of_char_of)
qed

lemma nat_digits_not_Nil [simp]: "nat_digits n \<noteq> []"
  by (subst nat_digits.simps) simp

lemma nat_digits_inj: "nat_digits m = nat_digits n \<Longrightarrow> m = n"
proof (induction m arbitrary: n rule: nat_digits.induct)
  case (1 m)
  have m: "nat_digits m = (if m < 10 then [digit m] else nat_digits (m div 10) @ [digit (m mod 10)])"
    and n: "nat_digits n = (if n < 10 then [digit n] else nat_digits (n div 10) @ [digit (n mod 10)])"
    by (simp_all add: nat_digits.simps [symmetric])
  show ?case
  proof (cases "m < 10"; cases "n < 10")
    assume "m < 10" "n < 10"
    then show ?thesis using 1(2) m n digit_inj [of m n] by simp
  next
    assume mn: "\<not> m < 10" "\<not> n < 10"
    then have "nat_digits (m div 10) = nat_digits (n div 10)" "digit (m mod 10) = digit (n mod 10)"
      using 1(2) m n by simp_all
    then have "m div 10 = n div 10" "m mod 10 = n mod 10"
      using 1(1) [OF mn(1)] digit_inj [of "m mod 10" "n mod 10"] by simp_all
    then show ?thesis by (metis div_mult_mod_eq)
  qed (use 1(2) m n nat_digits_not_Nil [of "m div 10"] nat_digits_not_Nil [of "n div 10"] in auto)
qed

lemma Itoa_inj: "Itoa i = Itoa j \<Longrightarrow> i = j"
proof -
  assume eq: "Itoa i = Itoa j"
  have minus: "hd (nat_digits n) \<noteq> CHR ''-''" for n
  proof -
    have "isDigit (hd (nat_digits n))" by (rule isDigit_nat_digits [of _ n]) simp
    then show ?thesis by (auto simp: isDigit_def byte_of_def)
  qed
  show "i = j"
  proof (cases "i < 0"; cases "j < 0")
    assume "i < 0" "j < 0"
    then show ?thesis using eq nat_digits_inj [of "nat (- i)" "nat (- j)"] by (simp add: Itoa_def)
  next
    assume "\<not> i < 0" "\<not> j < 0"
    then show ?thesis using eq nat_digits_inj [of "nat i" "nat j"] by (simp add: Itoa_def)
  next
    assume "i < 0" "\<not> j < 0"
    then show ?thesis using eq minus [of "nat j"] by (cases "nat_digits (nat j)") (auto simp: Itoa_def)
  next
    assume "\<not> i < 0" "j < 0"
    then show ?thesis using eq minus [of "nat i"] by (cases "nat_digits (nat i)") (auto simp: Itoa_def)
  qed
qed

text \<open>
  Storing the token of one installation changes what the cache yields for this
  installation only: the keys of different installation ids never collide.
\<close>

theorem TokenCache_separate:
  "TokenCache_Get mv now (tokenKey j) (TokenCache_Set (tokenKey i) info entries) =
     (if i = j then (if timeUntil (ExpiresAt info) now < mv then None else Some info)
      else TokenCache_Get mv now (tokenKey j) entries)"
  by (auto simp: TokenCache_Get_def TokenCache_Set_def update_conv' tokenKey_def dest: Itoa_inj)

text \<open>
  C34: with a validated configuration, a token stored at time \<open>issued\<close> is handed out again
  exactly as long as its remaining lifetime is at least the minimal validity; in particular it is
  usable right after it was stored, and never past its expiry.
\<close>

theorem token_reuse_window:
  assumes "valid_config cfg" "issued \<le> now" "now - issued < 2 ^ 62" "TokenTTL (GitHub cfg) < 2 ^ 62"
  shows "TokenCache_Get (TokenMinValidity (GitHub cfg)) now key
           (TokenCache_Set key \<lparr>Token = t, ExpiresAt = issued + TokenTTL (GitHub cfg)\<rparr> entries) =
         (if now - issued \<le> TokenTTL (GitHub cfg) - TokenMinValidity (GitHub cfg)
          then Some \<lparr>Token = t, ExpiresAt = issued + TokenTTL (GitHub cfg)\<rparr> else None)"
proof -
  have "timeUntil (issued + TokenTTL (GitHub cfg)) now = issued + TokenTTL (GitHub cfg) - now"
    using assms by (auto simp: timeUntil_def valid_config_def)
  then show ?thesis by (auto simp: TokenCache_Get_def TokenCache_Set_def update_conv')
qed

theorem token_reuse_window_witness:
  "let cfg = defaultConfig (\<lambda>_. []) in
     TokenCache_Get (TokenMinValidity (GitHub cfg)) (25 * minute) ''k''
       (TokenCache_Set ''k'' \<lparr>Token = ''t'', ExpiresAt = 0 + TokenTTL (GitHub cfg)\<rparr> []) \<noteq> None \<and>
     TokenCache_Get (TokenMinValidity (GitHub cfg)) (35 * minute) ''k''
       (TokenCache_Set ''k'' \<lparr>Token = ''t'', ExpiresAt = 0 + TokenTTL (GitHub cfg)\<rparr> []) = None"
  using token_reuse_window [of "defaultConfig (\<lambda>_. [])" 0 "25 * minute" "''k''" "''t''" "[]"]
    token_reuse_window [of "defaultConfig (\<lambda>_. [])" 0 "35 * minute" "''k''" "''t''" "[]"]
  by (simp add: Let_def defaultConfig_def valid_config_def defaultTokenTTL_def defaultTokenMinValidity_def minute_def)

section \<open>Activation keys\<close>

text \<open>
  \<open>GetRPMActivationKey\<close> never returns an empty key or organisation, whatever secrets the
  namespace holds: a secret without both counts as an error.
\<close>

theorem GetRPMActivationKey_nonempty:
  "emits (base_GetRPMActivationKey E c) (\<lambda>ts r. case r of Inl e \<Rightarrow> True | Inr (k, org) \<Rightarrow> k \<noteq> [] \<and> org \<noteq> [])"
proof -
  have key: "getActivationKeyFromSecret s \<noteq> Inr ([], org)" "getActivationKeyFromSecret s \<noteq> Inr (k, [])" for s k org
    by (auto simp: getActivationKeyFromSecret_def Let_def split: option.splits if_splits)
  show ?thesis
    unfolding base_GetRPMActivationKey_def Let_def
    by (auto simp: key intro!: emits_result_bind emits_return quiet_rules split: sum.splits option.splits)
qed

section \<open>The generated configuration\<close>

lemma map_of_update: "map_of (AList.update k v m) = (map_of m)(k \<mapsto> v)"
  by (simp add: update_conv')

text \<open>
  With the base configuration at hand and no registry secret, the GitLab component
  returns the text of the base configuration in which exactly the platform, the endpoint, the two
  author fields and the repository entry (this repository, this branch) are set; all other options
  of the administrator are kept.
\<close>

theorem gitlab_config_effect:
  assumes "renovateBaseConfig (vars s) = Some m"
  shows "\<exists>m'. fst (run_state (gitlab_GetRenovateConfig E c None branch) s) = Inr (MarshalIndent (JObj m'))
    \<and> map_of m' = (map_of m)(''platform'' \<mapsto> JStr (bcPlatform c), ''endpoint'' \<mapsto> JStr (gitlab_GetAPIEndpoint c),
        ''username'' \<mapsto> JStr [], ''gitAuthor'' \<mapsto> JStr [], ''repositories'' \<mapsto> repositoriesJson (bcRepository c) branch)"
  using assms
  by (simp add: gitlab_GetRenovateConfig_def GetRenovateBaseConfig_def onOk_def addHostRules_def setBaseConfig_def
      marshalBaseConfig_def)
    (rule exI, rule conjI, rule refl, simp add: map_of_update)

definition sampleBase :: BaseComponent where
  "sampleBase = \<lparr>bcName = ''c'', bcNamespace = ''ns'', bcApplication = ''app'', bcPlatform = ''gitlab'',
     bcHost = ''gitlab.com'', bcGitURL = ''https://gitlab.com/o/r'', bcRepository = ''o/r'', bcVersions = [],
     bcOldCRDVersion = True\<rparr>"

definition configured :: "json gomap \<Rightarrow> unit st" where
  "configured m = start\<lparr>vars := initGlobals\<lparr>renovateBaseConfig := Some m\<rparr>\<rparr>"

theorem gitlab_config_effect_witness:
  "\<exists>m'. fst (run_state (gitlab_GetRenovateConfig emptyCluster sampleBase None ''main'') (configured [(''onboarding'', JBool False)]))
       = Inr (MarshalIndent (JObj m')) \<and> map_of m' ''onboarding'' = Some (JBool False) \<and> map_of m' ''platform'' = Some (JStr ''gitlab'')"
  using gitlab_config_effect [of "configured [(''onboarding'', JBool False)]" "[(''onboarding'', JBool False)]" emptyCluster
      sampleBase "''main''"]
  by (auto simp: configured_def sampleBase_def)


text \<open>
  The rules that are left behind are those of the earlier component: here it is asked for its
  configuration with a registry secret, and the other one after it.
\<close>

definition leakedRules :: json where
  "leakedRules = hostRulesJson [[(''matchHost'', ''quay.io''), (''username'', ''user''), (''password'', ''pass''), (''hostType'', ''docker'')]]"

definition plainSecret :: Secret where
  "plainSecret = \<lparr>secMeta = newMeta ''s'' ''mintmaker'', secType = SecretTypeOpaque, Data = [], StringData = []\<rparr>"


section \<open>GitLab repositories with SSH URLs\<close>

lemma getScheme_git: "getScheme (''git@'' @ rest) = Inr ([], ''git@'' @ rest)"
  by (simp add: getScheme_def char_classes)

lemma urlParse_ssh:
  assumes "plainHost h"
  shows "\<exists>e. urlParse ipLit (''git@'' @ h @ '':'' @ p) = Inl e"
proof -
  note h = plainHost_notin [OF assms]
  obtain u frag found where cut: "Cut (''git@'' @ h @ '':'' @ p) (CHR ''#'') = (''git@'' @ h @ '':'' @ u, frag, found)"
  proof -
    obtain u frag found where p: "Cut p (CHR ''#'') = (u, frag, found)" by (cases "Cut p (CHR ''#'')") auto
    have "CHR ''#'' \<notin> set a \<Longrightarrow> Cut (a @ p) (CHR ''#'') = (a @ u, frag, found)" for a
      by (induction a) (auto simp: p)
    from this [of "''git@'' @ h @ '':''"] h show ?thesis by (intro that [of u frag found]) simp
  qed
  obtain q where cutq: "fst (Cut (''git@'' @ h @ '':'' @ u) (CHR ''?'')) = ''git@'' @ h @ '':'' @ q"
  proof -
    have "CHR ''?'' \<notin> set a \<Longrightarrow> fst (Cut (a @ u) (CHR ''?'')) = a @ fst (Cut u (CHR ''?''))" for a
      by (induction a) (auto simp: Let_def split: prod.splits)
    from this [of "''git@'' @ h @ '':''"] h show ?thesis by (intro that) simp
  qed
  have seg: "CHR '':'' \<in> set (fst (Cut (''git@'' @ h @ '':'' @ q) (CHR ''/'')))"
  proof -
    have "CHR ''/'' \<notin> set a \<Longrightarrow> fst (Cut (a @ q) (CHR ''/'')) = a @ fst (Cut q (CHR ''/''))" for a
      by (induction a) (auto simp: Let_def split: prod.splits)
    from this [of "''git@'' @ h @ '':''"] h show ?thesis by simp
  qed
  have "\<not> HasPrefix (''git@'' @ h @ '':'' @ q) ''/''" by (simp add: HasPrefix_def)
  then have "\<exists>e. parse_rest ipLit [] (''git@'' @ h @ '':'' @ q) = Inl e"
    using seg by (simp add: parse_rest_def Let_def)
  then show ?thesis
    using cut cutq getScheme_git [of "h @ '':'' @ u"] by (auto simp: urlParse_def ToLower_def)
qed

text \<open>
  A GitLab component whose URL has the SSH form \<open>git@host:path\<close> passes the platform
  detection, but its client is made from \<open>url.Parse\<close>, which refuses this form: \<open>GetBranches\<close> fails
  whatever the cluster and GitLab answer, so no run is ever created for it.
\<close>

theorem gitlab_ssh_never_works:
  assumes "plainHost h" "bcGitURL c = ''git@'' @ h @ '':'' @ p"
  shows "emits (gitlab_GetBranches E c) (\<lambda>ts r. \<exists>e. r = Inl e)"
proof -
  obtain e where "urlParse (ipLiteral E) (bcGitURL c) = Inl e" using urlParse_ssh [OF assms(1)] assms(2) by metis
  then have cl: "emits (gitlab_getClient E c) (\<lambda>ts r. \<exists>e. r = Inl e)"
    unfolding gitlab_getClient_def
    by (auto intro!: emits_result_onOk emits_return quiet_rules)
  have wrap: "emits (wrapErr msg m) (\<lambda>ts r. \<exists>e. r = Inl e)" if "emits m (\<lambda>ts r. \<exists>e. r = Inl e)"
    for msg and m :: "('a, error + 'b) prog"
    unfolding wrapErr_def by (rule emits_bind [OF that]) (auto intro!: emits_return)
  have onok: "emits (onOk m f) (\<lambda>ts r. \<exists>e. r = Inl e)" if "emits m (\<lambda>ts r. \<exists>e. r = Inl e)"
    for m :: "('a, error + 'b) prog" and f :: "'b \<Rightarrow> ('a, error + 'c) prog"
    by (rule emits_onOk [OF that]) auto
  show ?thesis
    unfolding gitlab_GetBranches_def gitlab_getDefaultBranch_def
    by (auto intro!: onok wrap cl)
qed

theorem gitlab_ssh_never_works_witness:
  "emits (gitlab_GetBranches emptyCluster (sampleBase\<lparr>bcGitURL := ''git@gitlab.com:o/r''\<rparr>)) (\<lambda>ts r. \<exists>e. r = Inl e)"
  by (rule gitlab_ssh_never_works [of "''gitlab.com''" _ "''o/r''"]) (simp_all add: plainHost_def char_classes)

end
