(* ===== verification/Steps.thy ===== *)
theory Steps
  imports Prelude
begin

text \<open>
  Step relations of the concurrent parts: an invariant that every step keeps, and a measure that
  every step lowers. Both contracts are met by the goroutines of the OSV generator and by the callers
  of the installation cache.
\<close>

locale invariant_steps =
  fixes step :: "'s \<Rightarrow> 's \<Rightarrow> bool" and init :: 's and inv :: "'s \<Rightarrow> bool"
  assumes inv_init: "inv init"
    and inv_step: "inv s \<Longrightarrow> step s s' \<Longrightarrow> inv s'"
begin

lemma reachable_inv: "step\<^sup>*\<^sup>* init s \<Longrightarrow> inv s"
  by (induction rule: rtranclp_induct) (auto intro: inv_init inv_step)

end

text \<open>Work that is done by the steps and can be added by others.\<close>

locale bounded_steps =
  fixes step :: "'s \<Rightarrow> 's \<Rightarrow> bool" and work :: "'s \<Rightarrow> nat"
  assumes work_step: "step s s' \<Longrightarrow> work s' < work s"
begin

lemma run_length: "(step ^^ k) s s' \<Longrightarrow> work s' + k \<le> work s"
proof (induction k arbitrary: s')
  case (Suc k)
  then obtain v where "(step ^^ k) s v" "step v s'" by (meson relpowp_Suc_E)
  then show ?case using Suc.IH [of v] work_step [of v s'] by simp
qed simp

lemma no_infinite_run: "\<not> (\<forall>i. step (f i) (f (Suc i)))"
proof
  assume f: "\<forall>i. step (f i) (f (Suc i))"
  have "work (f i) + i \<le> work (f 0)" for i
  proof (induction i)
    case (Suc i)
    then show ?case using work_step [OF spec [OF f, of i]] by linarith
  qed simp
  from this [of "Suc (work (f 0))"] show False by simp
qed

end

end
