(* ===== verification/CacheThreads.thy ===== *)
theory CacheThreads
  imports Steps
begin

text \<open>
  \<open>StaleAllowedCache\<close> of \<open>internal/component/github/cache.go\<close> under concurrent callers. The memory of
  the cache is shared; each goroutine has a program counter that holds its local variables. A step
  is one access to the shared memory or the clock. The fields guarded by the mutex are read and
  written in one step with the lock or unlock next to them; the stores of a refresh into \<open>data\<close> and
  \<open>expiry\<close>, which the mutex does not guard, are steps of their own.
\<close>

section \<open>State\<close>

text \<open>
  The positions of a goroutine, with what it knows: the key, the value loaded, the expiry loaded,
  the channel of the refresh. The flag tells a background refresh from one in a caller.
\<close>

datatype 'v pc =
    Start string
  | Loaded string "'v option"
  | Checking string "'v option" int
  | Locking string
  | Locked string
  | Reloaded string "'v option"
  | Rechecking string "'v option" int
  | Waiting string nat
  | Refreshing bool string nat
  | Storing bool string nat 'v
  | Stored bool nat 'v
  | Renewing bool nat 'v int
  | CleaningUp bool nat "'v option"
  | Closing bool nat "'v option"
  | Done "'v option"

text \<open>
  Channels are numbered as they are made, and \<open>closed\<close> are those that have been closed. \<open>clockNow\<close> is
  the time that \<open>time.Now\<close> shows.
\<close>

record 'v cache =
  cData :: "string \<Rightarrow> 'v option"
  cExpiry :: int
  cMutex :: "nat option"
  inProgress :: bool
  refreshDone :: nat
  nextChannel :: nat
  closed :: "nat set"
  clockNow :: int
  threads :: "'v pc list"

definition NewCache :: "int \<Rightarrow> int \<Rightarrow> 'v cache" where
  "NewCache period now =
     \<lparr>cData = (\<lambda>k. None), cExpiry = now + period, cMutex = None, inProgress = False, refreshDone = 0,
      nextChannel = 0, closed = {}, clockNow = now, threads = []\<rparr>"

abbreviation goto :: "'v cache \<Rightarrow> nat \<Rightarrow> 'v pc \<Rightarrow> 'v cache" where
  "goto s i p \<equiv> s\<lparr>threads := (threads s)[i := p]\<rparr>"

text \<open>What the caller gets; a goroutine in the background returns nothing.\<close>

definition returned :: "bool \<Rightarrow> 'v option \<Rightarrow> 'v option" where
  "returned background r = (if background then None else r)"

section \<open>Steps\<close>

text \<open>
  \<open>fetch v\<close>: the refresh function may return \<open>v\<close>. It may always fail. \<open>move fetch period i p s s'\<close>: the
  goroutine \<open>i\<close>, which is at \<open>p\<close>, makes a step.
\<close>

inductive move :: "('v \<Rightarrow> bool) \<Rightarrow> int \<Rightarrow> nat \<Rightarrow> 'v pc \<Rightarrow> 'v cache \<Rightarrow> 'v cache \<Rightarrow> bool" for fetch period i where
  load: "move fetch period i (Start k) s (goto s i (Loaded k (cData s k)))"
| expiry: "move fetch period i (Loaded k x) s (goto s i (Checking k x (cExpiry s)))"
| fresh: "\<not> clockNow s > e \<Longrightarrow> move fetch period i (Checking k (Some v) e) s (goto s i (Done (Some v)))"
| stale: "x = None \<or> clockNow s > e \<Longrightarrow> move fetch period i (Checking k x e) s (goto s i (Locking k))"
| lock: "cMutex s = None \<Longrightarrow> move fetch period i (Locking k) s (goto (s\<lparr>cMutex := Some i\<rparr>) i (Locked k))"
| join: "inProgress s \<Longrightarrow>
    move fetch period i (Locked k) s (goto (s\<lparr>cMutex := None\<rparr>) i (Waiting k (refreshDone s)))"
| reload: "\<not> inProgress s \<Longrightarrow> move fetch period i (Locked k) s (goto s i (Reloaded k (cData s k)))"
| expiry2: "move fetch period i (Reloaded k x) s (goto s i (Rechecking k x (cExpiry s)))"
| found: "\<not> clockNow s > e \<Longrightarrow>
    move fetch period i (Rechecking k (Some v) e) s (goto (s\<lparr>cMutex := None\<rparr>) i (Done (Some v)))"
| background: "clockNow s > e \<Longrightarrow>
    move fetch period i (Rechecking k (Some v) e) s
      (s\<lparr>cMutex := None, inProgress := True, refreshDone := nextChannel s, nextChannel := Suc (nextChannel s),
         threads := (threads s)[i := Done (Some v)] @ [Refreshing True k (nextChannel s)]\<rparr>)"
| synchronous:
    "move fetch period i (Rechecking k None e) s
      (goto (s\<lparr>cMutex := None, inProgress := True, refreshDone := nextChannel s, nextChannel := Suc (nextChannel s)\<rparr>)
         i (Refreshing False k (nextChannel s)))"
| awake: "ch \<in> closed s \<Longrightarrow> move fetch period i (Waiting k ch) s (goto s i (Done (cData s k)))"
| fetched: "fetch v \<Longrightarrow> move fetch period i (Refreshing b k ch) s (goto s i (Storing b k ch v))"
| failed: "move fetch period i (Refreshing b k ch) s (goto s i (CleaningUp b ch None))"
| store: "move fetch period i (Storing b k ch v) s (goto (s\<lparr>cData := (cData s)(k := Some v)\<rparr>) i (Stored b ch v))"
| renew: "move fetch period i (Stored b ch v) s (goto s i (Renewing b ch v (clockNow s + period)))"
| renewed: "move fetch period i (Renewing b ch v e) s (goto (s\<lparr>cExpiry := e\<rparr>) i (CleaningUp b ch (Some v)))"
| relock: "cMutex s = None \<Longrightarrow>
    move fetch period i (CleaningUp b ch r) s (goto (s\<lparr>cMutex := Some i\<rparr>) i (Closing b ch r))"
| close: "move fetch period i (Closing b ch r) s
      (goto (s\<lparr>inProgress := False, closed := insert ch (closed s), cMutex := None\<rparr>) i (Done (returned b r)))"

definition thread_step :: "('v \<Rightarrow> bool) \<Rightarrow> int \<Rightarrow> 'v cache \<Rightarrow> 'v cache \<Rightarrow> bool" where
  "thread_step fetch period s s' \<longleftrightarrow> (\<exists>i < length (threads s). move fetch period i (threads s ! i) s s')"

text \<open>A new caller of \<open>Get\<close>, and the passing of time.\<close>

inductive outside_step :: "'v cache \<Rightarrow> 'v cache \<Rightarrow> bool" where
  Get: "outside_step s (s\<lparr>threads := threads s @ [Start k]\<rparr>)"
| tick: "clockNow s \<le> t \<Longrightarrow> outside_step s (s\<lparr>clockNow := t\<rparr>)"

definition cache_step :: "('v \<Rightarrow> bool) \<Rightarrow> int \<Rightarrow> 'v cache \<Rightarrow> 'v cache \<Rightarrow> bool" where
  "cache_step fetch period s s' \<longleftrightarrow> thread_step fetch period s s' \<or> outside_step s s'"

section \<open>Roles\<close>

fun holdsLock :: "'v pc \<Rightarrow> bool" where
  "holdsLock (Locked k) = True"
| "holdsLock (Reloaded k x) = True"
| "holdsLock (Rechecking k x e) = True"
| "holdsLock (Closing b ch r) = True"
| "holdsLock p = False"

text \<open>The channel that a goroutine has promised to close.\<close>

fun promised :: "'v pc \<Rightarrow> nat option" where
  "promised (Refreshing b k ch) = Some ch"
| "promised (Storing b k ch v) = Some ch"
| "promised (Stored b ch v) = Some ch"
| "promised (Renewing b ch v e) = Some ch"
| "promised (CleaningUp b ch r) = Some ch"
| "promised (Closing b ch r) = Some ch"
| "promised p = None"

text \<open>What each position knows about the shared state.\<close>

fun local_ok :: "('v \<Rightarrow> bool) \<Rightarrow> 'v cache \<Rightarrow> 'v pc \<Rightarrow> bool" where
  "local_ok fetch s (Loaded k x) = (\<forall>v. x = Some v \<longrightarrow> fetch v)"
| "local_ok fetch s (Checking k x e) = (\<forall>v. x = Some v \<longrightarrow> fetch v)"
| "local_ok fetch s (Reloaded k x) = (\<not> inProgress s \<and> (\<forall>v. x = Some v \<longrightarrow> fetch v))"
| "local_ok fetch s (Rechecking k x e) = (\<not> inProgress s \<and> (\<forall>v. x = Some v \<longrightarrow> fetch v))"
| "local_ok fetch s (Waiting k ch) = (ch \<in> closed s \<or> inProgress s \<and> ch = refreshDone s)"
| "local_ok fetch s (Storing b k ch v) = fetch v"
| "local_ok fetch s (Stored b ch v) = fetch v"
| "local_ok fetch s (Renewing b ch v e) = fetch v"
| "local_ok fetch s (CleaningUp b ch r) = (\<forall>v. r = Some v \<longrightarrow> fetch v)"
| "local_ok fetch s (Closing b ch r) = (\<forall>v. r = Some v \<longrightarrow> fetch v)"
| "local_ok fetch s (Done r) = (\<forall>v. r = Some v \<longrightarrow> fetch v)"
| "local_ok fetch s p = True"

definition promises :: "'v pc list \<Rightarrow> nat list" where
  "promises ps = List.map_filter promised ps"

definition cache_inv :: "('v \<Rightarrow> bool) \<Rightarrow> 'v cache \<Rightarrow> bool" where
  "cache_inv fetch s \<longleftrightarrow>
     (\<forall>j. cMutex s = Some j \<longrightarrow> j < length (threads s)) \<and>
     (\<forall>j < length (threads s). holdsLock (threads s ! j) \<longleftrightarrow> cMutex s = Some j) \<and>
     promises (threads s) = (if inProgress s then [refreshDone s] else []) \<and>
     (inProgress s \<longrightarrow> refreshDone s \<notin> closed s \<and> refreshDone s < nextChannel s) \<and>
     (\<forall>ch \<in> closed s. ch < nextChannel s) \<and>
     (\<forall>j < length (threads s). local_ok fetch s (threads s ! j)) \<and>
     (\<forall>k v. cData s k = Some v \<longrightarrow> fetch v)"

section \<open>The invariant\<close>

lemma promises_simps [simp]:
  "promises [] = []"
  "promises (p # ps) = (case promised p of None \<Rightarrow> promises ps | Some ch \<Rightarrow> ch # promises ps)"
  "promises (ps @ qs) = promises ps @ promises qs"
  by (simp_all add: promises_def List.map_filter_def split: option.splits)

lemma promises_at:
  "i < length ps \<Longrightarrow> promises ps =
     promises (take i ps) @ (case promised (ps ! i) of None \<Rightarrow> [] | Some ch \<Rightarrow> [ch]) @ promises (drop (Suc i) ps)"
  by (subst id_take_nth_drop) (auto split: option.splits)

lemma promises_update:
  "i < length ps \<Longrightarrow> promises (ps[i := p]) =
     promises (take i ps) @ (case promised p of None \<Rightarrow> [] | Some ch \<Rightarrow> [ch]) @ promises (drop (Suc i) ps)"
  by (auto simp: upd_conv_take_nth_drop split: option.splits)

lemma promises_same: "i < length ps \<Longrightarrow> promised p = promised (ps ! i) \<Longrightarrow> promises (ps[i := p]) = promises ps"
  by (simp add: promises_update promises_at [of i ps])

lemma local_ok_cong:
  "inProgress s' = inProgress s \<Longrightarrow> refreshDone s' = refreshDone s \<Longrightarrow> closed s' = closed s \<Longrightarrow>
   local_ok fetch s' p = local_ok fetch s p"
  by (cases p) simp_all

lemma local_ok_record [simp]:
  "local_ok fetch (s\<lparr>threads := ts\<rparr>) p = local_ok fetch s p"
  "local_ok fetch (s\<lparr>cMutex := m\<rparr>) p = local_ok fetch s p"
  "local_ok fetch (s\<lparr>cMutex := m, threads := ts\<rparr>) p = local_ok fetch s p"
  "local_ok fetch (s\<lparr>cData := d\<rparr>) p = local_ok fetch s p"
  "local_ok fetch (s\<lparr>cExpiry := x\<rparr>) p = local_ok fetch s p"
  "local_ok fetch (s\<lparr>clockNow := x\<rparr>) p = local_ok fetch s p"
  by (rule local_ok_cong; simp)+

lemma inv_memory:
  "cache_inv fetch s \<Longrightarrow> fetch v \<Longrightarrow> cache_inv fetch (s\<lparr>cData := (cData s)(k := Some v)\<rparr>)"
  "cache_inv fetch s \<Longrightarrow> cache_inv fetch (s\<lparr>cExpiry := e\<rparr>)"
  "cache_inv fetch s \<Longrightarrow> cache_inv fetch (s\<lparr>clockNow := e\<rparr>)"
  by (simp_all add: cache_inv_def)

lemma inv_keep:
  assumes "cache_inv fetch s" "i < length (threads s)" "holdsLock p = holdsLock (threads s ! i)"
    "promised p = promised (threads s ! i)" "local_ok fetch s p"
  shows "cache_inv fetch (goto s i p)"
  using assms by (simp add: cache_inv_def nth_list_update promises_same)

lemma inv_lock:
  assumes "cache_inv fetch s" "i < length (threads s)" "cMutex s = None" "holdsLock p"
    "promised p = promised (threads s ! i)" "local_ok fetch s p"
  shows "cache_inv fetch (goto (s\<lparr>cMutex := Some i\<rparr>) i p)"
  using assms by (simp add: cache_inv_def nth_list_update promises_same)

lemma inv_unlock:
  assumes "cache_inv fetch s" "i < length (threads s)" "holdsLock (threads s ! i)" "\<not> holdsLock p"
    "promised p = promised (threads s ! i)" "local_ok fetch s p"
  shows "cache_inv fetch (goto (s\<lparr>cMutex := None\<rparr>) i p)"
  using assms by (simp add: cache_inv_def nth_list_update promises_same)

text \<open>A refresh begins: the goroutine that holds the lock is the only one that could know of none.\<close>

lemma inv_begin:
  assumes "cache_inv fetch s" "i < length (threads s)" "threads s ! i = Rechecking k x e"
    "promises (p # qs) = [nextChannel s]" "\<not> holdsLock p" "\<forall>q \<in> set qs. \<not> holdsLock q"
    "\<forall>q \<in> set (p # qs). local_ok fetch s q \<and> (\<forall>k ch. q \<noteq> Waiting k ch)"
  shows "cache_inv fetch (s\<lparr>cMutex := None, inProgress := True, refreshDone := nextChannel s,
    nextChannel := Suc (nextChannel s), threads := (threads s)[i := p] @ qs\<rparr>)"
proof -
  let ?s = "s\<lparr>cMutex := None, inProgress := True, refreshDone := nextChannel s,
    nextChannel := Suc (nextChannel s), threads := (threads s)[i := p] @ qs\<rparr>"
  have lock: "cMutex s = Some i" and idle: "\<not> inProgress s"
    using assms(1-3) unfolding cache_inv_def by (metis holdsLock.simps(3), metis local_ok.simps(4))
  then have old: "promises (threads s) = []" using assms(1) by (simp add: cache_inv_def)
  have others: "\<not> holdsLock (threads s ! j) \<and> local_ok fetch ?s (threads s ! j)" if "j < length (threads s)" "j \<noteq> i" for j
  proof -
    have "\<not> holdsLock (threads s ! j)" "local_ok fetch s (threads s ! j)"
      using that assms(1) lock unfolding cache_inv_def by auto
    then show ?thesis using idle by (cases "threads s ! j") auto
  qed
  have new: "local_ok fetch ?s q" if "q \<in> set (p # qs)" for q
  proof -
    have "\<not> holdsLock q" "local_ok fetch s q" "\<forall>k ch. q \<noteq> Waiting k ch" using that assms(5-7) by auto
    then show ?thesis by (cases q) simp_all
  qed
  have "promises ((threads s)[i := p] @ qs) = [nextChannel s]"
    using old assms(2-4) promises_at [of i "threads s"] by (auto simp: promises_update split: option.splits)
  moreover have "\<not> holdsLock (threads ?s ! j) \<and> local_ok fetch ?s (threads ?s ! j)" if "j < length (threads ?s)" for j
    using that others [of j] new assms(2,5,6) by (auto simp: nth_append nth_list_update)
  ultimately show ?thesis
    using assms(1) by (auto simp: cache_inv_def)
qed

lemma inv_close:
  assumes "cache_inv fetch s" "i < length (threads s)" "threads s ! i = Closing b ch r"
  shows "cache_inv fetch (goto (s\<lparr>inProgress := False, closed := insert ch (closed s), cMutex := None\<rparr>) i (Done (returned b r)))"
proof -
  let ?s = "goto (s\<lparr>inProgress := False, closed := insert ch (closed s), cMutex := None\<rparr>) i (Done (returned b r))"
  have lock: "cMutex s = Some i" using assms unfolding cache_inv_def by (metis holdsLock.simps(4))
  have p: "inProgress s" "refreshDone s = ch" "promises (take i (threads s)) = []" "promises (drop (Suc i) (threads s)) = []"
    using assms promises_at [of i "threads s"] by (auto simp: cache_inv_def append_eq_Cons_conv split: if_splits)
  have "local_ok fetch s (Closing b ch r)" using assms unfolding cache_inv_def by metis
  then have "local_ok fetch ?s (Done (returned b r))" by (simp add: returned_def)
  moreover have "\<not> holdsLock (threads s ! j) \<and> local_ok fetch ?s (threads s ! j)" if "j < length (threads s)" "j \<noteq> i" for j
  proof -
    have "\<not> holdsLock (threads s ! j)" "local_ok fetch s (threads s ! j)"
      using that assms(1) lock unfolding cache_inv_def by auto
    then show ?thesis using p by (cases "threads s ! j") auto
  qed
  ultimately show ?thesis
    using assms(1,2) p by (auto simp: cache_inv_def nth_list_update promises_update)
qed

lemma inv_move:
  assumes "move fetch period i p s s'" "threads s ! i = p" "i < length (threads s)" "cache_inv fetch s"
  shows "cache_inv fetch s'"
proof -
  have ok: "local_ok fetch s p" using assms(2-4) unfolding cache_inv_def by blast
  have fetched: "fetch v" if "cData s k = Some v" for k v using that assms(4) unfolding cache_inv_def by blast
  note at = assms(2-4)
  show ?thesis
    using assms(1)
  proof cases
    case (lock k)
    show ?thesis unfolding lock(2) by (rule inv_lock) (use lock at ok in simp_all)
  next
    case (relock b ch r)
    show ?thesis unfolding relock(2) by (rule inv_lock) (use relock at ok in simp_all)
  next
    case (join k)
    show ?thesis unfolding join(2) by (rule inv_unlock) (use join at ok in simp_all)
  next
    case (found e k v)
    show ?thesis unfolding found(2) by (rule inv_unlock) (use found at ok in simp_all)
  next
    case (background e k v)
    show ?thesis unfolding background(2) by (rule inv_begin [where k = k and x = "Some v" and e = e]) (use background at ok in auto)
  next
    case (synchronous k e)
    show ?thesis unfolding synchronous(2)
      using inv_begin [of fetch s i k None e "Refreshing False k (nextChannel s)" "[]"] synchronous at by auto
  next
    case (store b k ch v)
    show ?thesis unfolding store(2)
      using inv_keep [OF inv_memory(1) [OF assms(4), of v k], of i "Stored b ch v"] store at ok by simp
  next
    case (renewed b ch v e)
    show ?thesis unfolding renewed(2)
      using inv_keep [OF inv_memory(2) [OF assms(4), of e], of i "CleaningUp b ch (Some v)"] renewed at ok by simp
  next
    case (close b ch r)
    show ?thesis unfolding close(2) by (rule inv_close) (use close at in simp_all)
  next
    case (load k)
    show ?thesis unfolding load(2) by (rule inv_keep) (use load at fetched in simp_all)
  next
    case (expiry k x)
    show ?thesis unfolding expiry(2) by (rule inv_keep) (use expiry at ok in simp_all)
  next
    case (fresh e k v)
    show ?thesis unfolding fresh(2) by (rule inv_keep) (use fresh at ok in simp_all)
  next
    case (stale x e k)
    show ?thesis unfolding stale(2) by (rule inv_keep) (use stale at ok in simp_all)
  next
    case (reload k)
    show ?thesis unfolding reload(2) by (rule inv_keep) (use reload at fetched in simp_all)
  next
    case (expiry2 k x)
    show ?thesis unfolding expiry2(2) by (rule inv_keep) (use expiry2 at ok in simp_all)
  next
    case (awake ch k)
    show ?thesis unfolding awake(2) by (rule inv_keep) (use awake at fetched in simp_all)
  next
    case (fetched v b k ch)
    show ?thesis unfolding fetched(2) by (rule inv_keep) (use fetched at in simp_all)
  next
    case (failed b k ch)
    show ?thesis unfolding failed(2) by (rule inv_keep) (use failed at in simp_all)
  next
    case (renew b ch v)
    show ?thesis unfolding renew(2) by (rule inv_keep) (use renew at ok in simp_all)
  qed
qed

lemma inv_outside:
  assumes "outside_step s s'" "cache_inv fetch s"
  shows "cache_inv fetch s'"
  using assms
proof cases
  case (Get k)
  then show ?thesis using assms(2) by (auto simp: cache_inv_def nth_append less_Suc_eq)
qed (use assms in \<open>simp add: inv_memory\<close>)

interpretation cache: invariant_steps "cache_step fetch period" "NewCache period now" "cache_inv fetch"
  for fetch period now
  by unfold_locales
    (auto simp: cache_step_def thread_step_def intro: inv_outside inv_move, simp add: cache_inv_def NewCache_def)


section \<open>Running a schedule\<close>

text \<open>
  The step of goroutine \<open>i\<close> as a function; \<open>r\<close> is what the refresh function returns if it is called.
\<close>

fun nextState :: "'v option \<Rightarrow> int \<Rightarrow> nat \<Rightarrow> 'v pc \<Rightarrow> 'v cache \<Rightarrow> 'v cache option" where
  "nextState r period i (Start k) s = Some (goto s i (Loaded k (cData s k)))"
| "nextState r period i (Loaded k x) s = Some (goto s i (Checking k x (cExpiry s)))"
| "nextState r period i (Checking k x e) s =
     Some (goto s i (if x = None \<or> clockNow s > e then Locking k else Done x))"
| "nextState r period i (Locking k) s =
     (if cMutex s = None then Some (goto (s\<lparr>cMutex := Some i\<rparr>) i (Locked k)) else None)"
| "nextState r period i (Locked k) s =
     Some (if inProgress s then goto (s\<lparr>cMutex := None\<rparr>) i (Waiting k (refreshDone s))
           else goto s i (Reloaded k (cData s k)))"
| "nextState r period i (Reloaded k x) s = Some (goto s i (Rechecking k x (cExpiry s)))"
| "nextState r period i (Rechecking k x e) s =
     Some (if x \<noteq> None \<and> \<not> clockNow s > e then goto (s\<lparr>cMutex := None\<rparr>) i (Done x)
           else s\<lparr>cMutex := None, inProgress := True, refreshDone := nextChannel s, nextChannel := Suc (nextChannel s),
                   threads := (if x = None then (threads s)[i := Refreshing False k (nextChannel s)]
                               else (threads s)[i := Done x] @ [Refreshing True k (nextChannel s)])\<rparr>)"
| "nextState r period i (Waiting k ch) s = (if ch \<in> closed s then Some (goto s i (Done (cData s k))) else None)"
| "nextState r period i (Refreshing b k ch) s =
     Some (goto s i (case r of None \<Rightarrow> CleaningUp b ch None | Some v \<Rightarrow> Storing b k ch v))"
| "nextState r period i (Storing b k ch v) s =
     Some (goto (s\<lparr>cData := (cData s)(k := Some v)\<rparr>) i (Stored b ch v))"
| "nextState r period i (Stored b ch v) s = Some (goto s i (Renewing b ch v (clockNow s + period)))"
| "nextState r period i (Renewing b ch v e) s = Some (goto (s\<lparr>cExpiry := e\<rparr>) i (CleaningUp b ch (Some v)))"
| "nextState r period i (CleaningUp b ch x) s =
     (if cMutex s = None then Some (goto (s\<lparr>cMutex := Some i\<rparr>) i (Closing b ch x)) else None)"
| "nextState r period i (Closing b ch x) s =
     Some (goto (s\<lparr>inProgress := False, closed := insert ch (closed s), cMutex := None\<rparr>) i (Done (returned b x)))"
| "nextState r period i (Done x) s = None"

inductive_simps move_simps:
  "move fetch period i (Start k) s s'"
  "move fetch period i (Loaded k x) s s'"
  "move fetch period i (Checking k x e) s s'"
  "move fetch period i (Locking k) s s'"
  "move fetch period i (Locked k) s s'"
  "move fetch period i (Reloaded k x) s s'"
  "move fetch period i (Rechecking k x e) s s'"
  "move fetch period i (Waiting k ch) s s'"
  "move fetch period i (Refreshing b k ch) s s'"
  "move fetch period i (Storing b k ch v) s s'"
  "move fetch period i (Stored b ch v) s s'"
  "move fetch period i (Renewing b ch v e) s s'"
  "move fetch period i (CleaningUp b ch r) s s'"
  "move fetch period i (Closing b ch r) s s'"
  "move fetch period i (Done r) s s'"

lemma move_iff:
  "move fetch period i p s s' \<longleftrightarrow> (\<exists>r. (\<forall>v. r = Some v \<longrightarrow> fetch v) \<and> nextState r period i p s = Some s')"
proof (cases p)
  case (Refreshing b k ch)
  have h: "(\<exists>r. (\<forall>v. r = Some v \<longrightarrow> fetch v) \<and> nextState r period i p s = Some s') \<longleftrightarrow>
      nextState None period i p s = Some s' \<or> (\<exists>v. fetch v \<and> nextState (Some v) period i p s = Some s')"
    by (metis option.exhaust option.inject option.distinct(1))
  show ?thesis by (simp only: h) (auto simp: Refreshing move_simps)
qed (auto simp: move_simps intro!: exI [of _ None])

datatype 'v event = Call string | Wait int | Go nat "'v option"

fun play :: "int \<Rightarrow> 'v event list \<Rightarrow> 'v cache \<Rightarrow> 'v cache option" where
  "play period [] s = Some s"
| "play period (Call k # es) s = play period es (s\<lparr>threads := threads s @ [Start k]\<rparr>)"
| "play period (Wait d # es) s = (if d < 0 then None else play period es (s\<lparr>clockNow := clockNow s + d\<rparr>))"
| "play period (Go i r # es) s =
     (if i < length (threads s) then Option.bind (nextState r period i (threads s ! i) s) (play period es) else None)"

fun returns :: "'v event \<Rightarrow> 'v set" where
  "returns (Go i (Some v)) = {v}"
| "returns e = {}"

lemma play_reachable:
  "play period es s = Some s' \<Longrightarrow> \<forall>e \<in> set es. \<forall>v \<in> returns e. fetch v \<Longrightarrow> (cache_step fetch period)\<^sup>*\<^sup>* s s'"
proof (induction period es s rule: play.induct)
  case (2 period k es s)
  show ?case
  proof -
    have "cache_step fetch period s (s\<lparr>threads := threads s @ [Start k]\<rparr>)" by (auto simp: cache_step_def outside_step.simps)
    then show ?thesis using 2 by (auto intro: converse_rtranclp_into_rtranclp)
  qed
next
  case (3 period d es s)
  have "outside_step s (s\<lparr>clockNow := clockNow s + d\<rparr>)" if "\<not> d < 0" using that by (intro outside_step.tick) simp
  then have "cache_step fetch period s (s\<lparr>clockNow := clockNow s + d\<rparr>)" if "\<not> d < 0" using that by (simp add: cache_step_def)
  then show ?case using 3 by (auto intro: converse_rtranclp_into_rtranclp split: if_splits)
next
  case (4 period i r es s)
  then obtain t where t: "i < length (threads s)" "nextState r period i (threads s ! i) s = Some t" "play period es t = Some s'"
    by (auto simp: bind_eq_Some_conv split: if_splits)
  have "\<forall>v. r = Some v \<longrightarrow> fetch v" using 4(3) by auto
  then have "cache_step fetch period s t"
    using t by (auto simp: cache_step_def thread_step_def move_iff)
  then show ?case using 4 t by (auto intro: converse_rtranclp_into_rtranclp)
qed simp


end
