(* ===== verification/CacheFacts.thy ===== *)
theory CacheFacts
  imports CacheThreads
begin

text \<open>
  Properties of the cache under concurrent callers: safety, progress, a bound on the steps of all
  calls, and what happens to a caller that comes while a refresh is going on.
\<close>

section \<open>Properties\<close>

fun isDone :: "'v pc \<Rightarrow> bool" where
  "isDone (Done r) = True"
| "isDone p = False"

lemma length_promises: "length (promises ps) = length (filter (\<lambda>p. promised p \<noteq> None) ps)"
  by (induction ps) (auto split: option.splits)

lemma promised_in: "ch \<in> set (promises ps) \<longleftrightarrow> (\<exists>p \<in> set ps. promised p = Some ch)"
  by (induction ps) (auto split: option.splits)

text \<open>
  C9: in every state that callers of one cache can reach together, at most one refresh is
  going on and at most one goroutine is inside the mutex; a channel that is about to be closed has
  not been closed before, so the close does not panic; and what any caller has been given came from
  the refresh function.
\<close>

theorem cache_safe:
  assumes "(cache_step fetch period)\<^sup>*\<^sup>* (NewCache period now) s"
  shows "length (filter (\<lambda>p. promised p \<noteq> None) (threads s)) \<le> 1 \<and>
    length (filter holdsLock (threads s)) \<le> 1 \<and>
    (\<forall>b ch r. Closing b ch r \<in> set (threads s) \<longrightarrow> ch \<notin> closed s) \<and>
    (\<forall>v. Done (Some v) \<in> set (threads s) \<longrightarrow> fetch v)"
proof (intro conjI allI impI)
  have inv: "cache_inv fetch s" using cache.reachable_inv [OF assms] .
  then have p: "promises (threads s) = (if inProgress s then [refreshDone s] else [])" by (simp add: cache_inv_def)
  then have "length (promises (threads s)) \<le> 1" by simp
  then show "length (filter (\<lambda>p. promised p \<noteq> None) (threads s)) \<le> 1" unfolding length_promises .
  have "{j. j < length (threads s) \<and> holdsLock (threads s ! j)} \<subseteq> set_option (cMutex s)"
    using inv by (auto simp: cache_inv_def)
  then have "card {j. j < length (threads s) \<and> holdsLock (threads s ! j)} \<le> card (set_option (cMutex s))"
    by (intro card_mono) simp_all
  also have "\<dots> \<le> 1" by (cases "cMutex s") simp_all
  finally show "length (filter holdsLock (threads s)) \<le> 1" by (simp add: length_filter_conv_card)
  show "ch \<notin> closed s" if "Closing b ch r \<in> set (threads s)" for b ch r
  proof -
    have "ch \<in> set (promises (threads s))" using that unfolding promised_in by force
    then show ?thesis using p inv by (auto simp: cache_inv_def split: if_splits)
  qed
  show "fetch v" if "Done (Some v) \<in> set (threads s)" for v
    using that inv unfolding cache_inv_def in_set_conv_nth by (metis local_ok.simps(11))
qed

lemma thread_enabled:
  assumes "cache_inv fetch s" "i < length (threads s)" "\<not> isDone (threads s ! i)"
    "cMutex s = None \<or> holdsLock (threads s ! i)" "\<forall>k ch. threads s ! i = Waiting k ch \<longrightarrow> ch \<in> closed s"
  shows "\<exists>s'. thread_step fetch period s s'"
proof -
  have "\<exists>s'. nextState None period i (threads s ! i) s = Some s'"
    using assms(3-5) by (cases "threads s ! i") auto
  then show ?thesis using assms(2) by (auto simp: thread_step_def move_iff)
qed

text \<open>
  C10: callers never block each other for ever: as long as some goroutine has not returned,
  some goroutine can make a step.
\<close>

theorem cache_progress:
  assumes "(cache_step fetch period)\<^sup>*\<^sup>* (NewCache period now) s" "\<not> list_all isDone (threads s)"
  shows "\<exists>s'. thread_step fetch period s s'"
proof -
  have inv: "cache_inv fetch s" using cache.reachable_inv [OF assms(1)] .
  obtain i where i: "i < length (threads s)" "\<not> isDone (threads s ! i)"
    using assms(2) by (auto simp: list_all_length)
  show ?thesis
  proof (cases "cMutex s")
    case (Some j)
    then have j: "j < length (threads s)" "holdsLock (threads s ! j)" using inv by (auto simp: cache_inv_def)
    then show ?thesis using inv by (intro thread_enabled [of fetch s j]) (cases "threads s ! j"; simp)+
  next
    case None
    show ?thesis
    proof (cases "\<exists>k ch. threads s ! i = Waiting k ch \<and> ch \<notin> closed s")
      case False
      then show ?thesis using inv i None by (intro thread_enabled [of fetch s i]) auto
    next
      case True
      then have "inProgress s" using inv i unfolding cache_inv_def by (metis local_ok.simps(5))
      then have "refreshDone s \<in> set (promises (threads s))" using inv by (simp add: cache_inv_def)
      then obtain p where "p \<in> set (threads s)" "promised p = Some (refreshDone s)" unfolding promised_in by blast
      then obtain j where j: "j < length (threads s)" "promised (threads s ! j) = Some (refreshDone s)"
        by (auto simp: in_set_conv_nth)
      then show ?thesis using inv None by (intro thread_enabled [of fetch s j]) (cases "threads s ! j"; simp)+
    qed
  qed
qed

section \<open>Every call returns\<close>

fun stepsTo :: "'v pc \<Rightarrow> nat" where
  "stepsTo (Start k) = 13"
| "stepsTo (Loaded k x) = 12"
| "stepsTo (Checking k x e) = 11"
| "stepsTo (Locking k) = 10"
| "stepsTo (Locked k) = 9"
| "stepsTo (Reloaded k x) = 8"
| "stepsTo (Rechecking k x e) = 7"
| "stepsTo (Waiting k ch) = 1"
| "stepsTo (Refreshing b k ch) = 6"
| "stepsTo (Storing b k ch v) = 5"
| "stepsTo (Stored b ch v) = 4"
| "stepsTo (Renewing b ch v e) = 3"
| "stepsTo (CleaningUp b ch r) = 2"
| "stepsTo (Closing b ch r) = 1"
| "stepsTo (Done r) = 0"

definition cacheWork :: "'v cache \<Rightarrow> nat" where
  "cacheWork s = sum_list (map stepsTo (threads s))"

lemma cacheWork_step: "thread_step fetch period s s' \<Longrightarrow> cacheWork s' < cacheWork s"
proof -
  assume "thread_step fetch period s s'"
  then obtain i r where i: "i < length (threads s)" "nextState r period i (threads s ! i) s = Some s'"
    by (auto simp: thread_step_def move_iff)
  have "stepsTo (threads s ! i) \<le> sum_list (map stepsTo (threads s))"
    using elem_le_sum_list [of i "map stepsTo (threads s)"] i(1) by simp
  then show ?thesis
    using i by (cases "threads s ! i") (auto simp: cacheWork_def map_update sum_list_update split: if_splits option.splits)
qed

interpretation cacheRuns: bounded_steps "thread_step fetch period" cacheWork for fetch period
  by unfold_locales (rule cacheWork_step)

lemma cache_terminates: "\<not> (\<forall>i. thread_step fetch period (f i) (f (Suc i)))"
  by (rule cacheRuns.no_infinite_run)

text \<open>Runs with the number of calls of \<open>Get\<close> and of steps of goroutines so far.\<close>

inductive history :: "('v \<Rightarrow> bool) \<Rightarrow> int \<Rightarrow> nat \<Rightarrow> nat \<Rightarrow> 'v cache \<Rightarrow> 'v cache \<Rightarrow> bool" for fetch period where
  none: "history fetch period 0 0 s s"
| step: "history fetch period calls steps s t \<Longrightarrow> thread_step fetch period t u \<Longrightarrow>
    history fetch period calls (Suc steps) s u"
| call: "history fetch period calls steps s t \<Longrightarrow>
    history fetch period (Suc calls) steps s (t\<lparr>threads := threads t @ [Start k]\<rparr>)"
| time: "history fetch period calls steps s t \<Longrightarrow> clockNow t \<le> n \<Longrightarrow>
    history fetch period calls steps s (t\<lparr>clockNow := n\<rparr>)"


section \<open>Concrete runs\<close>

text \<open>One caller fetches the value 7; one step after its expiry another call of \<open>Get\<close> finds it stale.\<close>

definition firstGet :: "int event list" where
  "firstGet = Call ''installations'' # replicate 7 (Go 0 None) @ [Go 0 (Some 7)] @ replicate 5 (Go 0 None)"

definition lateGet :: "int event list" where
  "lateGet = firstGet @ [Wait 101, Call ''installations''] @ replicate 7 (Go 1 None)"

definition joinedGet :: "int event list" where
  "joinedGet = lateGet @ Call ''installations'' # replicate 4 (Go 3 None)"

definition joined :: "int cache" where
  "joined =
     \<lparr>cData = (\<lambda>k. None)(''installations'' := Some 7), cExpiry = 100, cMutex = Some 3, inProgress = True, refreshDone = 1,
      nextChannel = 2, closed = {0}, clockNow = 101,
      threads = [Done (Some 7), Done (Some 7), Refreshing True ''installations'' 1, Locked ''installations'']\<rparr>"

lemma play_joined: "play 100 joinedGet (NewCache 100 0) = Some joined"
  by (simp add: joined_def joinedGet_def lateGet_def firstGet_def NewCache_def returned_def numeral_eq_Suc)

lemma reach_joined: "(cache_step (\<lambda>v. v = 7) 100)\<^sup>*\<^sup>* (NewCache 100 0) joined"
  by (rule play_reachable [OF play_joined]) (auto simp: joinedGet_def lateGet_def firstGet_def)

theorem cache_safe_witness:
  "length (filter (\<lambda>p. promised p \<noteq> None) (threads joined)) \<le> 1"
  using cache_safe [OF reach_joined] by blast

theorem cache_progress_witness: "\<exists>s'. thread_step (\<lambda>v. v = 7) 100 joined s'"
  by (rule cache_progress [OF reach_joined]) (simp add: joined_def)

lemma history_load:
  "history (\<lambda>v. v = 7) 100 (Suc 0) (Suc 0) (NewCache 100 0) ((NewCache 100 0)\<lparr>threads := [Loaded ''installations'' (None :: int option)]\<rparr>)"
proof -
  have "history (\<lambda>v. v = 7) 100 (Suc 0) 0 (NewCache 100 0 :: int cache)
      ((NewCache 100 0)\<lparr>threads := threads (NewCache 100 0 :: int cache) @ [Start ''installations'']\<rparr>)"
    by (rule history.call [OF history.none])
  then show ?thesis
    by (rule history.step) (simp add: thread_step_def NewCache_def move_simps)
qed


section \<open>A caller that comes during a refresh\<close>

text \<open>
  A caller that enters the mutex while a refresh is going on can only wait for this
  refresh, also when the cache has data: it is not served stale data. Until the channel of the
  refresh is closed it cannot move.
\<close>

theorem refresh_blocks_callers:
  assumes "(cache_step fetch period)\<^sup>*\<^sup>* (NewCache period now) s" "i < length (threads s)" "threads s ! i = Locked k"
    "inProgress s" "move fetch period i (Locked k) s s'"
  shows "threads s' ! i = Waiting k (refreshDone s) \<and> (\<nexists>s''. move fetch period i (threads s' ! i) s' s'')"
proof -
  have "refreshDone s \<notin> closed s" using cache.reachable_inv [OF assms(1)] assms(4) by (simp add: cache_inv_def)
  moreover have "s' = goto (s\<lparr>cMutex := None\<rparr>) i (Waiting k (refreshDone s))" using assms(4,5) by (simp add: move_simps)
  ultimately show ?thesis using assms(2) by (simp add: move_simps)
qed

definition waitingCaller :: "int cache" where
  "waitingCaller = goto (joined\<lparr>cMutex := None\<rparr>) 3 (Waiting ''installations'' 1)"

theorem refresh_blocks_callers_witness:
  "cData joined ''installations'' = Some 7 \<and> cData waitingCaller ''installations'' = Some 7 \<and>
   (\<nexists>s''. move (\<lambda>v. v = 7) 100 3 (threads waitingCaller ! 3) waitingCaller s'')"
  using refresh_blocks_callers [OF reach_joined, of 3 "''installations''" waitingCaller]
  by (simp add: joined_def waitingCaller_def move_simps)

section \<open>A caller on its own\<close>

text \<open>The steps of a call when no other goroutine moves; \<open>r\<close> is what the refresh function returns.\<close>

definition refreshing :: "nat \<Rightarrow> 'v option \<Rightarrow> 'v event list" where
  "refreshing i r = Go i r # replicate (if r = None then 2 else 5) (Go i None)"

definition callAlone :: "'v cache \<Rightarrow> string \<Rightarrow> 'v option \<Rightarrow> 'v event list" where
  "callAlone s k r =
     (let i = length (threads s) in
      Call k #
        (case cData s k of
           None \<Rightarrow> replicate 7 (Go i None) @ refreshing i r
         | Some v \<Rightarrow>
             if clockNow s > cExpiry s then replicate 7 (Go i None) @ refreshing (Suc i) r
             else replicate 3 (Go i None)))"

definition undisturbed :: "'v cache \<Rightarrow> bool" where
  "undisturbed s \<longleftrightarrow> cMutex s = None \<and> \<not> inProgress s"

text \<open>What a refresh leaves behind.\<close>

definition refreshed :: "int \<Rightarrow> string \<Rightarrow> 'v option \<Rightarrow> 'v cache \<Rightarrow> 'v cache" where
  "refreshed period k r s =
     (case r of None \<Rightarrow> s | Some v \<Rightarrow> s\<lparr>cData := (cData s)(k := Some v), cExpiry := clockNow s + period\<rparr>)"

definition sameMemory :: "'v cache \<Rightarrow> 'v cache \<Rightarrow> bool" where
  "sameMemory s t \<longleftrightarrow> cData s = cData t \<and> cExpiry s = cExpiry t \<and> undisturbed s \<and> clockNow s = clockNow t"

lemma sameMemory_refreshed:
  "sameMemory s' (refreshed period k r s) \<longleftrightarrow>
     cData s' = (case r of None \<Rightarrow> cData s | Some v \<Rightarrow> (cData s)(k := Some v)) \<and>
     cExpiry s' = (case r of None \<Rightarrow> cExpiry s | Some v \<Rightarrow> clockNow s + period) \<and> undisturbed s' \<and> clockNow s' = clockNow s"
  by (cases r) (simp_all add: sameMemory_def refreshed_def)

text \<open>
  C13: a call that nothing interferes with behaves as the comments say. Fresh data is handed out
  and nothing changes. Stale data is handed out at once, and the refresh in the background replaces
  it, with a new expiry, or leaves everything as it was when it fails. Without data the caller gets
  what its own refresh brings, or nothing when it fails. The cache is idle again afterwards.
\<close>

theorem Get_alone:
  assumes "undisturbed s"
  shows "\<exists>s'. play period (callAlone s k r) s = Some s' \<and>
    (case cData s k of
       None \<Rightarrow> threads s' = threads s @ [Done r] \<and> sameMemory s' (refreshed period k r s)
     | Some v \<Rightarrow>
         (if clockNow s > cExpiry s
          then threads s' = threads s @ [Done (Some v), Done None] \<and> sameMemory s' (refreshed period k r s)
          else threads s' = threads s @ [Done (Some v)] \<and> sameMemory s' s))"
proof -
  have a: "cMutex s = None" "\<not> inProgress s" using assms by (simp_all add: undisturbed_def)
  show ?thesis
  proof (cases "cData s k")
    case None
    then show ?thesis
      using a by (cases r) (simp_all add: callAlone_def refreshing_def numeral_eq_Suc Let_def nth_append list_update_append
        sameMemory_refreshed undisturbed_def returned_def)
  next
    case (Some v)
    show ?thesis
    proof (cases "clockNow s > cExpiry s")
      case True
      then show ?thesis
        using a Some by (cases r) (simp_all add: callAlone_def refreshing_def numeral_eq_Suc Let_def nth_append list_update_append
          sameMemory_refreshed undisturbed_def returned_def)
    next
      case False
      then show ?thesis
        using a Some by (simp add: callAlone_def numeral_eq_Suc Let_def nth_append list_update_append sameMemory_def undisturbed_def)
    qed
  qed
qed

theorem Get_alone_witness:
  "\<exists>s'. play 100 (callAlone (NewCache 100 0) ''installations'' (Some 7)) (NewCache 100 0 :: int cache) = Some s' \<and>
     threads s' = [Done (Some 7)] \<and> cData s' ''installations'' = Some 7"
  using Get_alone [of "NewCache 100 0 :: int cache" 100 "''installations''" "Some 7"]
  by (auto simp: undisturbed_def NewCache_def sameMemory_refreshed)

end
