(* ===== verification/CacheRefinement.thy ===== *)
theory CacheRefinement
  imports CacheFacts GitHubApp
begin

text \<open>
  The cache of installations as \<open>GitHubApp\<close> uses it, one call after the other, against the goroutines
  of \<open>CacheThreads\<close>: every call of the one is a run of the other, with the same result and the same
  memory behind it. So what holds for all runs of the goroutines holds for the calls of the program.
\<close>

section \<open>Time\<close>

named_theorems steady_rules \<open>programs that leave the package variables alone and do not turn back time\<close>

text \<open>
  What is assumed of the clock: it shows the time \<open>T\<close> of the world, and nothing that happens turns it
  back. Go's \<open>time.Now\<close> carries a monotonic reading, which \<open>After\<close> compares.
\<close>

definition forward :: "('w \<Rightarrow> int) \<Rightarrow> ('w, 'a) io \<Rightarrow> bool" where
  "forward T f \<longleftrightarrow> (\<forall>w. T w \<le> T (snd (f w)))"

definition monotonicClock :: "'w env \<Rightarrow> ('w \<Rightarrow> int) \<Rightarrow> bool" where
  "monotonicClock E T \<longleftrightarrow>
     (\<forall>w. fst (clock E w) = T (snd (clock E w))) \<and> forward T (clock E) \<and> forward T (backgroundDone E) \<and>
     forward T (githubNewClient E) \<and> (\<forall>i k. forward T (githubAppsGet E i k)) \<and>
     (\<forall>i k n. forward T (githubListInstallations E i k n)) \<and> (\<forall>i j k n. forward T (githubListRepos E i j k n))"

definition steady :: "('w \<Rightarrow> int) \<Rightarrow> ('w, 'a) prog \<Rightarrow> bool" where
  "steady T m \<longleftrightarrow>
     (\<forall>s. T (world s) \<le> T (world (snd (run_state m s))) \<and> vars (snd (run_state m s)) = vars s)"

lemma steady_return [steady_rules]: "steady T (return x)"
  by (simp add: steady_def)

lemma steady_bind [steady_rules]: "steady T m \<Longrightarrow> (\<And>x. steady T (f x)) \<Longrightarrow> steady T (m \<bind> f)"
  unfolding steady_def by (simp, meson order_trans)

lemma steady_external [steady_rules]: "forward T f \<Longrightarrow> steady T (external name f)"
  by (simp add: steady_def forward_def external_def)

lemma steady_runtime [steady_rules]: "forward T f \<Longrightarrow> steady T (runtime f)"
  by (simp add: steady_def forward_def)

lemma steady_onOk [steady_rules]: "steady T m \<Longrightarrow> (\<And>x. steady T (f x)) \<Longrightarrow> steady T (onOk m f)"
  unfolding onOk_def by (intro steady_rules) (auto split: sum.splits intro!: steady_rules)

lemma steady_wrapErr [steady_rules]: "steady T m \<Longrightarrow> steady T (wrapErr msg m)"
  unfolding wrapErr_def by (intro steady_rules)

lemma steady_asResult [steady_rules]: "steady T m \<Longrightarrow> steady T (asResult m)"
  unfolding asResult_def by (intro steady_rules)

lemma steady_cases [steady_rules]:
  "(\<And>a. steady T (f a)) \<Longrightarrow> (\<And>b. steady T (g b)) \<Longrightarrow> steady T (case_sum f g x)"
  "steady T m \<Longrightarrow> (\<And>b. steady T (g' b)) \<Longrightarrow> steady T (case_option m g' y)"
  "(\<And>a b. steady T (h a b)) \<Longrightarrow> steady T (case_prod h z)"
  "steady T m \<Longrightarrow> steady T n \<Longrightarrow> steady T (if b then m else n)"
  by ((cases x; simp), (cases y; simp), (cases z; simp), simp)

lemma steady_listRepos:
  "(\<And>i j k n. forward T (githubListRepos E i j k n)) \<Longrightarrow> steady T (listRepos_loop E fuel i j k page acc)"
  by (induction fuel arbitrary: page acc) (auto intro!: steady_rules)

lemma steady_installations:
  assumes "forward T (githubNewClient E)" "\<And>i j k n. forward T (githubListRepos E i j k n)"
  shows "steady T (installations_loop E i k js acc)"
  by (induction js arbitrary: acc)
    (auto simp: installationOf_def intro!: steady_rules steady_listRepos assms split: option.splits)

lemma steady_pages:
  assumes "forward T (githubNewClient E)" "\<And>i j k n. forward T (githubListRepos E i j k n)"
    "\<And>i k n. forward T (githubListInstallations E i k n)"
  shows "steady T (pages_loop E fuel i k page acc)"
  by (induction fuel arbitrary: page acc) (auto intro!: steady_rules steady_installations assms)

lemma steady_fetch: "monotonicClock E T \<Longrightarrow> steady T (fetchAppInstallations E i k)"
  unfolding fetchAppInstallations_def monotonicClock_def by (intro steady_rules steady_pages) auto

section \<open>The relation\<close>

definition installationsKey :: string where
  "installationsKey = ''installations''"

text \<open>What the refresh function can return.\<close>

definition fetched :: "'w env \<Rightarrow> int \<times> string \<Rightarrow> AppInstallation list \<Rightarrow> bool" where
  "fetched E p v \<longleftrightarrow> (\<exists>st. fst (run_state (fetchAppInstallations E (fst p) (snd p)) st) = Inr v)"

definition credentials :: "StaleAllowedCache \<Rightarrow> int \<times> string" where
  "credentials c = (cacheAppID c, cacheAppPrivateKey c)"

text \<open>
  The cache of the program in state \<open>st\<close> and the memory of the goroutines in \<open>s\<close>: the same data and
  expiry, nobody in the mutex, and a refresh that is going on is one in the background whose
  goroutine has only started.
\<close>

definition shows_cache :: "('w \<Rightarrow> int) \<Rightarrow> int \<times> string \<Rightarrow> bool \<Rightarrow> 'w st \<Rightarrow> AppInstallation list cache \<Rightarrow> bool" where
  "shows_cache T p busy st s \<longleftrightarrow>
     clockNow s \<le> T (world st) \<and> cMutex s = None \<and> inProgress s = busy \<and>
     (\<exists>c. ghAppInstallationsCache (vars st) = Some c \<and> credentials c = p \<and> refreshInProgress c = busy \<and>
       cData s installationsKey = cacheData c \<and> cExpiry s = cacheExpiry c)"

definition idle_or_refreshing :: "AppInstallation list cache \<Rightarrow> bool" where
  "idle_or_refreshing s \<longleftrightarrow>
     (inProgress s \<longrightarrow> (\<exists>j < length (threads s). threads s ! j = Refreshing True installationsKey (refreshDone s)))"

section \<open>Schedules\<close>

lemma play_append: "play period (es @ fs) s = Option.bind (play period es s) (play period fs)"
  by (induction period es s rule: play.induct) (auto split: Option.bind_splits)

text \<open>The steps of a refresh that brings \<open>r\<close>, where \<open>d\<close> passes before its second look at the clock.\<close>

definition refreshSteps :: "nat \<Rightarrow> 'v option \<Rightarrow> int \<Rightarrow> 'v event list" where
  "refreshSteps j r d =
     (case r of
        None \<Rightarrow> [Go j None, Wait d, Go j None, Go j None]
      | Some v \<Rightarrow> [Go j r, Go j None, Wait d, Go j None, Go j None, Go j None, Go j None])"

text \<open>What a refresh that has been going on leaves behind.\<close>

definition refreshDoneAt :: "int \<Rightarrow> bool \<Rightarrow> nat \<Rightarrow> string \<Rightarrow> nat \<Rightarrow> 'v option \<Rightarrow> int \<Rightarrow> 'v cache \<Rightarrow> 'v cache" where
  "refreshDoneAt period b j k ch r d s =
     s\<lparr>clockNow := clockNow s + d, inProgress := False, closed := insert ch (closed s), cMutex := None,
       cData := (case r of None \<Rightarrow> cData s | Some v \<Rightarrow> (cData s)(k := Some v)),
       cExpiry := (case r of None \<Rightarrow> cExpiry s | Some v \<Rightarrow> clockNow s + d + period),
       threads := (threads s)[j := Done (returned b r)]\<rparr>"

lemma play_refresh:
  assumes "j < length (threads s)" "threads s ! j = Refreshing b k ch" "cMutex s = None" "0 \<le> d"
  shows "play period (refreshSteps j r d) s = Some (refreshDoneAt period b j k ch r d s)"
  using assms by (cases r) (simp_all add: refreshSteps_def refreshDoneAt_def)

lemma returns_refresh: "e \<in> set (refreshSteps j r d) \<Longrightarrow> v \<in> returns e \<Longrightarrow> r = Some v"
  by (auto simp: refreshSteps_def split: option.splits)

lemma play_length: "play period es s = Some s' \<Longrightarrow> length (threads s) \<le> length (threads s')"
proof (induction period es s rule: play.induct)
  case (4 period i r es s)
  then obtain t where "nextState r period i (threads s ! i) s = Some t" "length (threads t) \<le> length (threads s')"
    by (auto simp: bind_eq_Some_conv split: if_splits)
  then show ?case by (cases "threads s ! i") (auto split: if_splits option.splits)
qed (auto split: if_splits)

text \<open>A goroutine that has returned does not move.\<close>

lemma done_stays:
  assumes "(cache_step fetch period)\<^sup>*\<^sup>* s s'" "j < length (threads s)" "threads s ! j = Done x"
  shows "j < length (threads s') \<and> threads s' ! j = Done x"
  using assms(1)
proof (induction rule: rtranclp_induct)
  case (step t u)
  from step(2) show ?case
    unfolding cache_step_def
  proof
    assume "thread_step fetch period t u"
    then obtain i r where i: "i < length (threads t)" "nextState r period i (threads t ! i) t = Some u"
      by (auto simp: thread_step_def move_iff)
    then have "i \<noteq> j" using step(3) by auto
    then show ?thesis
      using i step(3) by (cases "threads t ! i") (auto simp: nth_append split: if_splits option.splits)
  qed (use step(3) in \<open>auto simp: outside_step.simps nth_append\<close>)
qed (use assms in simp)

section \<open>Simulation\<close>

text \<open>\<open>result\<close> as the goroutines see it.\<close>

fun okValue :: "error + 'a \<Rightarrow> 'a option" where
  "okValue (Inl e) = None"
| "okValue (Inr x) = Some x"

lemma refresh_simulated:
  assumes "monotonicClock E T" "shows_cache T p True st s" "credentials c = p"
    "j < length (threads s)" "threads s ! j = Refreshing b installationsKey ch"
  shows "\<exists>d r. 0 \<le> d \<and> (\<forall>v. r = Some v \<longrightarrow> fetched E p v) \<and> okValue (fst (run_state (refreshCache E c) st)) = r \<and>
    shows_cache T p False (snd (run_state (refreshCache E c) st)) (refreshDoneAt refreshPeriod b j installationsKey ch r d s)"
proof -
  let ?f = "run_state (fetchAppInstallations E (fst p) (snd p)) st"
  have f: "T (world st) \<le> T (world (snd ?f))" "vars (snd ?f) = vars st"
    using steady_fetch [OF assms(1)] by (auto simp: steady_def)
  have t: "clockNow s \<le> T (world st)" using assms(2) by (simp add: shows_cache_def)
  have p: "cacheAppID c = fst p" "cacheAppPrivateKey c = snd p" using assms(3) by (auto simp: credentials_def)
  obtain c0 where c0: "ghAppInstallationsCache (vars st) = Some c0" "credentials c0 = p"
    "cData s installationsKey = cacheData c0" "cExpiry s = cacheExpiry c0"
    using assms(2) by (auto simp: shows_cache_def)
  show ?thesis
  proof (cases "fst ?f")
    case (Inl e)
    then show ?thesis
      using f t c0 p by (intro exI [of _ 0] exI [of _ None])
        (auto simp: refreshCache_def updateCache_def shows_cache_def refreshDoneAt_def credentials_def)
  next
    case (Inr v)
    let ?w = "snd (clock E (world (snd ?f)))"
    have w: "fst (clock E (world (snd ?f))) = T ?w" "T (world (snd ?f)) \<le> T ?w"
      using assms(1) by (auto simp: monotonicClock_def forward_def)
    have "fetched E p v" using Inr by (auto simp: fetched_def)
    then show ?thesis
      using Inr w f t c0 p by (intro exI [of _ "T ?w - clockNow s"] exI [of _ "Some v"])
        (auto simp: refreshCache_def updateCache_def shows_cache_def refreshDoneAt_def credentials_def)
  qed
qed

text \<open>The rest of a call from some point on: what the program does and the goroutine \<open>i\<close> in \<open>s\<close> can do too.\<close>

definition simulates ::
  "'w env \<Rightarrow> ('w \<Rightarrow> int) \<Rightarrow> int \<times> string \<Rightarrow> nat \<Rightarrow> AppInstallation list option \<times> 'w st \<Rightarrow> AppInstallation list cache \<Rightarrow> bool"
where
  "simulates E T p i res s \<longleftrightarrow>
     (\<exists>es s' busy. play refreshPeriod es s = Some s' \<and> (\<forall>e \<in> set es. \<forall>v \<in> returns e. fetched E p v) \<and>
        threads s' ! i = Done (fst res) \<and> shows_cache T p busy (snd res) s' \<and> idle_or_refreshing s')"

lemma simulates_play:
  assumes "simulates E T p i res s1" "play refreshPeriod es s = Some s1" "\<And>e v. e \<in> set es \<Longrightarrow> v \<in> returns e \<Longrightarrow> fetched E p v"
  shows "simulates E T p i res s"
proof -
  obtain fs s' busy where
    "play refreshPeriod fs s1 = Some s'" "\<forall>e \<in> set fs. \<forall>v \<in> returns e. fetched E p v"
    "threads s' ! i = Done (fst res)" "shows_cache T p busy (snd res) s'" "idle_or_refreshing s'"
    using assms(1) unfolding simulates_def by blast
  then show ?thesis
    unfolding simulates_def using assms(2,3)
    by (intro exI [of _ "es @ fs"] exI [of _ s'] exI [of _ busy]) (auto simp: play_append)
qed

lemma simulates_own:
  "simulates E T p i res s1 \<Longrightarrow> play refreshPeriod es s = Some s1 \<Longrightarrow> list_all (\<lambda>e. returns e = {}) es \<Longrightarrow>
     simulates E T p i res s"
  by (rule simulates_play) (auto simp: list_all_iff)

lemma simulates_refresh:
  "simulates E T p i res s1 \<Longrightarrow> play refreshPeriod (refreshSteps j r d) s = Some s1 \<Longrightarrow> \<forall>v. r = Some v \<longrightarrow> fetched E p v \<Longrightarrow>
     simulates E T p i res s"
  by (rule simulates_play) (auto dest: returns_refresh)

lemma simulates_done:
  assumes "shows_cache T p busy (snd res) s" "threads s ! i = Done (fst res)" "idle_or_refreshing s"
  shows "simulates E T p i res s"
  unfolding simulates_def using assms by (intro exI [of _ "[]"] exI [of _ s] exI [of _ busy]) simp

text \<open>Waiting for the refresh in the background.\<close>

lemma join_simulated:
  assumes "monotonicClock E T" "shows_cache T p True st s" "ghAppInstallationsCache (vars st) = Some c"
    "i < length (threads s)" "threads s ! i = Locking installationsKey" "idle_or_refreshing s"
  shows "simulates E T p i (run_state (getWithRefresh E c) st) s"
proof -
  have s: "cMutex s = None" "inProgress s" "credentials c = p" "refreshInProgress c"
    using assms(2,3) by (auto simp: shows_cache_def)
  obtain j where j: "j < length (threads s)" "threads s ! j = Refreshing True installationsKey (refreshDone s)"
    using assms(6) s by (auto simp: idle_or_refreshing_def)
  then have ij: "i \<noteq> j" using assms(5) by auto
  define w where "w = goto s i (Waiting installationsKey (refreshDone s))"
  have p1: "play refreshPeriod [Go i None, Go i None] s = Some w"
    using assms(4,5) s by (simp add: w_def)
  have w: "shows_cache T p True st w" "j < length (threads w)" "threads w ! j = Refreshing True installationsKey (refreshDone s)"
    "cMutex w = None" "threads w ! i = Waiting installationsKey (refreshDone s)" "i < length (threads w)"
    using assms(2,4) j ij s by (simp_all add: w_def shows_cache_def)
  obtain d r where r: "0 \<le> d" "\<forall>v. r = Some v \<longrightarrow> fetched E p v"
    and shown: "shows_cache T p False (snd (run_state (refreshCache E c) st))
       (refreshDoneAt refreshPeriod True j installationsKey (refreshDone s) r d w)"
    using refresh_simulated [OF assms(1) w(1) s(3) w(2,3)] by blast
  define t where "t = refreshDoneAt refreshPeriod True j installationsKey (refreshDone s) r d w"
  have p2: "play refreshPeriod (refreshSteps j r d) w = Some t"
    unfolding t_def by (rule play_refresh) (use w r in simp_all)
  define u where "u = goto t i (Done (cData t installationsKey))"
  have p3: "play refreshPeriod [Go i None] t = Some u"
    using w ij by (simp add: t_def u_def refreshDoneAt_def)
  have "simulates E T p i (run_state (getWithRefresh E c) st) u"
    by (rule simulates_done [where busy = False])
      (use shown w(6) s ij in \<open>auto simp: t_def u_def getWithRefresh_def shows_cache_def idle_or_refreshing_def refreshDoneAt_def\<close>)
  then have "simulates E T p i (run_state (getWithRefresh E c) st) t" by (rule simulates_own [OF _ p3]) simp
  then have "simulates E T p i (run_state (getWithRefresh E c) st) w" by (rule simulates_refresh [OF _ p2 r(2)])
  then show ?thesis by (rule simulates_own [OF _ p1]) simp
qed

text \<open>No refresh is going on: the data has become fresh, is refreshed in the background, or is fetched.\<close>

lemma nobody_simulated:
  assumes "monotonicClock E T" "shows_cache T p False st s" "ghAppInstallationsCache (vars st) = Some c"
    "i < length (threads s)" "threads s ! i = Locking installationsKey"
  shows "simulates E T p i (run_state (getWithRefresh E c) st) s"
proof -
  have s: "cMutex s = None" "\<not> inProgress s" "credentials c = p" "\<not> refreshInProgress c" "clockNow s \<le> T (world st)"
    "cData s installationsKey = cacheData c" "cExpiry s = cacheExpiry c"
    using assms(2,3) by (auto simp: shows_cache_def)
  define w where "w = goto (s\<lparr>cMutex := Some i\<rparr>) i (Rechecking installationsKey (cacheData c) (cacheExpiry c))"
  have p1: "play refreshPeriod (replicate 3 (Go i None)) s = Some w"
    using assms(4,5) s by (simp add: w_def numeral_eq_Suc)
  show ?thesis
  proof (cases "cacheData c")
    case None
    define t where "t = goto (s\<lparr>cMutex := None, inProgress := True, refreshDone := nextChannel s, nextChannel := Suc (nextChannel s)\<rparr>)
         i (Refreshing False installationsKey (nextChannel s))"
    have p2: "play refreshPeriod [Go i None] w = Some t"
      using assms(4) None by (simp add: w_def t_def)
    let ?st = "st\<lparr>vars := ghAppInstallationsCache_update (map_option (refreshInProgress_update (\<lambda>_. True))) (vars st)\<rparr>"
    have t: "shows_cache T p True ?st t" "i < length (threads t)" "threads t ! i = Refreshing False installationsKey (nextChannel s)"
      "cMutex t = None"
      using s assms(3,4) by (simp_all add: t_def shows_cache_def credentials_def)
    obtain d r where r: "0 \<le> d" "\<forall>v. r = Some v \<longrightarrow> fetched E p v" "okValue (fst (run_state (refreshCache E c) ?st)) = r"
      and shown: "shows_cache T p False (snd (run_state (refreshCache E c) ?st))
         (refreshDoneAt refreshPeriod False i installationsKey (nextChannel s) r d t)"
      using refresh_simulated [OF assms(1) t(1) s(3) t(2,3)] by blast
    define u where "u = refreshDoneAt refreshPeriod False i installationsKey (nextChannel s) r d t"
    have p3: "play refreshPeriod (refreshSteps i r d) t = Some u"
      unfolding u_def by (rule play_refresh) (use t r in simp_all)
    have "run_state (getWithRefresh E c) st = (r, snd (run_state (refreshCache E c) ?st))"
      using s None assms(3) r(3) by (cases "fst (run_state (refreshCache E c) ?st)") (auto simp: getWithRefresh_def updateCache_def)
    then have "simulates E T p i (run_state (getWithRefresh E c) st) u"
      using shown t(2) by (intro simulates_done [where busy = False])
        (auto simp: u_def idle_or_refreshing_def refreshDoneAt_def returned_def)
    then have "simulates E T p i (run_state (getWithRefresh E c) st) t" by (rule simulates_refresh [OF _ p3 r(2)])
    then have "simulates E T p i (run_state (getWithRefresh E c) st) w" by (rule simulates_own [OF _ p2]) simp
    then show ?thesis by (rule simulates_own [OF _ p1]) (simp add: numeral_eq_Suc)
  next
    case (Some v)
    define n where "n = T (snd (clock E (world st)))"
    have n: "clockNow s \<le> n" "fst (clock E (world st)) = n"
      using s(5) assms(1) by (auto simp: n_def monotonicClock_def forward_def intro: order_trans)
    show ?thesis
    proof (cases "n \<le> cacheExpiry c")
      case True
      define u where "u = goto (s\<lparr>clockNow := n, cMutex := None\<rparr>) i (Done (Some v))"
      have p2: "play refreshPeriod [Wait (n - clockNow s), Go i None] w = Some u"
        using assms(4) Some True n by (simp add: w_def u_def)
      have "simulates E T p i (run_state (getWithRefresh E c) st) u"
        by (rule simulates_done [where busy = False])
          (use s assms(3,4) Some True n in \<open>simp_all add: u_def n_def getWithRefresh_def shows_cache_def idle_or_refreshing_def\<close>)
      then have "simulates E T p i (run_state (getWithRefresh E c) st) w" by (rule simulates_own [OF _ p2]) simp
      then show ?thesis by (rule simulates_own [OF _ p1]) (simp add: numeral_eq_Suc)
    next
      case False
      define u where "u = s\<lparr>clockNow := n, cMutex := None, inProgress := True, refreshDone := nextChannel s,
          nextChannel := Suc (nextChannel s), threads := (threads s)[i := Done (Some v)] @ [Refreshing True installationsKey (nextChannel s)]\<rparr>"
      have p2: "play refreshPeriod [Wait (n - clockNow s), Go i None] w = Some u"
        using assms(4) Some False n by (simp add: w_def u_def)
      have "idle_or_refreshing u"
        by (auto simp: idle_or_refreshing_def u_def nth_append intro!: exI [of _ "length (threads s)"])
      then have "simulates E T p i (run_state (getWithRefresh E c) st) u"
        by (intro simulates_done [where busy = True])
          (use s assms(3,4) Some False n in \<open>simp_all add: u_def n_def getWithRefresh_def updateCache_def shows_cache_def credentials_def nth_append\<close>)
      then have "simulates E T p i (run_state (getWithRefresh E c) st) w" by (rule simulates_own [OF _ p2]) simp
      then show ?thesis by (rule simulates_own [OF _ p1]) (simp add: numeral_eq_Suc)
    qed
  qed
qed

text \<open>A call of \<open>Get\<close> from its start.\<close>

lemma idle_goto:
  assumes "idle_or_refreshing s" "threads s ! i = Start k"
    "inProgress s' = inProgress s" "refreshDone s' = refreshDone s" "threads s' = (threads s)[i := q]"
  shows "idle_or_refreshing s'"
  unfolding idle_or_refreshing_def assms(3-5)
proof
  assume "inProgress s"
  then obtain j where "j < length (threads s)" "threads s ! j = Refreshing True installationsKey (refreshDone s)"
    using assms(1) by (auto simp: idle_or_refreshing_def)
  then show "\<exists>j < length ((threads s)[i := q]). (threads s)[i := q] ! j = Refreshing True installationsKey (refreshDone s)"
    using assms(2) by (intro exI [of _ j]) (cases "i = j"; simp)
qed

lemma Get_simulated:
  assumes "monotonicClock E T" "shows_cache T p busy st s"
    "i < length (threads s)" "threads s ! i = Start installationsKey" "idle_or_refreshing s"
  shows "simulates E T p i (run_state (StaleAllowedCache_Get E) st) s"
proof -
  obtain c where c: "ghAppInstallationsCache (vars st) = Some c" "credentials c = p" "refreshInProgress c = busy"
    "cData s installationsKey = cacheData c" "cExpiry s = cacheExpiry c"
    using assms(2) by (auto simp: shows_cache_def)
  have s: "cMutex s = None" "inProgress s = busy" "clockNow s \<le> T (world st)"
    using assms(2) by (auto simp: shows_cache_def)
  have locking: "simulates E T p i (run_state (getWithRefresh E c) st') w"
    if "shows_cache T p busy st' w" "ghAppInstallationsCache (vars st') = Some c" "i < length (threads w)"
      "threads w ! i = Locking installationsKey" "idle_or_refreshing w" for st' w
    using that join_simulated [OF assms(1)] nobody_simulated [OF assms(1)] by (cases busy) auto
  have keep: "idle_or_refreshing (goto s i q)" "idle_or_refreshing (goto (s\<lparr>clockNow := n\<rparr>) i q)" for q n
    by (rule idle_goto [OF assms(5,4)]; simp)+
  show ?thesis
  proof (cases "cacheData c")
    case None
    have p1: "play refreshPeriod (replicate 3 (Go i None)) s = Some (goto s i (Locking installationsKey))"
      using assms(3,4) c None by (simp add: numeral_eq_Suc)
    have "simulates E T p i (run_state (getWithRefresh E c) st) (goto s i (Locking installationsKey))"
      using assms(2,3) c keep by (intro locking) (auto simp: shows_cache_def)
    then have "simulates E T p i (run_state (getWithRefresh E c) st) s"
      by (rule simulates_own [OF _ p1]) (simp add: numeral_eq_Suc)
    then show ?thesis using c None by (simp add: StaleAllowedCache_Get_def)
  next
    case (Some v)
    define n where "n = T (snd (clock E (world st)))"
    define st' where "st' = st\<lparr>world := snd (clock E (world st))\<rparr>"
    have n: "clockNow s \<le> n" "fst (clock E (world st)) = n"
      using s(3) assms(1) by (auto simp: n_def monotonicClock_def forward_def intro: order_trans)
    define q where "q = (if n \<le> cacheExpiry c then Done (Some v) else Locking installationsKey)"
    have p1: "play refreshPeriod [Go i None, Go i None, Wait (n - clockNow s), Go i None] s = Some (goto (s\<lparr>clockNow := n\<rparr>) i q)"
      using assms(3,4) c Some n by (auto simp: q_def)
    have m: "shows_cache T p busy st' (goto (s\<lparr>clockNow := n\<rparr>) i q)"
      using assms(2) by (auto simp: shows_cache_def st'_def n_def)
    have "simulates E T p i (run_state (StaleAllowedCache_Get E) st) (goto (s\<lparr>clockNow := n\<rparr>) i q)"
    proof (cases "n \<le> cacheExpiry c")
      case True
      then show ?thesis
        using m keep(2) assms(3) c Some n
        by (intro simulates_done [where busy = busy]) (simp_all add: StaleAllowedCache_Get_def q_def st'_def)
    next
      case False
      then have "simulates E T p i (run_state (getWithRefresh E c) st') (goto (s\<lparr>clockNow := n\<rparr>) i q)"
        using m keep(2) assms(3) c by (intro locking) (simp_all add: q_def st'_def)
      then show ?thesis
        using c Some n False by (simp add: StaleAllowedCache_Get_def st'_def)
    qed
    then show ?thesis by (rule simulates_own [OF _ p1]) simp
  qed
qed

text \<open>The refresh in the background may end before the call begins.\<close>

lemma settle_simulated:
  assumes "monotonicClock E T" "shows_cache T p busy st s" "i < length (threads s)"
    "threads s ! i = Start installationsKey" "idle_or_refreshing s"
  shows "simulates E T p i (run_state (settleBackground E \<bind> (\<lambda>_. StaleAllowedCache_Get E)) st) s"
proof -
  obtain c where c: "ghAppInstallationsCache (vars st) = Some c" "credentials c = p" "refreshInProgress c = busy"
    using assms(2) by (auto simp: shows_cache_def)
  define st' where "st' = st\<lparr>world := snd (backgroundDone E (world st))\<rparr>"
  have m: "shows_cache T p busy st' s"
    using assms(1,2) by (auto simp: shows_cache_def st'_def monotonicClock_def forward_def intro: order_trans)
  show ?thesis
  proof (cases "busy \<and> fst (backgroundDone E (world st))")
    case False
    then have "run_state (settleBackground E \<bind> (\<lambda>_. StaleAllowedCache_Get E)) st = run_state (StaleAllowedCache_Get E) st'"
      using c by (auto simp: settleBackground_def st'_def)
    then show ?thesis using Get_simulated [OF assms(1) m assms(3-5)] by simp
  next
    case True
    then have busy: "busy = True" by simp
    then have "inProgress s" using assms(2) by (simp add: shows_cache_def)
    then obtain j where j: "j < length (threads s)" "threads s ! j = Refreshing True installationsKey (refreshDone s)"
      using assms(5) by (auto simp: idle_or_refreshing_def)
    then have ij: "i \<noteq> j" using assms(4) by auto
    obtain d r where r: "0 \<le> d" "\<forall>v. r = Some v \<longrightarrow> fetched E p v"
      and shown: "shows_cache T p False (snd (run_state (refreshCache E c) st'))
         (refreshDoneAt refreshPeriod True j installationsKey (refreshDone s) r d s)"
      using refresh_simulated [OF assms(1) m [unfolded busy] c(2) j] by blast
    define t where "t = refreshDoneAt refreshPeriod True j installationsKey (refreshDone s) r d s"
    have p1: "play refreshPeriod (refreshSteps j r d) s = Some t"
      unfolding t_def by (rule play_refresh) (use j r assms(2) in \<open>simp_all add: shows_cache_def\<close>)
    have "run_state (settleBackground E \<bind> (\<lambda>_. StaleAllowedCache_Get E)) st =
        run_state (StaleAllowedCache_Get E) (snd (run_state (refreshCache E c) st'))"
      using c True by (auto simp: settleBackground_def st'_def)
    moreover have "simulates E T p i (run_state (StaleAllowedCache_Get E) (snd (run_state (refreshCache E c) st'))) t"
      using shown assms(3,4) ij unfolding t_def
      by (intro Get_simulated [OF assms(1)]) (auto simp: refreshDoneAt_def idle_or_refreshing_def)
    ultimately have "simulates E T p i (run_state (settleBackground E \<bind> (\<lambda>_. StaleAllowedCache_Get E)) st) t" by simp
    then show ?thesis by (rule simulates_refresh [OF _ p1 r(2)])
  qed
qed

lemma call_simulated:
  assumes "monotonicClock E T" "shows_cache T p busy st s" "idle_or_refreshing s"
  shows "\<exists>s' busy. (cache_step (fetched E p) refreshPeriod)\<^sup>*\<^sup>* s s' \<and> length (threads s) < length (threads s') \<and>
    threads s' ! length (threads s) = Done (fst (run_state (settleBackground E \<bind> (\<lambda>_. StaleAllowedCache_Get E)) st)) \<and>
    shows_cache T p busy (snd (run_state (settleBackground E \<bind> (\<lambda>_. StaleAllowedCache_Get E)) st)) s' \<and> idle_or_refreshing s'"
proof -
  let ?s = "s\<lparr>threads := threads s @ [Start installationsKey]\<rparr>"
  have idle: "idle_or_refreshing ?s"
    using assms(3) by (fastforce simp: idle_or_refreshing_def nth_append)
  have "shows_cache T p busy st ?s" using assms(2) by (simp add: shows_cache_def)
  then have "simulates E T p (length (threads s)) (run_state (settleBackground E \<bind> (\<lambda>_. StaleAllowedCache_Get E)) st) ?s"
    by (rule settle_simulated [OF assms(1)]) (simp_all add: idle)
  then obtain es s' busy' where p: "play refreshPeriod es ?s = Some s'" "\<forall>e \<in> set es. \<forall>v \<in> returns e. fetched E p v"
    and rest: "threads s' ! length (threads s) = Done (fst (run_state (settleBackground E \<bind> (\<lambda>_. StaleAllowedCache_Get E)) st))"
    "shows_cache T p busy' (snd (run_state (settleBackground E \<bind> (\<lambda>_. StaleAllowedCache_Get E)) st)) s'" "idle_or_refreshing s'"
    unfolding simulates_def by blast
  have "(cache_step (fetched E p) refreshPeriod)\<^sup>*\<^sup>* s s'"
    by (rule play_reachable [where es = "Call installationsKey # es"]) (use p in auto)
  moreover have "length (threads ?s) \<le> length (threads s')" using play_length [OF p(1)] .
  ultimately show ?thesis using rest by auto
qed

section \<open>All calls\<close>

text \<open>Calls for components one after the other; between them a background refresh may end.\<close>

fun calls :: "'w env \<Rightarrow> GitHubComponent list \<Rightarrow> ('w, (error + AppInstallation list) list) prog" where
  "calls E [] = return []"
| "calls E (c # cs) = getAppInstallations E c \<bind> (\<lambda>r. calls E cs \<bind> (\<lambda>rs. return (r # rs)))"

text \<open>Once there is a cache, it does not matter for which component the call is.\<close>

lemma getAppInstallations_cached:
  assumes "ghAppInstallationsCache (vars st) = Some cache"
  shows "okValue (fst (run_state (getAppInstallations E c) st)) =
      fst (run_state (settleBackground E \<bind> (\<lambda>_. StaleAllowedCache_Get E)) st)"
    "snd (run_state (getAppInstallations E c) st) = snd (run_state (settleBackground E \<bind> (\<lambda>_. StaleAllowedCache_Get E)) st)"
  using assms by (simp_all add: getAppInstallations_def split: option.split)

lemma calls_simulated:
  assumes "monotonicClock E T" "shows_cache T p busy st s" "idle_or_refreshing s"
  shows "\<exists>s' js. (cache_step (fetched E p) refreshPeriod)\<^sup>*\<^sup>* s s' \<and> sorted_wrt (<) js \<and>
    (\<forall>j \<in> set js. length (threads s) \<le> j \<and> j < length (threads s')) \<and>
    map (\<lambda>j. threads s' ! j) js = map (\<lambda>r. Done (okValue r)) (fst (run_state (calls E cs) st))"
  using assms(2,3)
proof (induction cs arbitrary: st s busy)
  case Nil
  then show ?case by (intro exI [of _ s] exI [of _ "[]"]) simp
next
  case (Cons c cs)
  let ?st = "snd (run_state (getAppInstallations E c) st)" and ?n = "length (threads s)"
  obtain cache where cache: "ghAppInstallationsCache (vars st) = Some cache"
    using Cons.prems(1) by (auto simp: shows_cache_def)
  from call_simulated [OF assms(1) Cons.prems] obtain t busy' where
    t: "(cache_step (fetched E p) refreshPeriod)\<^sup>*\<^sup>* s t" "?n < length (threads t)"
    "threads t ! ?n = Done (okValue (fst (run_state (getAppInstallations E c) st)))"
    "shows_cache T p busy' ?st t" "idle_or_refreshing t"
    unfolding getAppInstallations_cached [OF cache] by blast
  from Cons.IH [OF t(4,5)] obtain s' js where
    s': "(cache_step (fetched E p) refreshPeriod)\<^sup>*\<^sup>* t s'" "sorted_wrt (<) js"
    "\<forall>j \<in> set js. length (threads t) \<le> j \<and> j < length (threads s')"
    "map (\<lambda>j. threads s' ! j) js = map (\<lambda>r. Done (okValue r)) (fst (run_state (calls E cs) ?st))" by blast
  have "?n < length (threads s') \<and> threads s' ! ?n = threads t ! ?n"
    using done_stays [OF s'(1) t(2,3)] t(3) by simp
  then show ?case
    using t s' by (intro exI [of _ s'] exI [of _ "?n # js"]) (auto intro: rtranclp_trans less_le_trans)
qed

text \<open>
  C29: the cache as the program uses it is a refinement of the cache under concurrent callers.
  Whatever the service answers, and whenever the refreshes in the background end: the results of all
  calls of \<open>getAppInstallations\<close> are the results of goroutines in one state that these can reach from a
  new cache, in the same order, each by a caller of its own. What is shown of all reachable states, in
  \<open>cache_safe\<close>, therefore holds for the program: whichever component asks, what it is told was fetched with the credentials
  of the component that was first. The clock must not run backwards.
\<close>

theorem calls_refine_goroutines:
  assumes "monotonicClock E T" "ghAppInstallationsCache (vars st) = None"
  shows "\<exists>now s js. (cache_step (fetched E (AppID c, AppPrivateKey c)) refreshPeriod)\<^sup>*\<^sup>* (NewCache refreshPeriod now) s \<and>
    sorted_wrt (<) js \<and> (\<forall>j \<in> set js. j < length (threads s)) \<and>
    map (\<lambda>j. threads s ! j) js = map (\<lambda>r. Done (okValue r)) (fst (run_state (calls E (c # cs)) st))"
proof -
  let ?now = "fst (clock E (world st))"
  let ?st = "st\<lparr>world := snd (clock E (world st)), vars := (vars st)\<lparr>ghAppInstallationsCache :=
      Some (NewStaleAllowedCache ?now (AppID c) (AppPrivateKey c))\<rparr>\<rparr>"
  have first: "run_state (getAppInstallations E c) st = run_state (getAppInstallations E c) ?st"
    using assms(2) by (simp add: getAppInstallations_def)
  then have all: "run_state (calls E (c # cs)) st = run_state (calls E (c # cs)) ?st"
    by simp
  have "shows_cache T (AppID c, AppPrivateKey c) False ?st (NewCache refreshPeriod ?now)"
    using assms(1) by (simp add: shows_cache_def NewCache_def NewStaleAllowedCache_def credentials_def monotonicClock_def)
  moreover have "idle_or_refreshing (NewCache refreshPeriod ?now)"
    by (simp add: idle_or_refreshing_def NewCache_def)
  ultimately show ?thesis
    unfolding all using calls_simulated [OF assms(1)] by blast
qed

definition keyHolder :: "GitHubComponent" where
  "keyHolder = \<lparr>ghBase = \<lparr>bcName = [], bcNamespace = [], bcApplication = [], bcPlatform = ''github'', bcHost = ''github.com'',
     bcGitURL = [], bcRepository = ''o/r'', bcVersions = [], bcOldCRDVersion = False\<rparr>, AppID = 7, AppPrivateKey = ''key''\<rparr>"

lemma calls_emptyCluster: "fst (run_state (calls emptyCluster [keyHolder, keyHolder]) start) = [Inr [], Inr []]"
  by (simp add: keyHolder_def start_def initGlobals_def emptyCluster_def NewStaleAllowedCache_def StaleAllowedCache_Get_def
      settleBackground_def getWithRefresh_def refreshCache_def updateCache_def fetchAppInstallations_def refreshPeriod_def
      getAppInstallations_def minute_def external_def onOk_def wrapErr_def asResult_def numeral_eq_Suc)

theorem calls_refine_goroutines_witness:
  "\<exists>now s js. (cache_step (fetched emptyCluster (7, ''key'')) refreshPeriod)\<^sup>*\<^sup>* (NewCache refreshPeriod now) s \<and>
     sorted_wrt (<) js \<and> (\<forall>j \<in> set js. j < length (threads s)) \<and> map (\<lambda>j. threads s ! j) js = [Done (Some []), Done (Some [])]"
proof -
  have "monotonicClock emptyCluster (\<lambda>w. 0)" by (simp add: monotonicClock_def forward_def emptyCluster_def)
  from calls_refine_goroutines [OF this, of start keyHolder "[keyHolder]"] show ?thesis
    unfolding calls_emptyCluster by (simp add: keyHolder_def start_def initGlobals_def)
qed

end
