(* ===== verification/Tekton.thy ===== *)
theory Tekton
  imports Kubernetes Sanitize
begin

text \<open>
  \<open>internal/tekton/pipeline_run_builder.go\<close>: the builder of Tekton pipeline runs. A builder is a
  value that each \<open>With\<close> operation maps to a new one, which is what the chained calls in Go do to
  the one builder they share. The environment variables and the embedded script
  \<open>log_sanitizer.sh\<close> are arguments, and so are the random bytes behind the volume names of secrets.
\<close>

named_theorems builder_keep \<open>what the operations of the builder keep\<close>

section \<open>Mount options\<close>

record MountOptions =
  TaskName :: string
  StepNames :: "string list"
  ReadOnly :: "bool option"
  DefaultMode :: "int option"
  Optional :: "bool option"

definition NewMountOptions :: MountOptions where
  "NewMountOptions = \<lparr>TaskName = ''build'', StepNames = [], ReadOnly = Some True, DefaultMode = Some 420,
     Optional = Some False\<rparr>"

definition WithTaskName :: "string \<Rightarrow> MountOptions \<Rightarrow> MountOptions" where
  "WithTaskName name o' = o'\<lparr>TaskName := name\<rparr>"

definition WithStepNames :: "string list \<Rightarrow> MountOptions \<Rightarrow> MountOptions" where
  "WithStepNames stepNames o' = o'\<lparr>StepNames := stepNames\<rparr>"

definition WithReadOnly :: "bool \<Rightarrow> MountOptions \<Rightarrow> MountOptions" where
  "WithReadOnly readOnly o' = o'\<lparr>ReadOnly := Some readOnly\<rparr>"

definition WithDefaultMode :: "int \<Rightarrow> MountOptions \<Rightarrow> MountOptions" where
  "WithDefaultMode mode o' = o'\<lparr>DefaultMode := Some mode\<rparr>"

definition WithOptional :: "bool \<Rightarrow> MountOptions \<Rightarrow> MountOptions" where
  "WithOptional optional o' = o'\<lparr>Optional := Some optional\<rparr>"

text \<open>The head of \<open>WithConfigMap\<close> and \<open>WithSecret\<close>: missing options get their defaults.\<close>

definition resolveOptions :: "MountOptions option \<Rightarrow> MountOptions" where
  "resolveOptions opts =
     (let o1 = (case opts of
                  None \<Rightarrow> \<lparr>TaskName = [], StepNames = [], ReadOnly = None, DefaultMode = None, Optional = None\<rparr>
                | Some o' \<Rightarrow> o');
          o2 = (if TaskName o1 = [] then o1\<lparr>TaskName := ''build''\<rparr> else o1)
      in if ReadOnly o2 = None then o2\<lparr>ReadOnly := Some True\<rparr> else o2)"

section \<open>The builder\<close>

record PipelineRunBuilder =
  builderErr :: "error list"
  pipelineRun :: PipelineRun

definition rootUser :: int where
  "rootUser = 0"

definition normalUser :: int where
  "normalUser = 1001120000"

definition restricted :: SecurityContext where
  "restricted = \<lparr>Drop = [''ALL''], RunAsNonRoot = Some True, RunAsUser = normalUser, AllowPrivilegeEscalation = False\<rparr>"

definition cpuMemory :: "string \<Rightarrow> string \<Rightarrow> string gomap" where
  "cpuMemory cpu memory = [(''cpu'', cpu), (''memory'', memory)]"

definition prepareDbStep :: Step where
  "prepareDbStep =
     \<lparr>stepName = ''prepare-db'', Image = ''quay.io/konflux-ci/mintmaker-osv-database:latest'',
      Script = ''echo '' @ [CHR 0x27] @ ''Copying OSV database to the shared workspace'' @ [CHR 0x27]
        @ ''; cp -r /data/osv-db /workspace/shared-data'',
      stepSecurity = restricted, Requests = cpuMemory ''100m'' ''512Mi'', Limits = cpuMemory ''100m'' ''512Mi'',
      Env = [], VolumeMounts = []\<rparr>"

definition prepareRpmCertScript :: string where
  "prepareRpmCertScript = (let q = [CHR 0x22]; a = [CHR 0x27] in
     ''[ ! -f '' @ q @ ''/etc/renovate/secret/rpm-activationkey'' @ q @ '' ] && echo '' @ a
     @ ''RPM secret not found. Exiting.'' @ a @ '' && exit 0;''
     @ ''echo '' @ a @ ''Generating RPM certificate and copying it to shared workspace'' @ a @ '';''
     @ ''KEY_NAME=$(cat /etc/renovate/secret/rpm-activationkey);''
     @ ''ORG_ID=$(cat /etc/renovate/secret/rpm-org);''
     @ ''subscription-manager register --activationkey='' @ q @ ''$KEY_NAME'' @ q @ '' --org='' @ q @ ''$ORG_ID'' @ q @ '';''
     @ ''mkdir -p /workspace/shared-data/rpm-certs;''
     @ ''cp /etc/pki/entitlement/*-key.pem /workspace/shared-data/rpm-certs/key.pem;''
     @ ''cp $(find /etc/pki/entitlement -maxdepth 1 -type f -name '' @ a @ ''*.pem'' @ a @ '' ! -name '' @ a @ ''*-key.pem'' @ a
     @ '' -print -quit) /workspace/shared-data/rpm-certs/cert.pem'')"

definition prepareRpmCertStep :: Step where
  "prepareRpmCertStep =
     \<lparr>stepName = ''prepare-rpm-cert'', Image = ''registry.access.redhat.com/ubi9'', Script = prepareRpmCertScript,
      stepSecurity = \<lparr>Drop = [''ALL''], RunAsNonRoot = None, RunAsUser = rootUser, AllowPrivilegeEscalation = False\<rparr>,
      Requests = cpuMemory ''100m'' ''256Mi'', Limits = cpuMemory ''100m'' ''256Mi'',
      Env = [], VolumeMounts = []\<rparr>"

definition renovateStep :: "string \<Rightarrow> Step" where
  "renovateStep renovateImageURL =
     \<lparr>stepName = ''renovate'', Image = renovateImageURL,
      Script = ''RENOVATE_TOKEN=$(cat /etc/renovate/secret/renovate-token) ''
        @ ''RENOVATE_CONFIG_FILE=/etc/renovate/config/config.js ''
        @ ''LOG_FILE=/workspace/shared-data/renovate-logs.json ''
        @ ''renovate || true'',
      stepSecurity = restricted, Requests = cpuMemory ''300m'' ''3.5Gi'', Limits = cpuMemory ''300m'' ''3.5Gi'',
      Env = [EnvValue ''HOME'' ''/home/renovate'', EnvValue ''LOG_LEVEL'' ''debug'', EnvValue ''LOG_FORMAT'' ''json'',
             EnvValue ''OSV_OFFLINE_DISABLE_DOWNLOAD'' ''true'',
             EnvValue ''OSV_OFFLINE_ROOT_DIR'' ''/workspace/shared-data/osv-db'',
             EnvValue ''DNF_VAR_SSL_CLIENT_KEY'' ''/workspace/shared-data/rpm-certs/key.pem'',
             EnvValue ''DNF_VAR_SSL_CLIENT_CERT'' ''/workspace/shared-data/rpm-certs/cert.pem'',
             EnvValue ''RENOVATE_X_GITLAB_AUTO_MERGEABLE_CHECK_ATTEMPS'' ''7''],
      VolumeMounts = []\<rparr>"

definition logSanitizerStep :: "string \<Rightarrow> string \<Rightarrow> Step" where
  "logSanitizerStep leaktkImageURL script =
     \<lparr>stepName = ''log-sanitizer'', Image = leaktkImageURL, Script = script, stepSecurity = restricted,
      Requests = cpuMemory ''100m'' ''256Mi'', Limits = cpuMemory ''100m'' ''256Mi'',
      Env = [EnvValue ''HOME'' ''/tmp''], VolumeMounts = []\<rparr>"

definition imageURL :: "(string \<Rightarrow> string) \<Rightarrow> string \<Rightarrow> string \<Rightarrow> string" where
  "imageURL getenv envName dflt = (if getenv envName = [] then dflt else getenv envName)"

definition NewPipelineRunBuilder :: "(string \<Rightarrow> string) \<Rightarrow> string \<Rightarrow> string \<Rightarrow> string \<Rightarrow> PipelineRunBuilder" where
  "NewPipelineRunBuilder getenv script name namespace =
     \<lparr>builderErr = [],
      pipelineRun =
        \<lparr>plrMeta = newMeta name namespace,
         plrWorkspaceDecls = [''shared-data''],
         Tasks =
           [\<lparr>taskName = ''build'', taskBindings = [(''shared-data'', ''shared-data'')],
             taskSpec = Some
               \<lparr>taskWorkspaces = [''shared-data''],
                Steps = [prepareDbStep, prepareRpmCertStep,
                         renovateStep (imageURL getenv RenovateImageEnvName DefaultRenovateImageURL),
                         logSanitizerStep (imageURL getenv LeakTKImageEnvName DefaultLeakTKImageURL) script],
                Volumes = []\<rparr>\<rparr>],
         plrWorkspaces = [''shared-data''],
         Params = [], ServiceAccountName = [], Timeouts = None, specStatus = [], Conditions = [],
         CompletionTime = None\<rparr>\<rparr>"

text \<open>\<open>Build\<close>: the accumulated errors, if any, and else the pipeline run.\<close>

definition Build :: "PipelineRunBuilder \<Rightarrow> error + PipelineRun" where
  "Build b = (case builderErr b of [] \<Rightarrow> Inr (pipelineRun b) | e # _ \<Rightarrow> Inl e)"

definition updateMeta :: "(ObjectMeta \<Rightarrow> ObjectMeta) \<Rightarrow> PipelineRunBuilder \<Rightarrow> PipelineRunBuilder" where
  "updateMeta f b = b\<lparr>pipelineRun := (pipelineRun b)\<lparr>plrMeta := f (plrMeta (pipelineRun b))\<rparr>\<rparr>"

text \<open>The loop \<open>for key, value := range m { target[key] = value }\<close>.\<close>

fun copyInto :: "'v gomap \<Rightarrow> 'v gomap \<Rightarrow> 'v gomap" where
  "copyInto [] target = target"
| "copyInto ((k, v) # m) target = copyInto m (AList.update k v target)"

definition WithAnnotations :: "string gomap \<Rightarrow> PipelineRunBuilder \<Rightarrow> PipelineRunBuilder" where
  "WithAnnotations annotations b = updateMeta (\<lambda>m. m\<lparr>Annotations := copyInto annotations (Annotations m)\<rparr>) b"

text \<open>\<open>controllerutil.AddFinalizer\<close> adds a finalizer that is not there yet.\<close>

definition WithFinalizer :: "string \<Rightarrow> PipelineRunBuilder \<Rightarrow> PipelineRunBuilder" where
  "WithFinalizer finalizer b =
     updateMeta (\<lambda>m. if finalizer \<in> set (Finalizers m) then m else m\<lparr>Finalizers := Finalizers m @ [finalizer]\<rparr>) b"

definition WithLabels :: "string gomap \<Rightarrow> PipelineRunBuilder \<Rightarrow> PipelineRunBuilder" where
  "WithLabels labels b = updateMeta (\<lambda>m. m\<lparr>Labels := copyInto labels (Labels m)\<rparr>) b"

definition sanitizeVolumeName :: "string \<Rightarrow> string" where
  "sanitizeVolumeName name = ReplaceByte name (CHR ''.'') (CHR ''-'')"

text \<open>
  The loop over the tasks: the first task of that name that embeds a specification is changed, and
  the loop ends.
\<close>

fun task_loop :: "string \<Rightarrow> (TaskSpec \<Rightarrow> TaskSpec) \<Rightarrow> PipelineTask list \<Rightarrow> PipelineTask list" where
  "task_loop name f [] = []"
| "task_loop name f (task # tasks) =
     (case taskSpec task of
        Some spec \<Rightarrow>
          if taskName task = name then task\<lparr>taskSpec := Some (f spec)\<rparr> # tasks
          else task # task_loop name f tasks
      | None \<Rightarrow> task # task_loop name f tasks)"

definition updateTask :: "string \<Rightarrow> (TaskSpec \<Rightarrow> TaskSpec) \<Rightarrow> PipelineRunBuilder \<Rightarrow> PipelineRunBuilder" where
  "updateTask name f b = b\<lparr>pipelineRun := (pipelineRun b)\<lparr>Tasks := task_loop name f (Tasks (pipelineRun b))\<rparr>\<rparr>"

definition mountStep :: "string list \<Rightarrow> VolumeMount \<Rightarrow> Step \<Rightarrow> Step" where
  "mountStep stepNames m step =
     (if stepNames = [] \<or> stepName step \<in> set stepNames then step\<lparr>VolumeMounts := VolumeMounts step @ [m]\<rparr> else step)"

text \<open>Dereferencing \<open>ReadOnly\<close>, which the head of the callers has made non-\<open>nil\<close>.\<close>

definition the_default_true :: "bool option \<Rightarrow> bool" where
  "the_default_true b = (case b of None \<Rightarrow> True | Some v \<Rightarrow> v)"

text \<open>Add a volume to a task and mount it into the selected steps.\<close>

definition mountVolume :: "MountOptions \<Rightarrow> Volume \<Rightarrow> string \<Rightarrow> TaskSpec \<Rightarrow> TaskSpec" where
  "mountVolume opts volume mountPath spec =
     spec\<lparr>Volumes := Volumes spec @ [volume],
          Steps := map (mountStep (StepNames opts)
                     \<lparr>mountName = volName volume, MountPath = mountPath, mountReadOnly = the_default_true (ReadOnly opts)\<rparr>)
                     (Steps spec)\<rparr>"

definition configMapVolume :: "string \<Rightarrow> KeyToPath list \<Rightarrow> MountOptions \<Rightarrow> Volume" where
  "configMapVolume name items opts =
     \<lparr>volName = ''configmap-'' @ sanitizeVolumeName name,
      volSource = ConfigMapVolume name items (Optional opts) (DefaultMode opts)\<rparr>"

definition WithConfigMap ::
  "string \<Rightarrow> string \<Rightarrow> KeyToPath list \<Rightarrow> MountOptions option \<Rightarrow> PipelineRunBuilder \<Rightarrow> PipelineRunBuilder" where
  "WithConfigMap name mountPath items opts b =
     (let o' = resolveOptions opts
      in updateTask (TaskName o') (mountVolume o' (configMapVolume name items o') mountPath) b)"

definition secretVolume :: "(nat \<Rightarrow> 8 word) \<Rightarrow> string \<Rightarrow> KeyToPath list \<Rightarrow> MountOptions \<Rightarrow> Volume" where
  "secretVolume rnd name items opts =
     \<lparr>volName = ''secret-'' @ sanitizeVolumeName name @ ''-'' @ RandomString 8 rnd,
      volSource = SecretVolume name items (Optional opts) (DefaultMode opts)\<rparr>"

definition WithSecret ::
  "(nat \<Rightarrow> 8 word) \<Rightarrow> string \<Rightarrow> string \<Rightarrow> KeyToPath list \<Rightarrow> MountOptions option \<Rightarrow> PipelineRunBuilder
     \<Rightarrow> PipelineRunBuilder" where
  "WithSecret rnd name mountPath items opts b =
     (let o' = resolveOptions opts
      in updateTask (TaskName o') (mountVolume o' (secretVolume rnd name items o') mountPath) b)"

definition WithParams :: "(string \<times> string) list \<Rightarrow> PipelineRunBuilder \<Rightarrow> PipelineRunBuilder" where
  "WithParams params b = b\<lparr>pipelineRun := (pipelineRun b)\<lparr>Params := Params (pipelineRun b) @ params\<rparr>\<rparr>"

definition WithServiceAccount :: "string \<Rightarrow> PipelineRunBuilder \<Rightarrow> PipelineRunBuilder" where
  "WithServiceAccount serviceAccount b =
     b\<lparr>pipelineRun := (pipelineRun b)\<lparr>ServiceAccountName := serviceAccount\<rparr>\<rparr>"

definition oneHour :: int where
  "oneHour = 60 * 60 * 10 ^ 9"

definition WithTimeouts :: "TimeoutFields option \<Rightarrow> PipelineRunBuilder \<Rightarrow> PipelineRunBuilder" where
  "WithTimeouts timeouts b =
     (let empty = \<lparr>timeoutPipeline = None, timeoutTasks = None, timeoutFinally = None\<rparr>
      in b\<lparr>pipelineRun := (pipelineRun b)\<lparr>Timeouts :=
            (if timeouts = None \<or> timeouts = Some empty then Some (empty\<lparr>timeoutPipeline := Some oneHour\<rparr>) else timeouts)\<rparr>\<rparr>)"

text \<open>
  An object as \<open>WithObjectReferences\<close> and \<open>WithObjectSpecsAsJson\<close> see it: its kind, and the JSON of
  its \<open>Spec\<close> field, where it has one (\<open>None\<close>) and where it can be serialised (\<open>Inl\<close>).
\<close>

record clientObject =
  objKind :: string
  objNamespace :: string
  objName :: string
  objSpecJson :: "(error + string) option"

text \<open>
  \<open>unicode.ToLower\<close> of the first rune of a kind. Kinds are ASCII; an empty kind makes the index
  expression \<open>name[0]\<close> panic.
\<close>

definition lowerFirst :: "string \<Rightarrow> error + string" where
  "lowerFirst kind =
     (case kind of
        [] \<Rightarrow> Inl (Panic ''index out of range [0] with length 0'')
      | c # cs \<Rightarrow> Inr ((if 65 \<le> byte_of c \<and> byte_of c \<le> 90 then char_of (byte_of c + 32) else c) # cs))"

fun WithObjectReferences :: "clientObject list \<Rightarrow> PipelineRunBuilder \<Rightarrow> error + PipelineRunBuilder" where
  "WithObjectReferences [] b = Inr b"
| "WithObjectReferences (x # xs) b =
     (case lowerFirst (objKind x) of
        Inl e \<Rightarrow> Inl e
      | Inr name \<Rightarrow> WithObjectReferences xs (WithParams [(name, objNamespace x @ ''/'' @ objName x)] b))"

definition appendErr :: "error \<Rightarrow> PipelineRunBuilder \<Rightarrow> PipelineRunBuilder" where
  "appendErr e b = b\<lparr>builderErr := builderErr b @ [e]\<rparr>"

fun WithObjectSpecsAsJson :: "clientObject list \<Rightarrow> PipelineRunBuilder \<Rightarrow> error + PipelineRunBuilder" where
  "WithObjectSpecsAsJson [] b = Inr b"
| "WithObjectSpecsAsJson (x # xs) b =
     (case lowerFirst (objKind x) of
        Inl e \<Rightarrow> Inl e
      | Inr name \<Rightarrow>
          (case objSpecJson x of
             None \<Rightarrow>
               WithObjectSpecsAsJson xs (appendErr (Err (''failed to extract spec for object: '' @ name)) b)
           | Some (Inl e) \<Rightarrow>
               WithObjectSpecsAsJson xs
                 (appendErr (Err (''failed to serialize spec of object '' @ name @ '' to JSON: '' @ Error e)) b)
           | Some (Inr jsonData) \<Rightarrow> WithObjectSpecsAsJson xs (WithParams [(name, jsonData)] b)))"

text \<open>The field paths \<open>metadata.labels['...']\<close> of the log analyzer's environment.\<close>

definition labelPath :: "string \<Rightarrow> string" where
  "labelPath label = ''metadata.labels['' @ [CHR 0x27] @ label @ [CHR 0x27] @ '']''"

definition logAnalyzerStep :: "string \<Rightarrow> Step" where
  "logAnalyzerStep kiteAPIURL =
     \<lparr>stepName = ''log-analyzer'', Image = ''quay.io/konflux-ci/renovate-log-analyzer:latest'', Script = [],
      stepSecurity = restricted, Requests = [], Limits = [],
      Env = [EnvFieldRef ''POD_NAME'' ''metadata.name'',
             EnvFieldRef ''NAMESPACE'' (labelPath ''mintmaker.appstudio.redhat.com/namespace''),
             EnvFieldRef ''GIT_HOST'' (labelPath ''mintmaker.appstudio.redhat.com/git-host''),
             EnvFieldRef ''REPOSITORY'' (labelPath ''mintmaker.appstudio.redhat.com/repository''),
             EnvFieldRef ''BRANCH'' (labelPath ''mintmaker.appstudio.redhat.com/branch''),
             EnvFieldRef ''PIPELINE_RUN'' (labelPath ''tekton.dev/pipelineRun''),
             EnvValue ''SSL_CERT_FILE'' ''/etc/pki/kite-ca/ca.crt'',
             EnvValue ''KITE_API_URL'' kiteAPIURL,
             EnvValue ''LOG_FILE'' ''/workspace/shared-data/renovate-logs.json'',
             EnvValue ''KITE_AUTH_TOKEN_FILE'' ''/var/run/secrets/kite/token''],
      VolumeMounts = []\<rparr>"

definition WithKiteIntegration :: "string \<Rightarrow> PipelineRunBuilder \<Rightarrow> PipelineRunBuilder" where
  "WithKiteIntegration kiteAPIURL b =
     updateTask ''build'' (\<lambda>spec. spec\<lparr>Steps := Steps spec @ [logAnalyzerStep kiteAPIURL]\<rparr>) b"

section \<open>Invariants of the builder\<close>

text \<open>
  A task is well formed when every mount of a step refers to a volume of the task; a step is locked
  down when it drops all capabilities and cannot escalate.
\<close>

definition mounts_declared :: "TaskSpec \<Rightarrow> bool" where
  "mounts_declared spec \<longleftrightarrow>
     (\<forall>step \<in> set (Steps spec). \<forall>m \<in> set (VolumeMounts step). mountName m \<in> volName ` set (Volumes spec))"

definition locked_down :: "Step \<Rightarrow> bool" where
  "locked_down step \<longleftrightarrow> Drop (stepSecurity step) = [''ALL''] \<and> \<not> AllowPrivilegeEscalation (stepSecurity step)"

definition good_spec :: "TaskSpec \<Rightarrow> bool" where
  "good_spec spec \<longleftrightarrow> mounts_declared spec \<and> list_all locked_down (Steps spec)"

definition good_run :: "PipelineRun \<Rightarrow> bool" where
  "good_run p \<longleftrightarrow> list_all (\<lambda>t. case taskSpec t of None \<Rightarrow> True | Some spec \<Rightarrow> good_spec spec) (Tasks p)"

text \<open>The specification of the task of a name, and what a step of it can see.\<close>

fun specNamed :: "string \<Rightarrow> PipelineTask list \<Rightarrow> TaskSpec option" where
  "specNamed name [] = None"
| "specNamed name (task # tasks) =
     (if taskName task = name \<and> taskSpec task \<noteq> None then taskSpec task else specNamed name tasks)"

definition sources :: "TaskSpec \<Rightarrow> Step \<Rightarrow> VolumeSource set" where
  "sources spec step = {volSource v | v. v \<in> set (Volumes spec) \<and> volName v \<in> mountName ` set (VolumeMounts step)}"

lemma specNamed_task_loop [simp]:
  "specNamed n (task_loop name f tasks) =
     (if n = name then map_option f (specNamed n tasks) else specNamed n tasks)"
  by (induction tasks) (auto split: option.splits)

lemma good_task_loop:
  "(\<And>spec. good_spec spec \<Longrightarrow> good_spec (f spec)) \<Longrightarrow>
   list_all (\<lambda>t. case taskSpec t of None \<Rightarrow> True | Some spec \<Rightarrow> good_spec spec) tasks \<Longrightarrow>
   list_all (\<lambda>t. case taskSpec t of None \<Rightarrow> True | Some spec \<Rightarrow> good_spec spec) (task_loop name f tasks)"
  by (induction tasks) (auto split: option.splits)

lemma good_updateTask:
  "(\<And>spec. good_spec spec \<Longrightarrow> good_spec (f spec)) \<Longrightarrow> good_run (pipelineRun b) \<Longrightarrow>
   good_run (pipelineRun (updateTask name f b))"
  by (simp add: updateTask_def good_run_def good_task_loop)

lemma stepName_mountStep [simp]: "stepName (mountStep names m step) = stepName step"
  by (simp add: mountStep_def)

lemma stepSecurity_mountStep [simp]: "stepSecurity (mountStep names m step) = stepSecurity step"
  by (simp add: mountStep_def)

lemma good_mountVolume: "good_spec spec \<Longrightarrow> good_spec (mountVolume opts volume path spec)"
  by (auto simp: good_spec_def mounts_declared_def mountVolume_def list_all_iff locked_down_def
      mountStep_def split: if_splits)

lemma locked_down_logAnalyzer [simp]: "locked_down (logAnalyzerStep url)"
  by (simp add: locked_down_def logAnalyzerStep_def restricted_def)

lemma VolumeMounts_logAnalyzer [simp]: "VolumeMounts (logAnalyzerStep url) = []"
  by (simp add: logAnalyzerStep_def)

lemma good_addStep:
  "good_spec spec \<Longrightarrow> locked_down step \<Longrightarrow> VolumeMounts step = [] \<Longrightarrow>
   good_spec (spec\<lparr>Steps := Steps spec @ [step]\<rparr>)"
  by (auto simp: good_spec_def mounts_declared_def)

section \<open>Mounting\<close>

text \<open>
  The common contract of \<open>WithConfigMap\<close> and \<open>WithSecret\<close>: they add one volume to the selected task
  and mount it into the selected steps, and nothing else.
\<close>

locale volume_mounting =
  fixes mount :: "string \<Rightarrow> string \<Rightarrow> KeyToPath list \<Rightarrow> MountOptions option \<Rightarrow> PipelineRunBuilder \<Rightarrow> PipelineRunBuilder"
    and volumeOf :: "string \<Rightarrow> KeyToPath list \<Rightarrow> MountOptions \<Rightarrow> Volume"
  assumes mounts: "mount name path items opts b =
    updateTask (TaskName (resolveOptions opts))
      (mountVolume (resolveOptions opts) (volumeOf name items (resolveOptions opts)) path) b"
begin

lemma keeps_good: "good_run (pipelineRun b) \<Longrightarrow> good_run (pipelineRun (mount name path items opts b))"
  by (simp add: mounts good_updateTask good_mountVolume)

lemma keeps_meta: "plrMeta (pipelineRun (mount name path items opts b)) = plrMeta (pipelineRun b)"
  by (simp add: mounts updateTask_def)

lemma keeps_err: "builderErr (mount name path items opts b) = builderErr b"
  by (simp add: mounts updateTask_def)

text \<open>
  With a fresh volume name, the steps selected by the options see the new source, and no step sees
  anything else than before.
\<close>

lemma exposes:
  assumes spec: "specNamed (TaskName (resolveOptions opts)) (Tasks (pipelineRun b)) = Some spec"
    and "mounts_declared spec"
    and fresh: "volName (volumeOf name items (resolveOptions opts)) \<notin> volName ` set (Volumes spec)"
  shows "\<exists>spec'. specNamed (TaskName (resolveOptions opts)) (Tasks (pipelineRun (mount name path items opts b))) = Some spec' \<and>
    map stepName (Steps spec') = map stepName (Steps spec) \<and>
    (\<forall>i < length (Steps spec). sources spec' (Steps spec' ! i) = sources spec (Steps spec ! i) \<union>
       (if StepNames (resolveOptions opts) = [] \<or> stepName (Steps spec ! i) \<in> set (StepNames (resolveOptions opts))
        then {volSource (volumeOf name items (resolveOptions opts))} else {}))"
proof -
  let ?o = "resolveOptions opts"
  let ?v = "volumeOf name items ?o"
  let ?spec = "mountVolume ?o ?v path spec"
  have names: "map stepName (Steps ?spec) = map stepName (Steps spec)"
    by (simp add: mountVolume_def o_def)
  have "sources ?spec (Steps ?spec ! i) = sources spec (Steps spec ! i) \<union>
     (if StepNames ?o = [] \<or> stepName (Steps spec ! i) \<in> set (StepNames ?o) then {volSource ?v} else {})"
    if "i < length (Steps spec)" for i
  proof -
    have "\<forall>m \<in> set (VolumeMounts (Steps spec ! i)). mountName m \<in> volName ` set (Volumes spec)"
      using assms(2) nth_mem [OF that] unfolding mounts_declared_def by blast
    with fresh have "volName ?v \<notin> mountName ` set (VolumeMounts (Steps spec ! i))" by auto
    moreover have "v \<in> set (Volumes spec) \<Longrightarrow> volName v \<noteq> volName ?v" for v
      using fresh image_eqI [of _ volName v] by metis
    ultimately show ?thesis using that
      by (auto simp: sources_def mountVolume_def mountStep_def)
  qed
  with names spec show ?thesis by (simp add: mounts updateTask_def)
qed

end

interpretation cm: volume_mounting WithConfigMap configMapVolume
  by unfold_locales (simp add: WithConfigMap_def Let_def)

interpretation sec: volume_mounting "WithSecret rnd" "secretVolume rnd" for rnd
  by unfold_locales (simp add: WithSecret_def Let_def)

section \<open>Any sequence of operations\<close>

datatype builder_op =
    OpAnnotations "string gomap"
  | OpFinalizer string
  | OpLabels "string gomap"
  | OpConfigMap string string "KeyToPath list" "MountOptions option"
  | OpSecret "nat \<Rightarrow> 8 word" string string "KeyToPath list" "MountOptions option"
  | OpParams "(string \<times> string) list"
  | OpServiceAccount string
  | OpTimeouts "TimeoutFields option"
  | OpKite string

fun apply_op :: "builder_op \<Rightarrow> PipelineRunBuilder \<Rightarrow> PipelineRunBuilder" where
  "apply_op (OpAnnotations m) = WithAnnotations m"
| "apply_op (OpFinalizer f) = WithFinalizer f"
| "apply_op (OpLabels m) = WithLabels m"
| "apply_op (OpConfigMap n p i o') = WithConfigMap n p i o'"
| "apply_op (OpSecret rnd n p i o') = WithSecret rnd n p i o'"
| "apply_op (OpParams ps) = WithParams ps"
| "apply_op (OpServiceAccount s) = WithServiceAccount s"
| "apply_op (OpTimeouts t) = WithTimeouts t"
| "apply_op (OpKite u) = WithKiteIntegration u"

definition good_builder :: "string \<Rightarrow> string \<Rightarrow> PipelineRunBuilder \<Rightarrow> bool" where
  "good_builder name namespace b \<longleftrightarrow> good_run (pipelineRun b) \<and> builderErr b = []
     \<and> Name (plrMeta (pipelineRun b)) = name \<and> Namespace (plrMeta (pipelineRun b)) = namespace"

lemma good_builder_new [builder_keep]: "good_builder name namespace (NewPipelineRunBuilder env script name namespace)"
  by (simp add: good_builder_def good_run_def good_spec_def mounts_declared_def locked_down_def restricted_def
      NewPipelineRunBuilder_def prepareDbStep_def prepareRpmCertStep_def renovateStep_def logSanitizerStep_def
      newMeta_def)

lemma good_builder_WithConfigMap [builder_keep]:
  "good_builder name namespace b \<Longrightarrow> good_builder name namespace (WithConfigMap n p i o' b)"
  by (simp add: good_builder_def cm.keeps_good cm.keeps_meta cm.keeps_err)

lemma good_builder_WithSecret [builder_keep]:
  "good_builder name namespace b \<Longrightarrow> good_builder name namespace (WithSecret rnd n p i o' b)"
  by (simp add: good_builder_def sec.keeps_good sec.keeps_meta sec.keeps_err)

lemma good_builder_WithKite [builder_keep]:
  "good_builder name namespace b \<Longrightarrow> good_builder name namespace (WithKiteIntegration url b)"
proof -
  assume b: "good_builder name namespace b"
  then have "good_run (pipelineRun (WithKiteIntegration url b))"
    unfolding WithKiteIntegration_def good_builder_def
    by (intro good_updateTask good_addStep) simp_all
  with b show ?thesis by (simp add: good_builder_def WithKiteIntegration_def updateTask_def)
qed

lemma good_builder_fields [builder_keep]:
  assumes "good_builder name namespace b"
  shows "good_builder name namespace (WithAnnotations m b)"
    "good_builder name namespace (WithLabels m b)"
    "good_builder name namespace (WithFinalizer f b)"
    "good_builder name namespace (WithParams ps b)"
    "good_builder name namespace (WithServiceAccount s b)"
    "good_builder name namespace (WithTimeouts t b)"
  using assms
  by (simp_all add: good_builder_def good_run_def WithAnnotations_def WithLabels_def WithFinalizer_def
      updateMeta_def WithParams_def WithServiceAccount_def WithTimeouts_def Let_def)

lemma good_builder_apply [builder_keep]:
  "good_builder name namespace b \<Longrightarrow> good_builder name namespace (apply_op op b)"
  by (cases op) (auto intro: builder_keep)


text \<open>
  C16: mounting a secret under a fresh volume name shows it to exactly the steps the options
  select (all steps when they select none) and changes nothing of what any step could see before.
\<close>

theorem WithSecret_exposes_exactly:
  assumes "specNamed (TaskName (resolveOptions opts)) (Tasks (pipelineRun b)) = Some spec"
    and "mounts_declared spec"
    and "volName (secretVolume rnd name items (resolveOptions opts)) \<notin> volName ` set (Volumes spec)"
  shows "\<exists>spec'. specNamed (TaskName (resolveOptions opts)) (Tasks (pipelineRun (WithSecret rnd name path items opts b))) = Some spec' \<and>
    map stepName (Steps spec') = map stepName (Steps spec) \<and>
    (\<forall>i < length (Steps spec). sources spec' (Steps spec' ! i) = sources spec (Steps spec ! i) \<union>
       (if StepNames (resolveOptions opts) = [] \<or> stepName (Steps spec ! i) \<in> set (StepNames (resolveOptions opts))
        then {SecretVolume name items (Optional (resolveOptions opts)) (DefaultMode (resolveOptions opts))} else {}))"
  using sec.exposes [OF assms, of path] by (simp only: secretVolume_def Volume.select_convs)

definition renovateOnly :: "MountOptions option" where
  "renovateOnly = Some (WithStepNames [''renovate''] (WithTaskName ''build'' NewMountOptions))"

lemma resolve_renovateOnly [simp]:
  "TaskName (resolveOptions renovateOnly) = ''build''" "StepNames (resolveOptions renovateOnly) = [''renovate'']"
  by (simp_all add: renovateOnly_def resolveOptions_def NewMountOptions_def WithStepNames_def WithTaskName_def)

theorem WithSecret_exposes_exactly_witness:
  "\<exists>spec'. specNamed ''build'' (Tasks (pipelineRun (WithSecret (\<lambda>_. 0) ''s'' ''/p'' [] renovateOnly
      (NewPipelineRunBuilder (\<lambda>_. []) [] ''n'' ''ns'')))) = Some spec' \<and>
    sources spec' (Steps spec' ! 0) = {} \<and> SecretVolume ''s'' [] (Some False) (Some 420) \<in> sources spec' (Steps spec' ! 2)"
proof -
  let ?b = "NewPipelineRunBuilder (\<lambda>_. []) [] ''n'' ''ns''"
  have o: "Optional (resolveOptions renovateOnly) = Some False" "DefaultMode (resolveOptions renovateOnly) = Some 420"
    by (simp_all add: renovateOnly_def resolveOptions_def NewMountOptions_def WithStepNames_def WithTaskName_def)
  obtain spec where spec: "specNamed ''build'' (Tasks (pipelineRun ?b)) = Some spec"
    and steps: "map stepName (Steps spec) = [''prepare-db'', ''prepare-rpm-cert'', ''renovate'', ''log-sanitizer'']"
    and vols: "Volumes spec = []" and len: "length (Steps spec) = 4" and "mounts_declared spec"
    by (simp add: NewPipelineRunBuilder_def prepareDbStep_def prepareRpmCertStep_def renovateStep_def
        logSanitizerStep_def mounts_declared_def)
  then obtain spec' where spec': "specNamed ''build'' (Tasks (pipelineRun (WithSecret (\<lambda>_. 0) ''s'' ''/p'' [] renovateOnly ?b))) = Some spec'"
    "\<forall>i < 4. sources spec' (Steps spec' ! i) = sources spec (Steps spec ! i) \<union>
       (if stepName (Steps spec ! i) = ''renovate'' then {SecretVolume ''s'' [] (Some False) (Some 420)} else {})"
    using WithSecret_exposes_exactly [of renovateOnly ?b spec "\<lambda>_. 0" "''s''" "[]" "''/p''"] by (auto simp: o)
  have "stepName (Steps spec ! 0) = ''prepare-db''" "stepName (Steps spec ! 2) = ''renovate''"
    using arg_cong [OF steps, of "\<lambda>l. l ! 0"] arg_cong [OF steps, of "\<lambda>l. l ! 2"] len by (simp_all add: nth_map)
  then have "sources spec' (Steps spec' ! 0) = {} \<and> SecretVolume ''s'' [] (Some False) (Some 420) \<in> sources spec' (Steps spec' ! 2)"
    using spec'(2) [rule_format, of 0] spec'(2) [rule_format, of 2] vols by (simp add: sources_def)
  with spec'(1) show ?thesis by blast
qed

end
