(* ===== verification/PipelineRuns.thy ===== *)
theory PipelineRuns
  imports BaseComponent Tekton
begin

text \<open>
  The helpers of the reconciler in \<open>internal/controller/dependencyupdatecheck_controller.go\<close> and
  \<open>internal/controller/common.go\<close>, up to \<open>createPipelineRun\<close>, which creates the objects of one
  run. Its deferred function is modelled as what runs after the body: the body returns the list
  \<open>resources\<close> as it stands when it returns, along with its result.
\<close>

section \<open>Selecting components\<close>

fun firstNamed :: "string \<Rightarrow> Component list \<Rightarrow> Component list" where
  "firstNamed name [] = []"
| "firstNamed name (c # cs) = (if name = Name (compMeta c) then [c] else firstNamed name cs)"

definition componentsOfApplication :: "Component list \<Rightarrow> ApplicationSpec \<Rightarrow> Component list" where
  "componentsOfApplication items application =
     (let appMatching = Filter items (\<lambda>c. appApplication application = Application c)
      in if appComponents application = [] then appMatching
         else concat (map (\<lambda>name. firstNamed name appMatching) (appComponents application)))"

definition componentsOfNamespace :: "NamespaceSpec \<Rightarrow> Component list \<Rightarrow> Component list" where
  "componentsOfNamespace ns items =
     (if nsApplications ns = [] then items
      else concat (map (componentsOfApplication items) (nsApplications ns)))"

fun filtered_loop ::
  "'w env \<Rightarrow> NamespaceSpec list \<Rightarrow> Component list \<Rightarrow> ('w, error + Component list) prog" where
  "filtered_loop E [] components = return (Inr components)"
| "filtered_loop E (ns # namespaces) components =
     onOk (List_Components E (nsNamespace ns)) (\<lambda>items.
     filtered_loop E namespaces (components @ componentsOfNamespace ns items))"

definition getFilteredComponents :: "'w env \<Rightarrow> NamespaceSpec list \<Rightarrow> ('w, error + Component list) prog" where
  "getFilteredComponents E namespaces = filtered_loop E namespaces []"

section \<open>Lookups\<close>

definition getCAConfigMap :: "'w env \<Rightarrow> ('w, error + ConfigMap option) prog" where
  "getCAConfigMap E =
     onOk (List_ConfigMaps E MintMakerNamespaceName [(''config.openshift.io/inject-trusted-cabundle'', ''true'')]) (\<lambda>items.
     return (Inr (case items of [] \<Rightarrow> None | m # _ \<Rightarrow> Some m)))"

definition InternalSecretLabelName :: string where
  "InternalSecretLabelName = ''appstudio.redhat.com/internal''"

text \<open>What one secret of the service account adds: nothing, its registries, or a parse error.\<close>

definition mergeSecret :: "(string \<Rightarrow> string option) \<Rightarrow> Secret \<Rightarrow> json gomap \<Rightarrow> error + json gomap" where
  "mergeSecret ft secret mergedAuths =
     (if secType secret \<noteq> SecretTypeDockerConfigJson then Inr mergedAuths
      else if hasEntry (Labels (secMeta secret)) InternalSecretLabelName ''true'' then Inr mergedAuths
      else case map_of (Data secret) DockerConfigJsonKey of
        None \<Rightarrow> Inr mergedAuths
      | Some config \<Rightarrow>
          (case UnmarshalMap ft config of
             None \<Rightarrow> Inl (Err ''cannot unmarshal docker config'')
           | Some m \<Rightarrow>
               (case map_of (case m of None \<Rightarrow> [] | Some kvs \<Rightarrow> kvs) ''auths'' of
                  Some (JObj auths) \<Rightarrow> Inr (storeAll auths mergedAuths)
                | _ \<Rightarrow> Inr mergedAuths)))"

fun dockerSecrets_loop :: "'w env \<Rightarrow> string \<Rightarrow> string list \<Rightarrow> json gomap \<Rightarrow> ('w, error + json gomap) prog" where
  "dockerSecrets_loop E ns [] mergedAuths = return (Inr mergedAuths)"
| "dockerSecrets_loop E ns (name # names) mergedAuths =
     Get_Secret E ns name \<bind> (\<lambda>r.
     case r of
       Inl e \<Rightarrow> if IsNotFound e then dockerSecrets_loop E ns names mergedAuths else return (Inl e)
     | Inr secret \<Rightarrow>
         (case mergeSecret (floatText E) secret mergedAuths of
            Inl e \<Rightarrow> return (Inl e)
          | Inr merged \<Rightarrow> dockerSecrets_loop E ns names merged))"

text \<open>\<open>getMergedDockerConfigJson\<close>: \<open>None\<close> is the \<open>nil\<close> slice.\<close>

definition getMergedDockerConfigJson :: "'w env \<Rightarrow> 'w GitComponent \<Rightarrow> ('w, error + string option) prog" where
  "getMergedDockerConfigJson E c =
     Get_ServiceAccount E (GetNamespace c) (''build-pipeline-'' @ GetName c) \<bind> (\<lambda>r.
     case r of
       Inl e \<Rightarrow> return (if IsNotFound e then Inr None else Inl e)
     | Inr serviceAccount \<Rightarrow>
         onOk (dockerSecrets_loop E (GetNamespace c) (saSecrets serviceAccount) []) (\<lambda>mergedAuths.
         return (Inr (if mergedAuths = [] then None else Some (Marshal (JObj [(''auths'', JObj mergedAuths)]))))))"

fun pipelineRunCompleted_loop :: "Condition list \<Rightarrow> bool" where
  "pipelineRunCompleted_loop [] = False"
| "pipelineRunCompleted_loop (c # cs) =
     (if condType c = ''Succeeded'' then condStatus c \<noteq> ''Unknown'' else pipelineRunCompleted_loop cs)"

definition pipelineRunCompleted :: "PipelineRun \<Rightarrow> bool" where
  "pipelineRunCompleted pr = pipelineRunCompleted_loop (Conditions pr)"

definition repoBranchSelector :: "string \<Rightarrow> string \<Rightarrow> string \<Rightarrow> string gomap" where
  "repoBranchSelector host repository branch =
     [(MintMakerRepoBranchHashLabel, RepoBranchHash host repository branch)]"

definition hasActivePipelineRun :: "'w env \<Rightarrow> string \<Rightarrow> string \<Rightarrow> string \<Rightarrow> ('w, error + bool) prog" where
  "hasActivePipelineRun E host repository branch =
     onOk (List_PipelineRuns E MintMakerNamespaceName (repoBranchSelector host repository branch)) (\<lambda>items.
     return (Inr (list_ex (\<lambda>pr. \<not> pipelineRunCompleted pr) items)))"

section \<open>Building the pipeline run\<close>

definition runLabels :: "'w GitComponent \<Rightarrow> string \<Rightarrow> string gomap" where
  "runLabels c branch =
     [(''mintmaker.appstudio.redhat.com/application'', GetApplication c),
      (''mintmaker.appstudio.redhat.com/component'', GetName c),
      (''mintmaker.appstudio.redhat.com/namespace'', GetNamespace c),
      (''mintmaker.appstudio.redhat.com/git-platform'', GetPlatform c),
      (''mintmaker.appstudio.redhat.com/git-host'', GetHost c),
      (''mintmaker.appstudio.redhat.com/repository'', NormalizeLabelValue (GetRepository c)),
      (''mintmaker.appstudio.redhat.com/branch'', NormalizeLabelValue branch),
      (MintMakerRepoBranchHashLabel, RepoBranchHash (GetHost c) (GetRepository c) branch)]"

definition keyToPath :: "string \<Rightarrow> string \<Rightarrow> KeyToPath" where
  "keyToPath k p = \<lparr>Key = k, keyPath = p\<rparr>"

definition mountInto :: "string \<Rightarrow> MountOptions" where
  "mountInto step = WithStepNames [step] (WithTaskName ''build'' NewMountOptions)"

definition mountReadOnlyInto :: "string \<Rightarrow> MountOptions" where
  "mountReadOnlyInto step = WithReadOnly True (mountInto step)"

text \<open>
  The calls of the builder in \<open>createPipelineRun\<close>. The optional parts are the RPM secret, the CA
  config map, the docker config and Kite; each secret comes with the random bytes of its volume.
\<close>

record runParts =
  tokenRandom :: "nat \<Rightarrow> 8 word"
  rpmPart :: "(nat \<Rightarrow> 8 word) option"
  caPart :: "string option"
  dockerPart :: "(string \<times> (nat \<Rightarrow> 8 word)) option"
  kitePart :: "(string \<times> string \<times> (nat \<Rightarrow> 8 word)) option"

definition buildBase :: "'w env \<Rightarrow> string \<Rightarrow> 'w GitComponent \<Rightarrow> string \<Rightarrow> PipelineRunBuilder" where
  "buildBase E name c branch =
     WithServiceAccount ''mintmaker-controller-manager''
       (WithTimeouts None
         (WithLabels (runLabels c branch)
           (NewPipelineRunBuilder (getenv E) (logSanitizerScript E) name MintMakerNamespaceName)))"

definition buildConfig :: "string \<Rightarrow> PipelineRunBuilder \<Rightarrow> PipelineRunBuilder" where
  "buildConfig name =
     WithConfigMap name ''/etc/renovate/config'' [keyToPath ''config.js'' ''config.js''] (Some (mountInto ''renovate''))"

definition buildToken :: "(nat \<Rightarrow> 8 word) \<Rightarrow> string \<Rightarrow> PipelineRunBuilder \<Rightarrow> PipelineRunBuilder" where
  "buildToken rnd name =
     WithSecret rnd name ''/etc/renovate/secret'' [keyToPath ''renovate-token'' ''renovate-token'']
       (Some (mountInto ''renovate''))"

definition buildRpm :: "(nat \<Rightarrow> 8 word) option \<Rightarrow> string \<Rightarrow> PipelineRunBuilder \<Rightarrow> PipelineRunBuilder" where
  "buildRpm part name b =
     (case part of
        None \<Rightarrow> b
      | Some rnd \<Rightarrow>
          WithSecret rnd (name @ ''-rpm-key'') ''/etc/renovate/secret''
            [keyToPath ''activationkey'' ''rpm-activationkey'', keyToPath ''org'' ''rpm-org'']
            (Some (mountInto ''prepare-rpm-cert'')) b)"

definition buildCA :: "string option \<Rightarrow> PipelineRunBuilder \<Rightarrow> PipelineRunBuilder" where
  "buildCA part b =
     (case part of
        None \<Rightarrow> b
      | Some ca \<Rightarrow>
          WithConfigMap ca ''/etc/pki/ca-trust/extracted/pem'' [keyToPath ''ca-bundle.crt'' ''tls-ca-bundle.pem'']
            (Some (mountReadOnlyInto ''renovate'')) b)"

definition buildDocker :: "(string \<times> (nat \<Rightarrow> 8 word)) option \<Rightarrow> PipelineRunBuilder \<Rightarrow> PipelineRunBuilder" where
  "buildDocker part b =
     (case part of
        None \<Rightarrow> b
      | Some (secretName, rnd) \<Rightarrow>
          WithSecret rnd secretName ''/home/renovate/.docker'' [keyToPath DockerConfigJsonKey ''config.json'']
            (Some (mountReadOnlyInto ''renovate'')) b)"

definition buildKite :: "(string \<times> string \<times> (nat \<Rightarrow> 8 word)) option \<Rightarrow> PipelineRunBuilder \<Rightarrow> PipelineRunBuilder" where
  "buildKite part b =
     (case part of
        None \<Rightarrow> b
      | Some (secretName, apiURL, rnd) \<Rightarrow>
          WithSecret rnd secretName ''/var/run/secrets/kite'' [keyToPath ''token'' ''token'']
            (Some (mountReadOnlyInto ''log-analyzer''))
            (WithConfigMap ''openshift-service-ca.crt'' ''/etc/pki/kite-ca'' [keyToPath ''service-ca.crt'' ''ca.crt'']
              (Some (mountReadOnlyInto ''log-analyzer''))
              (WithKiteIntegration apiURL b)))"

definition buildPipelineRun ::
  "'w env \<Rightarrow> string \<Rightarrow> 'w GitComponent \<Rightarrow> string \<Rightarrow> runParts \<Rightarrow> error + PipelineRun" where
  "buildPipelineRun E name c branch parts =
     Build (buildKite (kitePart parts) (buildDocker (dockerPart parts) (buildCA (caPart parts)
       (buildRpm (rpmPart parts) name (buildToken (tokenRandom parts) name
         (buildConfig name (buildBase E name c branch)))))))"

section \<open>Creating the objects of a run\<close>

text \<open>\<open>if err != nil { return nil, err }\<close> inside the body, with the resources collected so far.\<close>

definition orReturn ::
  "obj list \<Rightarrow> ('w, error + 'a) prog \<Rightarrow> ('a \<Rightarrow> ('w, obj list \<times> (error + 'b)) prog) \<Rightarrow> ('w, obj list \<times> (error + 'b)) prog"
where
  "orReturn resources m f = m \<bind> (\<lambda>r. case r of Inl e \<Rightarrow> return (resources, Inl e) | Inr x \<Rightarrow> f x)"

definition renovateSecretFor :: "string \<Rightarrow> string option \<Rightarrow> string option \<Rightarrow> Secret" where
  "renovateSecretFor name token docker =
     \<lparr>secMeta = newMeta name MintMakerNamespaceName, secType = SecretTypeOpaque,
      Data = (case docker of None \<Rightarrow> [] | Some config \<Rightarrow> [(DockerConfigJsonKey, config)]),
      StringData = (case token of None \<Rightarrow> [] | Some t \<Rightarrow> [(''renovate-token'', t)])\<rparr>"

definition configMapFor :: "string \<Rightarrow> string \<Rightarrow> ConfigMap" where
  "configMapFor name renovateConfig =
     \<lparr>cmMeta = newMeta name MintMakerNamespaceName,
      cmData = [(''config.js'', ''module.exports = '' @ renovateConfig)]\<rparr>"

definition rpmSecretFor :: "string \<Rightarrow> string \<times> string \<Rightarrow> Secret" where
  "rpmSecretFor name key =
     \<lparr>secMeta = newMeta (name @ ''-rpm-key'') MintMakerNamespaceName, secType = SecretTypeOpaque, Data = [],
      StringData = [(''activationkey'', fst key), (''org'', snd key)]\<rparr>"

definition ownSecret :: "'w env \<Rightarrow> PipelineRun \<Rightarrow> Secret \<Rightarrow> ('w, error + unit) prog" where
  "ownSecret E plr s =
     (case setOwnerReference E plr (secMeta s) of
        Inl e \<Rightarrow> return (Inl e)
      | Inr m \<Rightarrow> Update_Secret E (s\<lparr>secMeta := m\<rparr>))"

definition ownConfigMap :: "'w env \<Rightarrow> PipelineRun \<Rightarrow> ConfigMap \<Rightarrow> ('w, error + unit) prog" where
  "ownConfigMap E plr s =
     (case setOwnerReference E plr (cmMeta s) of
        Inl e \<Rightarrow> return (Inl e)
      | Inr m \<Rightarrow> Update_ConfigMap E (s\<lparr>cmMeta := m\<rparr>))"

text \<open>The owner references, from the created pipeline run on; the resources are given up at the end.\<close>

definition ownAll ::
  "'w env \<Rightarrow> obj list \<Rightarrow> PipelineRun \<Rightarrow> Secret \<Rightarrow> Secret option \<Rightarrow> ConfigMap \<Rightarrow> ('w, obj list \<times> (error + PipelineRun)) prog"
where
  "ownAll E resources plr renovateSecret rpmSecret renovateConfigMap =
     orReturn resources (ownSecret E plr renovateSecret) (\<lambda>_.
     orReturn resources (case rpmSecret of None \<Rightarrow> return (Inr ()) | Some s \<Rightarrow> ownSecret E plr s) (\<lambda>_.
     orReturn resources (ownConfigMap E plr renovateConfigMap) (\<lambda>_.
     return ([], Inr plr))))"

text \<open>The random bytes a secret's volume name needs, if there is such a secret.\<close>

definition drawIf :: "'w env \<Rightarrow> bool \<Rightarrow> ('w, (nat \<Rightarrow> 8 word) option) prog" where
  "drawIf E b = (if b then runtime (randomBytes E) \<bind> (\<lambda>rnd. return (Some rnd)) else return None)"

definition drawKite :: "'w env \<Rightarrow> string \<Rightarrow> ('w, (string \<times> string \<times> (nat \<Rightarrow> 8 word)) option) prog" where
  "drawKite E kiteSecretName =
     (if kiteSecretName = [] then return None
      else configGet E \<bind> (\<lambda>cfg.
        runtime (randomBytes E) \<bind> (\<lambda>rnd.
        return (Some (kiteSecretName, APIURL (Kite cfg), rnd)))))"

text \<open>
  The builder part: the random names and the lookup of the CA config map happen in the order of the
  code; an error of the lookup is logged only.
\<close>

definition assembleRun ::
  "'w env \<Rightarrow> string \<Rightarrow> 'w GitComponent \<Rightarrow> string \<Rightarrow> string \<Rightarrow> Secret \<Rightarrow> bool \<Rightarrow> ('w, error + PipelineRun) prog"
where
  "assembleRun E name c branch kiteSecretName renovateSecret rpm =
     runtime (randomBytes E) \<bind> (\<lambda>r1.
     drawIf E rpm \<bind> (\<lambda>r2.
     getCAConfigMap E \<bind> (\<lambda>ca.
     let caName = (case ca of Inr (Some m) \<Rightarrow> Some (Name (cmMeta m)) | _ \<Rightarrow> None) in
     drawIf E (map_of (Data renovateSecret) DockerConfigJsonKey \<noteq> None) \<bind> (\<lambda>r3.
     drawKite E kiteSecretName \<bind> (\<lambda>kite.
     return (buildPipelineRun E name c branch
       \<lparr>tokenRandom = r1, rpmPart = r2, caPart = caName,
        dockerPart = map_option (Pair (Name (secMeta renovateSecret))) r3, kitePart = kite\<rparr>))))))"

text \<open>The token is left out for GitHub, where the event controller adds it later.\<close>

definition initialToken :: "'w GitComponent \<Rightarrow> ('w, error + string option) prog" where
  "initialToken c =
     (if GetPlatform c \<noteq> ''github'' then onOk (GetToken c) (\<lambda>t. return (Inr (Some t))) else return (Inr None))"

text \<open>An empty merged config counts as none: \<open>len(mergedDockerConfigJson) != 0\<close>.\<close>

definition nonEmpty :: "string option \<Rightarrow> string option" where
  "nonEmpty s = (if s = Some [] then None else s)"

text \<open>The RPM secret is only created when there is an activation key.\<close>

definition createRpmSecret :: "'w env \<Rightarrow> string \<Rightarrow> error + string \<times> string \<Rightarrow> ('w, error + Secret option) prog" where
  "createRpmSecret E name rpmKey =
     (case rpmKey of
        Inl e \<Rightarrow> return (Inr None)
      | Inr key \<Rightarrow> onOk (Create_Secret E (rpmSecretFor name key)) (\<lambda>s. return (Inr (Some s))))"

definition rpmResource :: "Secret option \<Rightarrow> obj list" where
  "rpmResource s = (case s of None \<Rightarrow> [] | Some x \<Rightarrow> [OSecret x])"

definition createPipelineRun_body ::
  "'w env \<Rightarrow> string \<Rightarrow> 'w GitComponent \<Rightarrow> string \<Rightarrow> string \<Rightarrow> ('w, obj list \<times> (error + PipelineRun)) prog"
where
  "createPipelineRun_body E name c currentBranch kiteSecretName =
     orReturn [] (initialToken c) (\<lambda>token.
     orReturn [] (getMergedDockerConfigJson E c) (\<lambda>docker.
     orReturn [] (Create_Secret E (renovateSecretFor name token (nonEmpty docker))) (\<lambda>renovateSecret.
     orReturn [OSecret renovateSecret] (GetRenovateConfig c (Some renovateSecret) currentBranch) (\<lambda>renovateConfig.
     orReturn [OSecret renovateSecret] (Create_ConfigMap E (configMapFor name renovateConfig)) (\<lambda>renovateConfigMap.
     GetRPMActivationKey c \<bind> (\<lambda>rpmKey.
     orReturn [OSecret renovateSecret, OConfigMap renovateConfigMap] (createRpmSecret E name rpmKey) (\<lambda>rpmSecret.
     let resources = [OSecret renovateSecret, OConfigMap renovateConfigMap] @ rpmResource rpmSecret in
     orReturn resources (assembleRun E name c currentBranch kiteSecretName renovateSecret (rpmSecret \<noteq> None)) (\<lambda>built.
     orReturn resources (Create_PipelineRun E built) (\<lambda>plr.
     ownAll E (resources @ [OPipelineRun plr]) plr renovateSecret rpmSecret renovateConfigMap)))))))))"

fun delete_loop :: "'w env \<Rightarrow> obj list \<Rightarrow> ('w, unit) prog" where
  "delete_loop E [] = return ()"
| "delete_loop E (x # xs) = Delete E x \<bind> (\<lambda>_. delete_loop E xs)"

definition createPipelineRun ::
  "'w env \<Rightarrow> string \<Rightarrow> 'w GitComponent \<Rightarrow> string \<Rightarrow> string \<Rightarrow> ('w, error + PipelineRun) prog" where
  "createPipelineRun E name c currentBranch kiteSecretName =
     createPipelineRun_body E name c currentBranch kiteSecretName \<bind> (\<lambda>(resources, result).
     delete_loop E resources \<bind> (\<lambda>_. return result))"

section \<open>Selected components\<close>

lemma firstNamed_distinct:
  "distinct (map (\<lambda>c. Name (compMeta c)) cs) \<Longrightarrow> set (firstNamed name cs) = {c \<in> set cs. Name (compMeta c) = name}"
  by (induction cs) (auto simp: image_iff)

text \<open>What a namespace entry asks for, and what the whole specification asks for.\<close>

definition wanted :: "NamespaceSpec \<Rightarrow> Component \<Rightarrow> bool" where
  "wanted ns c \<longleftrightarrow> nsApplications ns = [] \<or>
     (\<exists>a \<in> set (nsApplications ns). appApplication a = Application c
        \<and> (appComponents a = [] \<or> Name (compMeta c) \<in> set (appComponents a)))"

lemma set_componentsOfApplication:
  assumes "distinct (map (\<lambda>c. Name (compMeta c)) items)"
  shows "set (componentsOfApplication items a) =
    {c \<in> set items. appApplication a = Application c \<and> (appComponents a = [] \<or> Name (compMeta c) \<in> set (appComponents a))}"
proof -
  have "distinct (map (\<lambda>c. Name (compMeta c)) (filter (\<lambda>c. appApplication a = Application c) items))"
    using assms by (rule distinct_map_filter)
  then show ?thesis
    by (auto simp: componentsOfApplication_def Let_def firstNamed_distinct)
qed

text \<open>
  C26: since component names are unique within a namespace, exactly those components of a listed
  namespace are selected that its entry asks for: all of them without applications, else those of a
  named application, restricted to the named components where there are any.
\<close>

theorem componentsOfNamespace_exact:
  assumes "distinct (map (\<lambda>c. Name (compMeta c)) items)"
  shows "set (componentsOfNamespace ns items) = {c \<in> set items. wanted ns c}"
  using set_componentsOfApplication [OF assms]
  by (auto simp: componentsOfNamespace_def wanted_def)

definition sampleComponent :: "string \<Rightarrow> string \<Rightarrow> Component" where
  "sampleComponent name app =
     \<lparr>compMeta = newMeta name ''ns'', Application = app, GitSource = None, GitURL = [], Versions = []\<rparr>"

theorem componentsOfNamespace_exact_witness:
  "set (componentsOfNamespace \<lparr>nsNamespace = ''ns'', nsApplications = [\<lparr>appApplication = ''a'', appComponents = [''x'']\<rparr>]\<rparr>
      [sampleComponent ''x'' ''a'', sampleComponent ''y'' ''a'', sampleComponent ''z'' ''b'']) = {sampleComponent ''x'' ''a''}"
  by (subst componentsOfNamespace_exact) (auto simp: sampleComponent_def newMeta_def wanted_def)

section \<open>Reading helpers\<close>

lemma quiet_filtered_loop [quiet_rules]: "quiet (filtered_loop E namespaces components)"
  by (induction namespaces arbitrary: components) (auto intro!: quiet_rules)

lemma quiet_getFilteredComponents [quiet_rules]: "quiet (getFilteredComponents E namespaces)"
  unfolding getFilteredComponents_def by (intro quiet_rules)

lemma quiet_getCAConfigMap [quiet_rules]: "quiet (getCAConfigMap E)"
  unfolding getCAConfigMap_def by (intro quiet_rules)

lemma quiet_dockerSecrets_loop [quiet_rules]: "quiet (dockerSecrets_loop E ns names merged)"
  by (induction names arbitrary: merged) (auto intro!: quiet_rules)

lemma quiet_getMergedDockerConfigJson [quiet_rules]: "quiet (getMergedDockerConfigJson E c)"
  unfolding getMergedDockerConfigJson_def by (intro quiet_rules)

lemma quiet_drawIf [quiet_rules]: "within P (drawIf E b)"
  unfolding drawIf_def by (intro quiet_rules)

lemma quiet_drawKite [quiet_rules]: "within P (drawKite E kite)"
  unfolding drawKite_def by (intro quiet_rules)

lemma quiet_assembleRun [quiet_rules]: "quiet (assembleRun E name c branch kite secret rpm)"
  unfolding assembleRun_def by (intro quiet_rules)

lemma quiet_initialToken: "read_only c \<Longrightarrow> quiet (initialToken c)"
  unfolding initialToken_def read_only_def by (auto intro!: quiet_rules)

section \<open>Cleaning up\<close>

fun createdObjs :: "call list \<Rightarrow> obj list" where
  "createdObjs [] = []"
| "createdObjs (CCreate x (Inr y) # ts) = y # createdObjs ts"
| "createdObjs (_ # ts) = createdObjs ts"

fun deletedKeys :: "call list \<Rightarrow> objkey list" where
  "deletedKeys [] = []"
| "deletedKeys (CDelete k # ts) = k # deletedKeys ts"
| "deletedKeys (_ # ts) = deletedKeys ts"

lemma createdObjs_append [simp]: "createdObjs (ts @ us) = createdObjs ts @ createdObjs us"
  by (induction ts rule: createdObjs.induct) auto

lemma deletedKeys_append [simp]: "deletedKeys (ts @ us) = deletedKeys ts @ deletedKeys us"
  by (induction ts rule: deletedKeys.induct) auto

lemma reads_neither [simp]: "list_all is_read ts \<Longrightarrow> createdObjs ts = []" "list_all is_read ts \<Longrightarrow> deletedKeys ts = []"
  by (induction ts rule: createdObjs.induct; simp)+

text \<open>
  The body keeps its books: started with the resources \<open>res\<close>, it deletes nothing, and it returns
  either an error with \<open>res\<close> and what it created, or a pipeline run and nothing to clean up.
\<close>

definition tracks :: "obj list \<Rightarrow> ('w, obj list \<times> (error + 'a)) prog \<Rightarrow> bool" where
  "tracks res m \<longleftrightarrow> emits m (\<lambda>ts r. deletedKeys ts = [] \<and>
     fst r = (case snd r of Inl e \<Rightarrow> res @ createdObjs ts | Inr x \<Rightarrow> []))"

lemma tracks_fail: "tracks res (return (res, Inl e))"
  by (simp add: tracks_def emits_return)

lemma tracks_done: "tracks res (return ([], Inr x))"
  by (simp add: tracks_def emits_return)

lemma tracks_step:
  assumes "emits m (\<lambda>ts r. deletedKeys ts = [] \<and> createdObjs ts = (case r of Inl e \<Rightarrow> [] | Inr x \<Rightarrow> new x))"
    and "\<And>x. tracks (res @ new x) (f x)"
  shows "tracks res (orReturn res m f)"
  unfolding tracks_def orReturn_def
proof (rule emits_bind [OF assms(1)], elim conjE, goal_cases)
  case (1 ts r)
  show ?case
  proof (cases r)
    case (Inl e)
    with 1 show ?thesis by (auto intro!: emits_return)
  next
    case (Inr x)
    with 1 show ?thesis
      by (auto intro!: emits_mono [OF assms(2) [unfolded tracks_def]] split: sum.splits)
  qed
qed

lemma tracks_read: "quiet m \<Longrightarrow> (\<And>x. tracks res (f x)) \<Longrightarrow> tracks res (orReturn res m f)"
  by (rule tracks_step [where new = "\<lambda>_. []"]) (auto elim!: within_emits split: sum.splits)

lemma tracks_bind: "quiet m \<Longrightarrow> (\<And>x. tracks res (f x)) \<Longrightarrow> tracks res (m \<bind> f)"
  unfolding tracks_def within_def
proof (erule emits_bind, goal_cases)
  case (1 ts x)
  then show ?case by (intro emits_mono [OF 1(1)]) (auto split: sum.splits)
qed

lemma creates_Secret:
  "emits (Create_Secret E s) (\<lambda>ts r. deletedKeys ts = [] \<and> createdObjs ts = (case r of Inl e \<Rightarrow> [] | Inr x \<Rightarrow> [OSecret x]))"
  unfolding Create_Secret_def by (rule emits_perform) (auto split: sum.splits)

lemma creates_ConfigMap:
  "emits (Create_ConfigMap E s) (\<lambda>ts r. deletedKeys ts = [] \<and> createdObjs ts = (case r of Inl e \<Rightarrow> [] | Inr x \<Rightarrow> [OConfigMap x]))"
  unfolding Create_ConfigMap_def by (rule emits_perform) (auto split: sum.splits)

lemma creates_PipelineRun:
  "emits (Create_PipelineRun E s) (\<lambda>ts r. deletedKeys ts = [] \<and> createdObjs ts = (case r of Inl e \<Rightarrow> [] | Inr x \<Rightarrow> [OPipelineRun x]))"
  unfolding Create_PipelineRun_def by (rule emits_perform) (auto split: sum.splits)

lemma creates_rpm:
  "emits (createRpmSecret E name key) (\<lambda>ts r. deletedKeys ts = [] \<and> createdObjs ts = (case r of Inl e \<Rightarrow> [] | Inr x \<Rightarrow> rpmResource x))"
  unfolding createRpmSecret_def
  by (cases key) (auto simp: rpmResource_def intro!: emits_return emits_onOk [OF creates_Secret])

lemma tracks_own:
  "(\<And>x. tracks res (f x)) \<Longrightarrow> tracks res (orReturn res (ownSecret E plr s) f)"
  "(\<And>x. tracks res (f x)) \<Longrightarrow> tracks res (orReturn res (ownConfigMap E plr m) f)"
  by (rule tracks_step [where new = "\<lambda>_. []"];
      auto simp: ownSecret_def ownConfigMap_def Update_Secret_def Update_ConfigMap_def asResult_def
        intro!: emits_return emits_bind [OF emits_perform [where Q = "\<lambda>ts r. deletedKeys ts = [] \<and> createdObjs ts = []"]]
        split: sum.splits option.splits)+

lemma tracks_ownAll: "tracks res (ownAll E res plr s rpm m)"
  unfolding ownAll_def
  by (cases rpm) (auto intro!: tracks_own tracks_read tracks_done quiet_rules)

lemma tracks_body:
  assumes "read_only c"
  shows "tracks [] (createPipelineRun_body E name c branch kite)"
proof -
  have ro: "quiet (initialToken c)" "quiet (GetRPMActivationKey c)" "\<And>s b. quiet (GetRenovateConfig c s b)"
    using assms quiet_initialToken by (auto simp: read_only_def)
  have plr: "tracks res (orReturn res (Create_PipelineRun E b) (\<lambda>plr. ownAll E (res @ [OPipelineRun plr]) plr s rpm m))" for res b s rpm m
    by (rule tracks_step [OF creates_PipelineRun tracks_ownAll])
  have rpm: "tracks [OSecret s, OConfigMap m] (orReturn [OSecret s, OConfigMap m] (createRpmSecret E name key) f)"
    if "\<And>x. tracks ([OSecret s, OConfigMap m] @ rpmResource x) (f x)" for s m key f
    by (rule tracks_step [OF creates_rpm that])
  have cm: "tracks [OSecret s] (orReturn [OSecret s] (Create_ConfigMap E x) f)"
    if "\<And>m. tracks [OSecret s, OConfigMap m] (f m)" for s x f
    by (rule tracks_step [OF creates_ConfigMap]) (use that in simp)
  have sec: "tracks [] (orReturn [] (Create_Secret E x) f)" if "\<And>s. tracks [OSecret s] (f s)" for x f
    by (rule tracks_step [OF creates_Secret]) (use that in simp)
  show ?thesis
    unfolding createPipelineRun_body_def Let_def
    by (intro tracks_read [OF ro(1)] tracks_read [OF quiet_getMergedDockerConfigJson] sec tracks_read [OF ro(3)]
        cm tracks_bind [OF ro(2)] rpm tracks_read [OF quiet_assembleRun] plr)
qed

lemma delete_loop_emits: "emits (delete_loop E xs) (\<lambda>ts r. ts = map (\<lambda>x. CDelete (objKey x)) xs)"
proof (induction xs)
  case (Cons x xs)
  have "emits (Delete E x) (\<lambda>ts r. ts = [CDelete (objKey x)])"
    by (simp add: Delete_def emits_perform)
  then show ?case
    by simp (erule emits_bind, auto intro: emits_mono [OF Cons.IH])
qed (simp add: emits_return)

lemma books_of_deletes [simp]:
  "createdObjs (map (\<lambda>x. CDelete (objKey x)) xs) = []"
  "deletedKeys (map (\<lambda>x. CDelete (objKey x)) xs) = map objKey xs"
  by (induction xs) auto

text \<open>
  C5: however the cluster and the git service behave, a failing \<open>createPipelineRun\<close> deletes
  exactly the objects it has created, in the order of their creation, and a successful one deletes
  nothing.
\<close>

theorem createPipelineRun_cleanup:
  assumes "read_only c"
  shows "emits (createPipelineRun E name c branch kite)
    (\<lambda>ts r. deletedKeys ts = (case r of Inl e \<Rightarrow> map objKey (createdObjs ts) | Inr p \<Rightarrow> []))"
proof -
  have "emits (case rr of (resources, result) \<Rightarrow> delete_loop E resources \<bind> (\<lambda>_. return result))
      (\<lambda>us r. deletedKeys (ts @ us) = (case r of Inl e \<Rightarrow> map objKey (createdObjs (ts @ us)) | Inr p \<Rightarrow> []))"
    if "deletedKeys ts = []" "fst rr = (case snd rr of Inl e \<Rightarrow> [] @ createdObjs ts | Inr x \<Rightarrow> [])" for ts rr
  proof -
    obtain res result where rr: "rr = (res, result)" by (cases rr)
    have "emits (delete_loop E res \<bind> (\<lambda>_. return result))
        (\<lambda>us r. us = map (\<lambda>x. CDelete (objKey x)) res \<and> r = result)"
      by (rule emits_bind [OF delete_loop_emits]) (simp add: emits_return)
    then show ?thesis using that by (auto simp: rr elim!: emits_mono split: sum.splits)
  qed
  then show ?thesis
    unfolding createPipelineRun_def
    by (intro emits_bind [OF tracks_body [OF assms, unfolded tracks_def]]) blast
qed

definition sampleGitComponent :: "string \<Rightarrow> 'w GitComponent" where
  "sampleGitComponent platform =
     \<lparr>GetName = ''comp'', GetNamespace = ''ns'', GetApplication = ''app'', GetPlatform = platform,
      GetHost = ''host'', GetGitURL = ''https://host/o/r'', GetRepository = ''o/r'', GetToken = return (Inr ''t''),
      GetBranches = return (Inr [''main'']), GetAPIEndpoint = [],
      GetRenovateConfig = (\<lambda>s b. return (Inr ''{}'')), GetRPMActivationKey = return (Inl (Err ''no key''))\<rparr>"

lemma read_only_sample [simp]: "read_only (sampleGitComponent platform)"
  by (simp add: read_only_def sampleGitComponent_def within_return)

text \<open>A cluster that refuses config maps: the secret is created and deleted again.\<close>

definition noConfigMapsCluster :: "unit env" where
  "noConfigMapsCluster = emptyCluster\<lparr>k8sCreateConfigMap := (\<lambda>x w. (Inl (Err ''forbidden''), w))\<rparr>"

theorem createPipelineRun_cleanup_witness:
  "deletedKeys (trace (snd (run_state (createPipelineRun noConfigMapsCluster ''r'' (sampleGitComponent ''gitlab'') ''main'' []) start)))
     = [(KSecret, ''mintmaker'', ''r'')]"
proof -
  let ?m = "createPipelineRun noConfigMapsCluster ''r'' (sampleGitComponent ''gitlab'') ''main'' []"
  have "fst (run_state ?m start) = Inl (Err ''forbidden'')"
    and "map objKey (createdObjs (trace (snd (run_state ?m start)))) = [(KSecret, ''mintmaker'', ''r'')]"
    by (simp_all add: createPipelineRun_def createPipelineRun_body_def orReturn_def initialToken_def onOk_def
        getMergedDockerConfigJson_def client_defs emptyCluster_def noConfigMapsCluster_def sampleGitComponent_def
        start_def renovateSecretFor_def newMeta_def metaKey_def MintMakerNamespaceName_def)
  then show ?thesis
    using emits_run [OF createPipelineRun_cleanup [OF read_only_sample], of noConfigMapsCluster "''r''" "''gitlab''" "''main''" "[]" start]
    by (auto simp: start_def)
qed

end
