(* ===== verification/RunCalls.thy ===== *)
theory RunCalls
  imports PipelineRuns
begin

text \<open>
  What \<open>createPipelineRun\<close> asks the cluster to create, call by call: names, labels and hardening of
  the objects, and which step of the pipeline run gets to see which credential.
\<close>

section \<open>Least privilege\<close>

definition hasKey :: "string \<Rightarrow> Volume \<Rightarrow> bool" where
  "hasKey k v \<longleftrightarrow>
     (case volSource v of
        SecretVolume n items o' d \<Rightarrow> k \<in> Key ` set items
      | ConfigMapVolume n items o' d \<Rightarrow> False)"

text \<open>A secret key is mounted by the steps of one name only.\<close>

definition mountedOnly :: "string \<Rightarrow> string \<Rightarrow> TaskSpec \<Rightarrow> bool" where
  "mountedOnly k st spec \<longleftrightarrow>
     (\<forall>v \<in> set (Volumes spec). hasKey k v \<longrightarrow>
        (\<forall>step \<in> set (Steps spec). volName v \<in> mountName ` set (VolumeMounts step) \<longrightarrow> stepName step = st))"

text \<open>
  Mounts refer to volumes by name, so the statement is about specifications whose volume names
  differ; Kubernetes refuses all others.
\<close>

definition confined :: "string \<Rightarrow> string \<Rightarrow> TaskSpec \<Rightarrow> bool" where
  "confined k st spec \<longleftrightarrow> mounts_declared spec \<and> (distinct (map volName (Volumes spec)) \<longrightarrow> mountedOnly k st spec)"

lemma mounts_declared_mountVolume: "mounts_declared spec \<Longrightarrow> mounts_declared (mountVolume opts w path spec)"
  by (auto simp: mounts_declared_def mountVolume_def mountStep_def split: if_splits)

lemma confined_mountVolume:
  assumes spec: "confined k st spec" and own: "hasKey k w \<Longrightarrow> StepNames opts = [st]"
  shows "confined k st (mountVolume opts w path spec)"
proof -
  have decl: "mounts_declared spec" using spec by (simp add: confined_def)
  have "mountedOnly k st (mountVolume opts w path spec)"
    if "distinct (map volName (Volumes (mountVolume opts w path spec)))"
  proof -
    from that have dist: "distinct (map volName (Volumes spec))" and fresh: "volName w \<notin> volName ` set (Volumes spec)"
      by (auto simp: mountVolume_def)
    then have old: "mountedOnly k st spec" using spec by (simp add: confined_def)
    have unmounted: "volName w \<notin> mountName ` set (VolumeMounts step)" if "step \<in> set (Steps spec)" for step
      using decl fresh that unfolding mounts_declared_def by (metis (no_types, lifting) imageE)
    have other: "volName v \<noteq> volName w" if "v \<in> set (Volumes spec)" for v
      using fresh image_eqI [of _ volName v] that by metis
    have new: "stepName step = st"
      if "hasKey k w" "step \<in> set (Steps spec)"
        "volName w \<in> mountName ` set (VolumeMounts (mountStep (StepNames opts) m step))" for step m
      using that own unmounted by (auto simp: mountStep_def split: if_splits)
    show ?thesis
      unfolding mountedOnly_def
    proof (intro ballI impI)
      fix v step
      assume v: "v \<in> set (Volumes (mountVolume opts w path spec))" and key: "hasKey k v"
        and step: "step \<in> set (Steps (mountVolume opts w path spec))"
        and mounted: "volName v \<in> mountName ` set (VolumeMounts step)"
      from step obtain s m where s: "s \<in> set (Steps spec)" "step = mountStep (StepNames opts) m s" "mountName m = volName w"
        by (auto simp: mountVolume_def)
      show "stepName step = st"
      proof (cases "v = w")
        case True
        then show ?thesis using new [OF _ s(1)] key mounted s(2) by simp
      next
        case False
        then have "v \<in> set (Volumes spec)" using v by (simp add: mountVolume_def)
        moreover from this have "volName v \<in> mountName ` set (VolumeMounts s)"
          using mounted s other by (auto simp: mountStep_def split: if_splits)
        ultimately show ?thesis using old key s by (auto simp: mountedOnly_def)
      qed
    qed
  qed
  then show ?thesis using mounts_declared_mountVolume [OF decl] by (simp add: confined_def)
qed

lemma confined_addStep:
  "confined k st spec \<Longrightarrow> VolumeMounts step = [] \<Longrightarrow> confined k st (spec\<lparr>Steps := Steps spec @ [step]\<rparr>)"
  by (auto simp: confined_def mounts_declared_def mountedOnly_def)

text \<open>The same for the build task of a builder.\<close>

definition confinedRun :: "string \<Rightarrow> string \<Rightarrow> PipelineRun \<Rightarrow> bool" where
  "confinedRun k st p \<longleftrightarrow> (\<forall>spec. specNamed ''build'' (Tasks p) = Some spec \<longrightarrow> confined k st spec)"

lemma resolve_mountInto [simp]:
  "TaskName (resolveOptions (Some (mountInto s))) = ''build''"
  "StepNames (resolveOptions (Some (mountInto s))) = [s]"
  "TaskName (resolveOptions (Some (mountReadOnlyInto s))) = ''build''"
  "StepNames (resolveOptions (Some (mountReadOnlyInto s))) = [s]"
  by (simp_all add: mountInto_def mountReadOnlyInto_def resolveOptions_def NewMountOptions_def WithTaskName_def
      WithStepNames_def WithReadOnly_def)

lemma confined_updateTask:
  "(\<And>spec. confined k st spec \<Longrightarrow> confined k st (f spec)) \<Longrightarrow> confinedRun k st (pipelineRun b) \<Longrightarrow>
   confinedRun k st (pipelineRun (updateTask name f b))"
  by (auto simp: confinedRun_def updateTask_def split: if_splits)

lemma confined_WithSecret:
  "(k \<in> Key ` set items \<Longrightarrow> StepNames (resolveOptions opts) = [st]) \<Longrightarrow> confinedRun k st (pipelineRun b) \<Longrightarrow>
   confinedRun k st (pipelineRun (WithSecret rnd n path items opts b))"
  unfolding sec.mounts
  by (rule confined_updateTask [OF confined_mountVolume]) (auto simp: hasKey_def secretVolume_def)

lemma confined_WithConfigMap:
  "confinedRun k st (pipelineRun b) \<Longrightarrow> confinedRun k st (pipelineRun (WithConfigMap n path items opts b))"
  unfolding cm.mounts
  by (rule confined_updateTask [OF confined_mountVolume]) (auto simp: hasKey_def configMapVolume_def)

lemma confined_WithKite:
  "confinedRun k st (pipelineRun b) \<Longrightarrow> confinedRun k st (pipelineRun (WithKiteIntegration url b))"
  unfolding WithKiteIntegration_def by (rule confined_updateTask [OF confined_addStep]) simp_all

text \<open>The credentials and the one step that each is for.\<close>

definition credentialSteps :: "(string \<times> string) list" where
  "credentialSteps = [(''renovate-token'', ''renovate''), (DockerConfigJsonKey, ''renovate''),
     (''activationkey'', ''prepare-rpm-cert''), (''org'', ''prepare-rpm-cert''), (''token'', ''log-analyzer'')]"

lemma confined_base: "confinedRun k st (pipelineRun (buildBase E name c branch))"
  by (simp add: confinedRun_def confined_def mountedOnly_def mounts_declared_def buildBase_def WithServiceAccount_def
      WithTimeouts_def WithLabels_def updateMeta_def Let_def NewPipelineRunBuilder_def prepareDbStep_def
      prepareRpmCertStep_def renovateStep_def logSanitizerStep_def)

lemma buildPipelineRun_confined:
  assumes "(k, st) \<in> set credentialSteps" "buildPipelineRun E name c branch parts = Inr p"
  shows "confinedRun k st p"
proof -
  let ?b = "buildKite (kitePart parts) (buildDocker (dockerPart parts) (buildCA (caPart parts)
       (buildRpm (rpmPart parts) name (buildToken (tokenRandom parts) name
         (buildConfig name (buildBase E name c branch))))))"
  have keys: "DockerConfigJsonKey = ''.dockerconfigjson''" by (simp add: DockerConfigJsonKey_def)
  have 1: "confinedRun k st (pipelineRun (buildToken r name (buildConfig name (buildBase E name c branch))))" for r
    using assms(1) unfolding buildToken_def buildConfig_def
    by (intro confined_WithSecret confined_WithConfigMap confined_base)
      (auto simp: credentialSteps_def keyToPath_def keys)
  have 2: "confinedRun k st (pipelineRun (buildRpm r name b))" if "confinedRun k st (pipelineRun b)" for r b
    using assms(1) that unfolding buildRpm_def
    by (auto simp: credentialSteps_def keyToPath_def keys split: option.splits intro!: confined_WithSecret)
  have 3: "confinedRun k st (pipelineRun (buildCA r b))" if "confinedRun k st (pipelineRun b)" for r b
    using that unfolding buildCA_def by (auto split: option.splits intro!: confined_WithConfigMap)
  have 4: "confinedRun k st (pipelineRun (buildDocker r b))" if "confinedRun k st (pipelineRun b)" for r b
    using assms(1) that unfolding buildDocker_def
    by (auto simp: credentialSteps_def keyToPath_def keys split: option.splits intro!: confined_WithSecret)
  have 5: "confinedRun k st (pipelineRun (buildKite r b))" if "confinedRun k st (pipelineRun b)" for r b
    using assms(1) that unfolding buildKite_def
    by (auto simp: credentialSteps_def keyToPath_def keys split: option.splits
        intro!: confined_WithSecret confined_WithConfigMap confined_WithKite)
  have "confinedRun k st (pipelineRun ?b)" by (intro 5 4 3 2 1)
  moreover have "pipelineRun ?b = p"
    using assms(2) by (auto simp: buildPipelineRun_def Build_def split: list.splits)
  ultimately show ?thesis by simp
qed

section \<open>The volumes of a run\<close>

definition runVolumes :: "PipelineRun \<Rightarrow> Volume list" where
  "runVolumes p = (case specNamed ''build'' (Tasks p) of None \<Rightarrow> [] | Some spec \<Rightarrow> Volumes spec)"

definition hasBuild :: "PipelineRun \<Rightarrow> bool" where
  "hasBuild p \<longleftrightarrow> specNamed ''build'' (Tasks p) \<noteq> None"

lemma runVolumes_ops:
  assumes "hasBuild (pipelineRun b)" "TaskName (resolveOptions opts) = ''build''"
  shows "hasBuild (pipelineRun (WithSecret rnd n path items opts b))"
    "hasBuild (pipelineRun (WithConfigMap n path items opts b))"
    "runVolumes (pipelineRun (WithSecret rnd n path items opts b)) =
       runVolumes (pipelineRun b) @ [secretVolume rnd n items (resolveOptions opts)]"
    "runVolumes (pipelineRun (WithConfigMap n path items opts b)) =
       runVolumes (pipelineRun b) @ [configMapVolume n items (resolveOptions opts)]"
  using assms by (auto simp: hasBuild_def runVolumes_def sec.mounts cm.mounts updateTask_def mountVolume_def)

lemma runVolumes_Kite:
  "hasBuild (pipelineRun b) \<Longrightarrow> hasBuild (pipelineRun (WithKiteIntegration url b))"
  "hasBuild (pipelineRun b) \<Longrightarrow> runVolumes (pipelineRun (WithKiteIntegration url b)) = runVolumes (pipelineRun b)"
  by (auto simp: hasBuild_def runVolumes_def WithKiteIntegration_def updateTask_def)

lemma runVolumes_base:
  "hasBuild (pipelineRun (buildBase E name c branch))" "runVolumes (pipelineRun (buildBase E name c branch)) = []"
  by (simp_all add: hasBuild_def runVolumes_def buildBase_def WithServiceAccount_def WithTimeouts_def WithLabels_def
      updateMeta_def Let_def NewPipelineRunBuilder_def)

text \<open>Some volume carries the token, and all that do take it from the secret \<open>name\<close>.\<close>

definition tokenRun :: "string \<Rightarrow> PipelineRun \<Rightarrow> bool" where
  "tokenRun name p \<longleftrightarrow> hasBuild p \<and> (\<exists>v \<in> set (runVolumes p). hasKey ''renovate-token'' v) \<and>
     (\<forall>v \<in> set (runVolumes p). hasKey ''renovate-token'' v \<longrightarrow> (\<exists>items o' d. volSource v = SecretVolume name items o' d))"

lemma tokenRun_WithSecret:
  assumes "tokenRun name (pipelineRun b)" "TaskName (resolveOptions opts) = ''build''" "''renovate-token'' \<notin> Key ` set items"
  shows "tokenRun name (pipelineRun (WithSecret rnd n path items opts b))"
  using assms(1,3) runVolumes_ops [OF _ assms(2), of b] by (auto simp: tokenRun_def hasKey_def secretVolume_def)

lemma tokenRun_WithConfigMap:
  assumes "tokenRun name (pipelineRun b)" "TaskName (resolveOptions opts) = ''build''"
  shows "tokenRun name (pipelineRun (WithConfigMap n path items opts b))"
  using assms(1) runVolumes_ops [OF _ assms(2), of b] by (auto simp: tokenRun_def hasKey_def configMapVolume_def)

lemma tokenRun_WithKite: "tokenRun name (pipelineRun b) \<Longrightarrow> tokenRun name (pipelineRun (WithKiteIntegration url b))"
  using runVolumes_Kite [of b] by (auto simp: tokenRun_def)

lemma tokenRun_token: "tokenRun name (pipelineRun (buildToken r name (buildConfig name (buildBase E name c branch))))"
  unfolding buildToken_def buildConfig_def
  by (simp add: tokenRun_def runVolumes_ops runVolumes_base hasKey_def configMapVolume_def secretVolume_def keyToPath_def)

lemma buildPipelineRun_token:
  assumes "buildPipelineRun E name c branch parts = Inr p"
  shows "tokenRun name p"
proof -
  have rpm: "tokenRun name (pipelineRun (buildRpm r name b))" if "tokenRun name (pipelineRun b)" for r b
    using that unfolding buildRpm_def by (auto split: option.splits intro!: tokenRun_WithSecret simp: keyToPath_def)
  have ca: "tokenRun name (pipelineRun (buildCA r b))" if "tokenRun name (pipelineRun b)" for r b
    using that unfolding buildCA_def by (auto split: option.splits intro!: tokenRun_WithConfigMap)
  have docker: "tokenRun name (pipelineRun (buildDocker r b))" if "tokenRun name (pipelineRun b)" for r b
    using that unfolding buildDocker_def
    by (auto split: option.splits intro!: tokenRun_WithSecret simp: keyToPath_def DockerConfigJsonKey_def)
  have kite: "tokenRun name (pipelineRun (buildKite r b))" if "tokenRun name (pipelineRun b)" for r b
    using that unfolding buildKite_def
    by (auto split: option.splits intro!: tokenRun_WithSecret tokenRun_WithConfigMap tokenRun_WithKite simp: keyToPath_def)
  have "tokenRun name (pipelineRun (buildKite (kitePart parts) (buildDocker (dockerPart parts) (buildCA (caPart parts)
       (buildRpm (rpmPart parts) name (buildToken (tokenRandom parts) name
         (buildConfig name (buildBase E name c branch))))))))"
    by (intro kite docker ca rpm tokenRun_token)
  then show ?thesis using assms by (auto simp: buildPipelineRun_def Build_def split: list.splits)
qed

section \<open>Metadata\<close>

lemma meta_updateTask [simp]: "plrMeta (pipelineRun (updateTask n f b)) = plrMeta (pipelineRun b)"
  by (simp add: updateTask_def)

lemma err_updateTask [simp]: "builderErr (updateTask n f b) = builderErr b"
  by (simp add: updateTask_def)

lemma account_updateTask [simp]: "ServiceAccountName (pipelineRun (updateTask n f b)) = ServiceAccountName (pipelineRun b)"
  by (simp add: updateTask_def)

lemmas with_ops_are_updates = cm.mounts sec.mounts WithKiteIntegration_def

lemma part_frames [simp]:
  "plrMeta (pipelineRun (buildConfig name b)) = plrMeta (pipelineRun b)"
  "plrMeta (pipelineRun (buildToken r name b)) = plrMeta (pipelineRun b)"
  "plrMeta (pipelineRun (buildRpm rp name b)) = plrMeta (pipelineRun b)"
  "plrMeta (pipelineRun (buildCA ca b)) = plrMeta (pipelineRun b)"
  "plrMeta (pipelineRun (buildDocker d b)) = plrMeta (pipelineRun b)"
  "plrMeta (pipelineRun (buildKite k b)) = plrMeta (pipelineRun b)"
  by (auto simp: buildConfig_def buildToken_def buildRpm_def buildCA_def buildDocker_def buildKite_def
      with_ops_are_updates split: option.splits)

lemma part_accounts [simp]:
  "ServiceAccountName (pipelineRun (buildConfig name b)) = ServiceAccountName (pipelineRun b)"
  "ServiceAccountName (pipelineRun (buildToken r name b)) = ServiceAccountName (pipelineRun b)"
  "ServiceAccountName (pipelineRun (buildRpm rp name b)) = ServiceAccountName (pipelineRun b)"
  "ServiceAccountName (pipelineRun (buildCA ca b)) = ServiceAccountName (pipelineRun b)"
  "ServiceAccountName (pipelineRun (buildDocker d b)) = ServiceAccountName (pipelineRun b)"
  "ServiceAccountName (pipelineRun (buildKite k b)) = ServiceAccountName (pipelineRun b)"
  by (auto simp: buildConfig_def buildToken_def buildRpm_def buildCA_def buildDocker_def buildKite_def
      with_ops_are_updates split: option.splits)

lemma part_good:
  "good_builder name ns b \<Longrightarrow> good_builder name ns
     (buildKite k (buildDocker d (buildCA ca (buildRpm rp n (buildToken r n (buildConfig n b))))))"
  unfolding buildConfig_def buildToken_def buildRpm_def buildCA_def buildDocker_def buildKite_def
  by (auto split: option.splits intro!: builder_keep)

lemma good_buildBase: "good_builder name MintMakerNamespaceName (buildBase E name c branch)"
  unfolding buildBase_def by (intro builder_keep)

lemma copy_runLabels: "copyInto (runLabels c branch) [] = runLabels c branch"
  by (simp add: runLabels_def MintMakerRepoBranchHashLabel_def)

lemma buildBase_meta:
  "Labels (plrMeta (pipelineRun (buildBase E name c branch))) = runLabels c branch"
  "ServiceAccountName (pipelineRun (buildBase E name c branch)) = ''mintmaker-controller-manager''"
  by (simp_all add: buildBase_def WithServiceAccount_def WithTimeouts_def WithLabels_def updateMeta_def Let_def
      NewPipelineRunBuilder_def newMeta_def copy_runLabels)

text \<open>Everything a pipeline run handed to the cluster satisfies.\<close>

definition run_ok :: "string \<Rightarrow> 'w GitComponent \<Rightarrow> string \<Rightarrow> PipelineRun \<Rightarrow> bool" where
  "run_ok name c branch p \<longleftrightarrow>
     Name (plrMeta p) = name \<and> Namespace (plrMeta p) = MintMakerNamespaceName \<and>
     Labels (plrMeta p) = runLabels c branch \<and> ServiceAccountName p = ''mintmaker-controller-manager'' \<and>
     good_run p \<and> (\<forall>(k, st) \<in> set credentialSteps. confinedRun k st p) \<and> tokenRun name p"

lemma buildPipelineRun_ok: "\<exists>p. buildPipelineRun E name c branch parts = Inr p \<and> run_ok name c branch p"
proof -
  let ?b = "buildKite (kitePart parts) (buildDocker (dockerPart parts) (buildCA (caPart parts)
       (buildRpm (rpmPart parts) name (buildToken (tokenRandom parts) name
         (buildConfig name (buildBase E name c branch))))))"
  have good: "good_builder name MintMakerNamespaceName ?b" by (rule part_good [OF good_buildBase])
  then have p: "buildPipelineRun E name c branch parts = Inr (pipelineRun ?b)"
    by (simp add: buildPipelineRun_def Build_def good_builder_def)
  have "run_ok name c branch (pipelineRun ?b)"
    using good buildPipelineRun_confined [OF _ p] buildPipelineRun_token [OF p]
    by (auto simp: run_ok_def good_builder_def buildBase_meta)
  with p show ?thesis by blast
qed

section \<open>The calls\<close>

definition secret_ok :: "string \<Rightarrow> 'w GitComponent \<Rightarrow> Secret \<Rightarrow> bool" where
  "secret_ok name c s \<longleftrightarrow>
     Namespace (secMeta s) = MintMakerNamespaceName \<and> Name (secMeta s) \<in> {name, name @ ''-rpm-key''} \<and>
     (GetPlatform c = ''github'' \<longrightarrow>
        map_of (StringData s) ''renovate-token'' = None \<and> map_of (Data s) ''renovate-token'' = None)"

fun run_call :: "string \<Rightarrow> 'w GitComponent \<Rightarrow> string \<Rightarrow> call \<Rightarrow> bool" where
  "run_call name c branch (CCreate (OSecret s) r) = secret_ok name c s"
| "run_call name c branch (CCreate (OConfigMap m) r) =
     (Name (cmMeta m) = name \<and> Namespace (cmMeta m) = MintMakerNamespaceName)"
| "run_call name c branch (CCreate (OPipelineRun p) r) = run_ok name c branch p"
| "run_call name c branch (CCreate (ODependencyUpdateCheck d) r) = False"
| "run_call name c branch (CCreate (OEvent e) r) = False"
| "run_call name c branch (CUpdate (OSecret s) r) = True"
| "run_call name c branch (CUpdate (OConfigMap m) r) = True"
| "run_call name c branch (CUpdate _ r) = False"
| "run_call name c branch (CDelete k) = True"
| "run_call name c branch call = is_read call"

lemma run_call_read: "is_read call \<Longrightarrow> run_call name c branch call"
  by (cases call) auto

lemma within_run_read: "quiet m \<Longrightarrow> within (run_call name c branch) m"
  by (erule within_mono) (rule run_call_read)

lemma within_orReturn [quiet_rules]:
  "within P m \<Longrightarrow> (\<And>x. within P (f x)) \<Longrightarrow> within P (orReturn res m f)"
  unfolding orReturn_def by (intro quiet_rules) auto

lemma within_delete_loop: "within (run_call name c branch) (delete_loop E xs)"
  by (induction xs) (auto simp: Delete_def intro!: quiet_rules)

lemma within_own:
  "within (run_call name c branch) (ownSecret E plr s)" "within (run_call name c branch) (ownConfigMap E plr m)"
  unfolding ownSecret_def ownConfigMap_def Update_Secret_def Update_ConfigMap_def
  by (auto intro!: quiet_rules split: sum.splits)

text \<open>A step whose result satisfies \<open>Q\<close>.\<close>

lemma within_orReturn_post:
  assumes "emits m (\<lambda>ts r. list_all P ts \<and> (\<forall>x. r = Inr x \<longrightarrow> Q x))" "\<And>x. Q x \<Longrightarrow> within P (f x)"
  shows "within P (orReturn res m f)"
  unfolding orReturn_def within_def
proof (rule emits_bind [OF assms(1)], elim conjE, goal_cases)
  case (1 ts r)
  show ?case
  proof (cases r)
    case (Inl e)
    with 1 show ?thesis by (simp add: emits_return)
  next
    case (Inr x)
    with 1 have "within P (f x)" by (intro assms(2)) simp
    with 1 Inr show ?thesis by (auto simp: within_def elim: emits_mono)
  qed
qed

lemma initialToken_github:
  assumes "quiet (initialToken c)"
  shows "emits (initialToken c)
     (\<lambda>ts r. list_all (run_call name c branch) ts \<and> (\<forall>t. r = Inr t \<longrightarrow> GetPlatform c = ''github'' \<longrightarrow> t = None))"
proof (cases "GetPlatform c = ''github''")
  case True
  then show ?thesis by (simp add: initialToken_def emits_return)
next
  case False
  then show ?thesis
    using within_run_read [OF assms, of name c branch] by (simp add: within_def)
qed

lemma assembleRun_ok:
  "emits (assembleRun E name c branch kite s rpm)
     (\<lambda>ts r. list_all is_read ts \<and> (\<exists>p. r = Inr p \<and> run_ok name c branch p))"
proof -
  have q: "quiet (runtime f)" "quiet (drawIf E b)" "quiet (getCAConfigMap E)" "quiet (drawKite E k)" for f b k
    by (intro quiet_rules)+
  have r: "emits (assembleRun E name c branch kite s rpm) (\<lambda>ts r. \<exists>p. r = Inr p \<and> run_ok name c branch p)"
    unfolding assembleRun_def Let_def
    by (intro emits_bind [OF q(1) [unfolded within_def]] emits_bind [OF q(2) [unfolded within_def]]
        emits_bind [OF q(3) [unfolded within_def]] emits_bind [OF q(4) [unfolded within_def]]
        emits_return buildPipelineRun_ok)
  show ?thesis by (rule emits_conj [OF quiet_assembleRun [unfolded within_def] r])
qed

lemma within_ownAll: "within (run_call name c branch) (ownAll E res plr s rpm m)"
  unfolding ownAll_def
  by (cases rpm) (auto intro!: quiet_rules within_own)

lemma within_createRpm: "within (run_call name c branch) (createRpmSecret E name key)"
  unfolding createRpmSecret_def Create_Secret_def
  by (auto intro!: quiet_rules split: sum.splits simp: secret_ok_def rpmSecretFor_def newMeta_def)

lemma secret_ok_renovate:
  "(GetPlatform c = ''github'' \<longrightarrow> t = None) \<Longrightarrow> secret_ok name c (renovateSecretFor name t d)"
  by (auto simp: secret_ok_def renovateSecretFor_def newMeta_def DockerConfigJsonKey_def split: option.splits)

lemma within_body:
  assumes "read_only c"
  shows "within (run_call name c branch) (createPipelineRun_body E name c branch kite)"
proof -
  have tok: "emits (initialToken c)
     (\<lambda>ts r. list_all (run_call name c branch) ts \<and> (\<forall>t. r = Inr t \<longrightarrow> (GetPlatform c = ''github'' \<longrightarrow> t = None)))"
    by (rule initialToken_github [OF quiet_initialToken [OF assms]])
  have sec: "within (run_call name c branch) (Create_Secret E (renovateSecretFor name t d))"
    if "GetPlatform c = ''github'' \<longrightarrow> t = None" for t d
    unfolding Create_Secret_def using secret_ok_renovate [OF that] by (intro quiet_rules) simp
  have cm: "within (run_call name c branch) (Create_ConfigMap E (configMapFor name x))" for x
    unfolding Create_ConfigMap_def by (intro quiet_rules) (simp add: configMapFor_def newMeta_def)
  have asm: "emits (assembleRun E name c branch kite s rpm)
     (\<lambda>ts r. list_all (run_call name c branch) ts \<and> (\<forall>p. r = Inr p \<longrightarrow> run_ok name c branch p))" for s rpm
    by (rule emits_mono [OF assembleRun_ok]) (auto simp: list_all_iff intro: run_call_read)
  have plr: "within (run_call name c branch) (Create_PipelineRun E p)" if "run_ok name c branch p" for p
    unfolding Create_PipelineRun_def using that by (intro quiet_rules) simp
  have ro: "within (run_call name c branch) (getMergedDockerConfigJson E c)"
    "within (run_call name c branch) (GetRPMActivationKey c)"
    "\<And>x y. within (run_call name c branch) (GetRenovateConfig c x y)"
    using assms by (auto simp: read_only_def intro!: within_run_read quiet_rules)
  show ?thesis
    unfolding createPipelineRun_body_def Let_def
    by (intro within_orReturn_post [OF tok] within_orReturn_post [OF asm] within_orReturn within_bind
        sec cm plr ro within_createRpm within_ownAll)
qed

lemma within_createPipelineRun:
  "read_only c \<Longrightarrow> within (run_call name c branch) (createPipelineRun E name c branch kite)"
  unfolding createPipelineRun_def
  by (intro within_bind within_body) (auto intro!: quiet_rules within_delete_loop)



end
