(* ===== verification/DependencyUpdateChecks.thy ===== *)
theory DependencyUpdateChecks
  imports RunCalls GitComponents
begin

text \<open>
  \<open>Reconcile\<close> of \<open>internal/controller/dependencyupdatecheck_controller.go\<close>. The factory for git
  components is an argument, as it is a field of the reconciler. \<open>Inr ()\<close> is a result without
  requeue and without error. A panic while creating a run leaves the loops at once.
\<close>

section \<open>One branch\<close>

definition countRun :: "bool \<Rightarrow> ('w, unit) prog" where
  "countRun success =
     modifyVars (metrics_update (if success then CountScheduledRunSuccess else CountScheduledRunFailure))"

definition plrNameFor :: "string \<Rightarrow> (nat \<Rightarrow> 8 word) \<Rightarrow> string" where
  "plrNameFor timestamp rnd = ''renovate-'' @ timestamp @ ''-'' @ RandomString 8 rnd"

definition handleBranch ::
  "'w env \<Rightarrow> 'w GitComponent \<Rightarrow> string \<Rightarrow> string \<Rightarrow> string \<Rightarrow> ('w, error + unit) prog" where
  "handleBranch E c timestamp kiteSecretName branch =
     hasActivePipelineRun E (GetHost c) (GetRepository c) branch \<bind> (\<lambda>active.
     case active of
       Inl e \<Rightarrow> return (Inr ())
     | Inr True \<Rightarrow> return (Inr ())
     | Inr False \<Rightarrow>
         runtime (randomBytes E) \<bind> (\<lambda>rnd.
         createPipelineRun E (plrNameFor timestamp rnd) c branch kiteSecretName \<bind> (\<lambda>r.
         case r of
           Inl e \<Rightarrow> if isPanic e then return (Inl e) else countRun False \<bind> (\<lambda>_. return (Inr ()))
         | Inr p \<Rightarrow> countRun True \<bind> (\<lambda>_. return (Inr ())))))"

fun handleBranches_loop ::
  "'w env \<Rightarrow> 'w GitComponent \<Rightarrow> string \<Rightarrow> string \<Rightarrow> string list \<Rightarrow> string list \<Rightarrow> ('w, error + string list) prog"
where
  "handleBranches_loop E c timestamp kite [] processed = return (Inr processed)"
| "handleBranches_loop E c timestamp kite (branch # branches) processed =
     (let key = repoBranchKey (GetHost c) (GetRepository c) branch
      in if key \<in> set processed then handleBranches_loop E c timestamp kite branches processed
         else onOk (handleBranch E c timestamp kite branch) (\<lambda>_.
              handleBranches_loop E c timestamp kite branches (processed @ [key])))"

section \<open>All components\<close>

fun components_loop ::
  "'w env \<Rightarrow> (Component \<Rightarrow> ('w, error + 'w GitComponent) prog) \<Rightarrow> string \<Rightarrow> string \<Rightarrow> Component list \<Rightarrow> string list
     \<Rightarrow> ('w, error + unit) prog"
where
  "components_loop E newGitComponent timestamp kite [] processed = return (Inr ())"
| "components_loop E newGitComponent timestamp kite (x # xs) processed =
     newGitComponent x \<bind> (\<lambda>r.
     case r of
       Inl e \<Rightarrow> components_loop E newGitComponent timestamp kite xs processed
     | Inr c \<Rightarrow>
         GetBranches c \<bind> (\<lambda>b.
         case b of
           Inl e \<Rightarrow> components_loop E newGitComponent timestamp kite xs processed
         | Inr branches \<Rightarrow>
             onOk (handleBranches_loop E c timestamp kite branches processed) (\<lambda>processed.
             components_loop E newGitComponent timestamp kite xs processed)))"

definition enabledComponents :: "Component list \<Rightarrow> Component list" where
  "enabledComponents cs =
     filter (\<lambda>c. \<not> hasEntry (Annotations (compMeta c)) MintMakerDisabledAnnotationName ''true'') cs"

text \<open>The name of the Kite token secret, empty when Kite is off or no such secret is found.\<close>

definition findKiteSecret :: "'w env \<Rightarrow> ('w, string) prog" where
  "findKiteSecret E =
     configGet E \<bind> (\<lambda>cfg.
     if \<not> Enabled (Kite cfg) then return []
     else List_Secrets E MintMakerNamespaceName [(KiteTokenSecretLabel, ''true'')] \<bind> (\<lambda>r.
       return (case r of Inl e \<Rightarrow> [] | Inr [] \<Rightarrow> [] | Inr (s # _) \<Rightarrow> Name (secMeta s))))"

definition gatherComponents :: "'w env \<Rightarrow> DependencyUpdateCheck \<Rightarrow> ('w, error + Component list) prog" where
  "gatherComponents E d =
     (if Namespaces d \<noteq> [] then getFilteredComponents E (Namespaces d) else List_Components E [])"

definition markProcessed :: "DependencyUpdateCheck \<Rightarrow> DependencyUpdateCheck" where
  "markProcessed d =
     d\<lparr>ducMeta := (ducMeta d)\<lparr>Annotations :=
         AList.update MintMakerProcessedAnnotationName ''true'' (Annotations (ducMeta d))\<rparr>\<rparr>"

definition isProcessed :: "DependencyUpdateCheck \<Rightarrow> bool" where
  "isProcessed d \<longleftrightarrow> hasEntry (Annotations (ducMeta d)) MintMakerProcessedAnnotationName ''true''"

definition recordCreation :: "'w env \<Rightarrow> DependencyUpdateCheck \<Rightarrow> ('w, unit) prog" where
  "recordCreation E d =
     runtime (clock E) \<bind> (\<lambda>now.
     modifyVars (metrics_update
       (RecordDependencyUpdateCheckCreation (unixSeconds now) (Namespace (ducMeta d)) (Name (ducMeta d)))))"

text \<open>From the marked object on.\<close>

definition handleCheck ::
  "'w env \<Rightarrow> (Component \<Rightarrow> ('w, error + 'w GitComponent) prog) \<Rightarrow> DependencyUpdateCheck \<Rightarrow> ('w, error + unit) prog"
where
  "handleCheck E newGitComponent d =
     onOk (gatherComponents E d) (\<lambda>gathered.
     let componentList = enabledComponents gathered
     in if componentList = [] then return (Inr ())
        else findKiteSecret E \<bind> (\<lambda>kiteSecretName.
          runtime (clock E) \<bind> (\<lambda>now.
          components_loop E newGitComponent (FormatMMDDhhmm (unixSeconds now)) kiteSecretName componentList [])))"

definition reconcileObject ::
  "'w env \<Rightarrow> (Component \<Rightarrow> ('w, error + 'w GitComponent) prog) \<Rightarrow> DependencyUpdateCheck \<Rightarrow> ('w, error + unit) prog"
where
  "reconcileObject E newGitComponent d =
     (if isProcessed d then return (Inr ())
      else recordCreation E d \<bind> (\<lambda>_.
        Update_DependencyUpdateCheck E (markProcessed d) \<bind> (\<lambda>u.
        case u of
          Inl e \<Rightarrow> return (Inr ())
        | Inr d' \<Rightarrow> handleCheck E newGitComponent d')))"

definition Reconcile ::
  "'w env \<Rightarrow> (Component \<Rightarrow> ('w, error + 'w GitComponent) prog) \<Rightarrow> string \<Rightarrow> string \<Rightarrow> ('w, error + unit) prog"
where
  "Reconcile E newGitComponent namespace name =
     Get_DependencyUpdateCheck E namespace name \<bind> (\<lambda>r.
     case r of
       Inl e \<Rightarrow> if IsNotFound e then return (Inr ()) else reconcileObject E newGitComponent emptyDependencyUpdateCheck
     | Inr d \<Rightarrow> reconcileObject E newGitComponent d)"

section \<open>Events about pipeline runs\<close>

text \<open>The look-ups and creations of pipeline runs in a trace.\<close>

fun is_run_event :: "call \<Rightarrow> bool" where
  "is_run_event (CListRuns ns l r) = True"
| "is_run_event (CCreate (OPipelineRun p) r) = True"
| "is_run_event _ = False"

definition run_events :: "call list \<Rightarrow> call list" where
  "run_events ts = filter is_run_event ts"

lemma run_events_append [simp]: "run_events (ts @ us) = run_events ts @ run_events us"
  by (simp add: run_events_def)

lemma run_events_Nil [simp]: "run_events [] = []"
  by (simp add: run_events_def)

lemma run_events_reads [simp]: "list_all is_read ts \<Longrightarrow> run_events ts = []"
proof (induction ts)
  case (Cons t ts)
  then show ?case by (cases t) (auto simp: run_events_def)
qed simp

lemma run_events_none: "list_all (\<lambda>c. \<not> is_run_event c) ts \<Longrightarrow> run_events ts = []"
  by (induction ts) (auto simp: run_events_def)

text \<open>At most one creation, of a run that satisfies the specification.\<close>

definition at_most_one :: "string \<Rightarrow> 'w GitComponent \<Rightarrow> string \<Rightarrow> call list \<Rightarrow> bool" where
  "at_most_one name c branch ts \<longleftrightarrow>
     run_events ts = [] \<or> (\<exists>p r. run_events ts = [CCreate (OPipelineRun p) r] \<and> run_ok name c branch p)"

definition silent :: "('w, 'a) prog \<Rightarrow> bool" where
  "silent m \<longleftrightarrow> within (\<lambda>c. \<not> is_run_event c) m"

lemma silent_quiet: "quiet m \<Longrightarrow> silent m"
  unfolding silent_def
proof (erule within_mono)
  fix c assume "is_read c" then show "\<not> is_run_event c" by (cases c) auto
qed

lemma one_silent_bind:
  "silent m \<Longrightarrow> (\<And>x. emits (f x) (\<lambda>ts r. at_most_one name c branch ts)) \<Longrightarrow>
   emits (m \<bind> f) (\<lambda>ts r. at_most_one name c branch ts)"
  unfolding silent_def within_def by (erule emits_bind) (simp add: at_most_one_def run_events_none)

lemma one_return: "emits (return x) (\<lambda>ts r. at_most_one name c branch ts)"
  by (simp add: emits_return at_most_one_def)

lemma one_silent: "silent m \<Longrightarrow> emits m (\<lambda>ts r. at_most_one name c branch ts)"
  unfolding silent_def within_def by (erule emits_mono) (simp add: at_most_one_def run_events_none)

lemma one_orReturn:
  "silent m \<Longrightarrow> (\<And>x. emits (f x) (\<lambda>ts r. at_most_one name c branch ts)) \<Longrightarrow>
   emits (orReturn res m f) (\<lambda>ts r. at_most_one name c branch ts)"
  unfolding orReturn_def by (rule one_silent_bind) (auto intro: one_return split: sum.splits)

lemma silent_writes:
  "silent (Create_Secret E s)" "silent (Create_ConfigMap E m)" "silent (Delete E x)"
  "silent (ownSecret E plr s)" "silent (ownConfigMap E plr m)" "silent (createRpmSecret E name key)"
  "silent (return y)"
  unfolding silent_def Create_Secret_def Create_ConfigMap_def Delete_def ownSecret_def ownConfigMap_def
    Update_Secret_def Update_ConfigMap_def createRpmSecret_def
  by (auto intro!: quiet_rules split: sum.splits)

lemma silent_ownAll: "silent (ownAll E res plr s rpm m)"
  using silent_writes unfolding ownAll_def silent_def
  by (cases rpm) (auto intro!: quiet_rules)

lemma silent_delete_loop: "silent (delete_loop E xs)"
  unfolding silent_def by (induction xs) (auto simp: Delete_def intro!: quiet_rules)

lemma one_create:
  assumes "run_ok name c branch p" "\<And>x. silent (f x)"
  shows "emits (orReturn res (Create_PipelineRun E p) f) (\<lambda>ts r. at_most_one name c branch ts)"
  unfolding orReturn_def Create_PipelineRun_def
proof (rule emits_bind [OF emits_perform [where Q = "\<lambda>ts r. run_events ts = [CCreate (OPipelineRun p) (map_sum id OPipelineRun r)]"]], goal_cases)
  case (2 ts r)
  have "silent (case r of Inl e \<Rightarrow> return (res, Inl e) | Inr x \<Rightarrow> f x)"
    using assms(2) silent_writes(7) by (auto split: sum.splits)
  then show ?case
    using 2 assms(1) unfolding silent_def within_def
    by (elim emits_mono) (auto simp: at_most_one_def run_events_none)
qed (simp add: run_events_def)

lemma one_body:
  assumes "read_only c"
  shows "emits (createPipelineRun_body E name c branch kite) (\<lambda>ts r. at_most_one name c branch ts)"
proof -
  have ro: "silent (initialToken c)" "silent (GetRPMActivationKey c)" "\<And>s b. silent (GetRenovateConfig c s b)"
    "silent (getMergedDockerConfigJson E c)"
    using assms by (auto simp: read_only_def intro!: silent_quiet quiet_initialToken quiet_rules)
  have asm: "emits (orReturn res (assembleRun E name c branch kite s rpm)
       (\<lambda>p. orReturn res (Create_PipelineRun E p) (\<lambda>plr. ownAll E (res @ [OPipelineRun plr]) plr s rpmS m)))
       (\<lambda>ts r. at_most_one name c branch ts)" for res s rpm rpmS m
    unfolding orReturn_def [of res "assembleRun E name c branch kite s rpm"]
  proof (rule emits_bind [OF assembleRun_ok], goal_cases)
    case (1 ts r)
    then obtain p where "r = Inr p" "run_ok name c branch p" "run_events ts = []" by auto
    then show ?case
      using one_create [of name c branch p "\<lambda>plr. ownAll E (res @ [OPipelineRun plr]) plr s rpmS m", OF _ silent_ownAll]
      by (auto elim: emits_mono simp: at_most_one_def)
  qed
  show ?thesis
    unfolding createPipelineRun_body_def Let_def
    by (intro one_orReturn one_silent_bind asm ro silent_writes)
qed

lemma one_createPipelineRun:
  assumes "read_only c"
  shows "emits (createPipelineRun E name c branch kite) (\<lambda>ts r. at_most_one name c branch ts)"
  unfolding createPipelineRun_def
proof (rule emits_bind [OF one_body [OF assms]], goal_cases)
  case (1 ts r)
  have "silent (case r of (res, result) \<Rightarrow> delete_loop E res \<bind> (\<lambda>_. return result))"
    using silent_delete_loop silent_writes(7) unfolding silent_def
    by (auto intro!: quiet_rules split: prod.splits)
  then show ?case
    using 1 unfolding silent_def within_def
    by (elim emits_mono) (simp add: at_most_one_def run_events_none)
qed

section \<open>Attempts\<close>

text \<open>
  An attempt for a key \<open>host/repository@branch\<close>: one look-up of the runs with the hash of the key,
  and, only if all runs found have completed, at most one creation of a run with that hash.
\<close>

definition keyHash :: "string \<Rightarrow> string" where
  "keyHash key = take 12 (EncodeToString (Sum256 key))"

lemma RepoBranchHash_key: "RepoBranchHash host repository branch = keyHash (repoBranchKey host repository branch)"
  by (simp add: RepoBranchHash_def keyHash_def)

definition lookupOf :: "string \<Rightarrow> error + PipelineRun list \<Rightarrow> call" where
  "lookupOf key res = CListRuns MintMakerNamespaceName [(MintMakerRepoBranchHashLabel, keyHash key)] res"

lemma lookupOf_inj [simp]: "lookupOf k r = lookupOf k' r' \<longleftrightarrow> keyHash k = keyHash k' \<and> r = r'"
  by (simp add: lookupOf_def)

definition attempt :: "string \<Rightarrow> call list \<Rightarrow> bool" where
  "attempt key es \<longleftrightarrow>
     (\<exists>res. es = [lookupOf key res]) \<or>
     (\<exists>items p res. es = [lookupOf key (Inr items), CCreate (OPipelineRun p) res]
        \<and> list_all pipelineRunCompleted items
        \<and> hasEntry (Labels (plrMeta p)) MintMakerRepoBranchHashLabel (keyHash key) \<and> good_run p)"

lemma run_ok_hash:
  "run_ok name c branch p \<Longrightarrow>
   hasEntry (Labels (plrMeta p)) MintMakerRepoBranchHashLabel (keyHash (repoBranchKey (GetHost c) (GetRepository c) branch))"
  by (simp add: run_ok_def runLabels_def hasEntry_def MintMakerRepoBranchHashLabel_def RepoBranchHash_key)

lemma hasActive_emits:
  "emits (hasActivePipelineRun E host repository branch)
     (\<lambda>ts r. \<exists>res. ts = [lookupOf (repoBranchKey host repository branch) res] \<and>
        (r = Inr False \<longrightarrow> (\<exists>items. res = Inr items \<and> list_all pipelineRunCompleted items)))"
proof -
  let ?k = "repoBranchKey host repository branch"
  have "emits (List_PipelineRuns E MintMakerNamespaceName (repoBranchSelector host repository branch))
      (\<lambda>ts r. ts = [lookupOf ?k r])"
    by (simp add: List_PipelineRuns_def emits_perform lookupOf_def repoBranchSelector_def RepoBranchHash_key)
  then show ?thesis
    unfolding hasActivePipelineRun_def
    by (rule emits_onOk) (auto intro!: emits_return simp: list_all_iff list_ex_iff)
qed

lemma silent_count: "silent (countRun b)"
  unfolding silent_def countRun_def by (intro quiet_rules)

lemma one_handle_tail:
  fixes c :: "'w GitComponent"
  assumes "read_only c"
  shows "emits (runtime (randomBytes E) \<bind> (\<lambda>rnd.
         createPipelineRun E (plrNameFor timestamp rnd) c branch kite \<bind> (\<lambda>r.
         case r of
           Inl e \<Rightarrow> if isPanic e then return (Inl e) else countRun False \<bind> (\<lambda>_. return (Inr ()))
         | Inr p \<Rightarrow> countRun True \<bind> (\<lambda>_. return (Inr ())))))
     (\<lambda>ts r. run_events ts = [] \<or> (\<exists>n. at_most_one n c branch ts))"
proof -
  let ?f = "\<lambda>r :: error + PipelineRun. (case r of
           Inl e \<Rightarrow> if isPanic e then return (Inl e) else countRun False \<bind> (\<lambda>_. return (Inr ()))
         | Inr p \<Rightarrow> countRun True \<bind> (\<lambda>_. return (Inr ()))) :: ('w, error + unit) prog"
  have fin: "silent (?f r)" for r
    using silent_count unfolding silent_def by (auto intro!: quiet_rules split: sum.splits)
  have "emits (createPipelineRun E n c branch kite \<bind> ?f) (\<lambda>ts r. at_most_one n c branch ts)" for n
  proof (rule emits_bind [OF one_createPipelineRun [OF assms]], goal_cases)
    case (1 ts r)
    show ?case
      using fin [of r] 1 unfolding silent_def within_def
      by (elim emits_mono) (simp add: at_most_one_def run_events_none)
  qed
  then have "emits (createPipelineRun E n c branch kite \<bind> ?f)
      (\<lambda>ts r. run_events ts = [] \<or> (\<exists>n. at_most_one n c branch ts))" for n
    by (rule emits_mono) blast
  then show ?thesis
    by (intro emits_bind [OF emits_runtime [where Q = "\<lambda>ts r. ts = []"]]) simp_all
qed

lemma handleBranch_attempt:
  assumes "read_only c"
  shows "emits (handleBranch E c timestamp kite branch)
     (\<lambda>ts r. attempt (repoBranchKey (GetHost c) (GetRepository c) branch) (run_events ts))"
  unfolding handleBranch_def
proof (rule emits_bind [OF hasActive_emits], goal_cases)
  case (1 ts active)
  then obtain res where ts: "ts = [lookupOf (repoBranchKey (GetHost c) (GetRepository c) branch) res]"
    and free: "active = Inr False \<Longrightarrow> \<exists>items. res = Inr items \<and> list_all pipelineRunCompleted items"
    by blast
  have ev: "run_events (ts @ us) = lookupOf (repoBranchKey (GetHost c) (GetRepository c) branch) res # run_events us" for us
    by (simp add: ts lookupOf_def run_events_def)
  have "emits (return x) (\<lambda>us r. attempt (repoBranchKey (GetHost c) (GetRepository c) branch) (run_events (ts @ us)))" for x :: "error + unit"
    by (rule emits_return) (simp add: ts lookupOf_def run_events_def attempt_def)
  moreover have "emits (runtime (randomBytes E) \<bind> (\<lambda>rnd.
         createPipelineRun E (plrNameFor timestamp rnd) c branch kite \<bind> (\<lambda>r.
         case r of
           Inl e \<Rightarrow> if isPanic e then return (Inl e) else countRun False \<bind> (\<lambda>_. return (Inr ()))
         | Inr p \<Rightarrow> countRun True \<bind> (\<lambda>_. return (Inr ())))))
     (\<lambda>us r. attempt (repoBranchKey (GetHost c) (GetRepository c) branch) (run_events (ts @ us)))" if "active = Inr False"
  proof (rule emits_mono [OF one_handle_tail [OF assms]])
    fix us r
    assume "run_events us = [] \<or> (\<exists>n. at_most_one n c branch us)"
    then consider "run_events us = []"
      | n p r where "run_events us = [CCreate (OPipelineRun p) r]" "run_ok n c branch p"
      by (auto simp: at_most_one_def)
    then show "attempt (repoBranchKey (GetHost c) (GetRepository c) branch) (run_events (ts @ us))"
    proof cases
      case 1
      then show ?thesis unfolding ev attempt_def by blast
    next
      case (2 n p r)
      from free [OF that] obtain items where "res = Inr items" "list_all pipelineRunCompleted items" by blast
      with 2 show ?thesis
        unfolding ev attempt_def using run_ok_hash [OF 2(2)] by (simp add: run_ok_def)
    qed
  qed
  ultimately show ?case
    by (auto split: sum.splits bool.splits)
qed

text \<open>A trace whose run events are attempts for pairwise different keys outside \<open>old\<close>.\<close>

definition attempts :: "string list \<Rightarrow> (string \<times> call list) list \<Rightarrow> call list \<Rightarrow> bool" where
  "attempts old segs ts \<longleftrightarrow> run_events ts = concat (map snd segs) \<and> (\<forall>(k, es) \<in> set segs. attempt k es)
     \<and> distinct (map fst segs) \<and> set old \<inter> fst ` set segs = {}"

lemma attempts_Nil: "run_events ts = [] \<Longrightarrow> attempts old [] ts"
  by (simp add: attempts_def)

lemma attempts_append:
  "attempts old segs ts \<Longrightarrow> attempts (old @ map fst segs) segs' us \<Longrightarrow> attempts old (segs @ segs') (ts @ us)"
  by (auto simp: attempts_def)

lemma handleBranches_attempts:
  assumes "read_only c"
  shows "emits (handleBranches_loop E c timestamp kite branches processed)
     (\<lambda>ts r. \<exists>segs. attempts processed segs ts \<and> (\<forall>p. r = Inr p \<longrightarrow> p = processed @ map fst segs))"
proof (induction branches arbitrary: processed)
  case Nil
  then show ?case
    by (auto intro!: emits_return exI [of _ "[]"] attempts_Nil)
next
  case (Cons branch branches)
  let ?k = "repoBranchKey (GetHost c) (GetRepository c) branch"
  show ?case
  proof (cases "?k \<in> set processed")
    case True
    then show ?thesis using Cons.IH by simp
  next
    case False
    have "emits (onOk (handleBranch E c timestamp kite branch)
          (\<lambda>_. handleBranches_loop E c timestamp kite branches (processed @ [?k])))
        (\<lambda>ts r. \<exists>segs. attempts processed segs ts \<and> (\<forall>p. r = Inr p \<longrightarrow> p = processed @ map fst segs))"
    proof (rule emits_onOk [OF handleBranch_attempt [OF assms]], goal_cases)
      case (1 ts e)
      then show ?case using False by (auto intro!: exI [of _ "[(?k, run_events ts)]"] simp: attempts_def)
    next
      case (2 ts x)
      then have one: "attempts processed [(?k, run_events ts)] ts" using False by (simp add: attempts_def)
      show ?case
      proof (rule emits_mono [OF Cons.IH], elim exE conjE)
        fix us r segs
        assume "attempts (processed @ [?k]) segs us" "\<forall>p. r = Inr p \<longrightarrow> p = (processed @ [?k]) @ map fst segs"
        then show "\<exists>segs. attempts processed segs (ts @ us) \<and> (\<forall>p. r = Inr p \<longrightarrow> p = processed @ map fst segs)"
          using attempts_append [OF one, of segs us] by (intro exI [of _ "[(?k, run_events ts)] @ segs"]) simp
      qed
    qed
    then show ?thesis using False by (simp add: Let_def)
  qed
qed

text \<open>With a factory that keeps the contract.\<close>

context git_component_factory
begin

lemma components_attempts:
  "emits (components_loop E newGitComponent timestamp kite xs processed) (\<lambda>ts r. \<exists>segs. attempts processed segs ts)"
proof (induction xs arbitrary: processed)
  case Nil
  then show ?case by (auto intro!: emits_return exI [of _ "[]"] attempts_Nil)
next
  case (Cons x xs)
  have rest: "emits (components_loop E newGitComponent timestamp kite xs p)
      (\<lambda>us r. \<exists>segs. attempts p segs (ts @ us))" if "run_events ts = []" for p ts
    by (rule emits_mono [OF Cons.IH [of p]]) (use that in \<open>auto simp: attempts_def\<close>)
  show ?case
    unfolding components_loop.simps
  proof (rule emits_bind [OF factory_emits], goal_cases)
    case (1 ts r)
    show ?case
    proof (cases r)
      case (Inl e)
      with 1 show ?thesis using rest by simp
    next
      case (Inr c)
      then have c: "read_only c" using 1 by simp
      then have gb: "emits (GetBranches c) (\<lambda>ts r. list_all is_read ts)"
        by (simp add: read_only_def within_def)
      show ?thesis
        unfolding Inr sum.case
      proof (rule emits_bind [OF gb], goal_cases)
        case 2: (1 us b)
        then have quiet: "run_events (ts @ us) = []" using 1 by simp
        show ?case
        proof (cases b)
          case (Inl e)
          then show ?thesis using rest [OF quiet] by simp
        next
          case (Inr branches)
          have "emits (onOk (handleBranches_loop E c timestamp kite branches processed)
                 (components_loop E newGitComponent timestamp kite xs))
               (\<lambda>vs r. \<exists>segs. attempts processed segs ((ts @ us) @ vs))"
          proof (rule emits_onOk [OF handleBranches_attempts [OF c]], goal_cases)
            case (1 vs e)
            then show ?case using quiet by (auto simp: attempts_def)
          next
            case (2 vs p)
            then obtain segs where segs: "attempts processed segs vs" "p = processed @ map fst segs" by auto
            then have "attempts processed segs ((ts @ us) @ vs)" using quiet by (simp add: attempts_def)
            from attempts_append [OF this] show ?case
              by (intro emits_mono [OF Cons.IH [of p]]) (use segs(2) in \<open>fastforce simp: append_assoc\<close>)
          qed
          then show ?thesis using Inr by simp
        qed
      qed
    qed
  qed
qed

end

section \<open>\<open>Reconcile\<close>\<close>

lemma quiet_gather [quiet_rules]: "quiet (gatherComponents E d)"
  unfolding gatherComponents_def by (intro quiet_rules)

lemma quiet_findKiteSecret [quiet_rules]: "quiet (findKiteSecret E)"
  unfolding findKiteSecret_def by (intro quiet_rules)

lemma quiet_recordCreation [quiet_rules]: "within P (recordCreation E d)"
  unfolding recordCreation_def by (intro quiet_rules)

lemma isProcessed_mark [simp]: "isProcessed (markProcessed d)"
  by (simp add: isProcessed_def markProcessed_def hasEntry_def update_conv')

lemma attempts_quiet: "run_events ts = [] \<Longrightarrow> attempts old segs us \<Longrightarrow> attempts old segs (ts @ us)"
  by (simp add: attempts_def)

lemma some_attempts_Nil: "run_events ts = [] \<Longrightarrow> \<exists>segs. attempts old segs ts"
  by (intro exI [of _ "[]"] attempts_Nil)

lemma attempts_bind:
  "quiet m \<Longrightarrow> (\<And>x. emits (f x) (\<lambda>ts r. \<exists>segs. attempts old segs ts)) \<Longrightarrow>
   emits (m \<bind> f) (\<lambda>ts r. \<exists>segs. attempts old segs ts)"
  unfolding within_def
proof (erule emits_bind, goal_cases)
  case (1 ts x)
  show ?case by (rule emits_mono [OF 1(1)]) (use 1(2) in \<open>auto intro: attempts_quiet [OF run_events_reads]\<close>)
qed

lemma attempts_return: "emits (return x) (\<lambda>ts r. \<exists>segs. attempts old segs ts)"
  by (rule emits_return) (simp add: some_attempts_Nil)

lemma attempts_onOk:
  "quiet m \<Longrightarrow> (\<And>x. emits (f x) (\<lambda>ts r. \<exists>segs. attempts old segs ts)) \<Longrightarrow>
   emits (onOk m f) (\<lambda>ts r. \<exists>segs. attempts old segs ts)"
  unfolding onOk_def by (rule attempts_bind) (auto intro: attempts_return split: sum.splits)

lemma update_duc_emits:
  "emits (Update_DependencyUpdateCheck E d)
     (\<lambda>ts r. ts = [CUpdate (ODependencyUpdateCheck d) (case r of Inl e \<Rightarrow> Some e | Inr _ \<Rightarrow> None)])"
  by (simp add: Update_DependencyUpdateCheck_def emits_perform)

context git_component_factory
begin

lemma handleCheck_attempts:
  "emits (handleCheck E newGitComponent d) (\<lambda>ts r. \<exists>segs. attempts [] segs ts)"
  unfolding handleCheck_def Let_def
  by (auto intro!: attempts_onOk attempts_bind attempts_return quiet_rules components_attempts)

text \<open>The trace from the object on: nothing, a failed mark, or a mark and then the attempts.\<close>

lemma reconcileObject_emits:
  "emits (reconcileObject E newGitComponent d)
     (\<lambda>ts r. ts = [] \<or> (\<exists>d' res rest. ts = CUpdate (ODependencyUpdateCheck d') res # rest \<and> isProcessed d'
        \<and> (res \<noteq> None \<longrightarrow> rest = [] \<and> r = Inr ()) \<and> (\<exists>segs. attempts [] segs rest)))"
proof (cases "isProcessed d")
  case True
  then show ?thesis by (simp add: reconcileObject_def emits_return)
next
  case False
  have "emits (recordCreation E d) (\<lambda>ts x. list_all (\<lambda>_. False) ts)"
    using quiet_recordCreation [of "\<lambda>_. False" E d] by (simp add: within_def)
  then have rec: "emits (recordCreation E d) (\<lambda>ts x. ts = [])"
    by (rule emits_mono) (auto simp: list_all_iff)
  have "emits (Update_DependencyUpdateCheck E (markProcessed d) \<bind> (\<lambda>u. case u of Inl e \<Rightarrow> return (Inr ())
         | Inr d' \<Rightarrow> handleCheck E newGitComponent d'))
     (\<lambda>ts r. \<exists>d' res rest. ts = CUpdate (ODependencyUpdateCheck d') res # rest \<and> isProcessed d'
        \<and> (res \<noteq> None \<longrightarrow> rest = [] \<and> r = Inr ()) \<and> (\<exists>segs. attempts [] segs rest))"
  proof (rule emits_bind [OF update_duc_emits], goal_cases)
    case (1 ts u)
    then show ?case
      by (cases u) (auto intro!: emits_return some_attempts_Nil emits_mono [OF handleCheck_attempts])
  qed
  with False show ?thesis
    unfolding reconcileObject_def by (auto intro!: emits_bind [OF rec] elim!: emits_mono)
qed

lemma Reconcile_emits:
  "emits (Reconcile E newGitComponent namespace name)
     (\<lambda>ts r. ts = [CGet KDependencyUpdateCheck namespace name] \<or>
        (\<exists>d' res rest. ts = CGet KDependencyUpdateCheck namespace name # CUpdate (ODependencyUpdateCheck d') res # rest
           \<and> isProcessed d' \<and> (res \<noteq> None \<longrightarrow> rest = [] \<and> r = Inr ()) \<and> (\<exists>segs. attempts [] segs rest)))"
  unfolding Reconcile_def
  by (rule emits_bind [OF emits_Get(1)])
    (auto intro!: emits_return emits_mono [OF reconcileObject_emits] split: sum.splits)

end


text \<open>
  C1: in one reconciliation, whatever the cluster and the git services answer, the look-ups
  and creations of pipeline runs form attempts for pairwise different keys
  \<open>host/repository@branch\<close>: each key is looked up once, a run is created only after a look-up that
  succeeded and found no run that has not completed, at most one run is created for a key, and it
  carries the hash of that key as its label.
\<close>

theorem Reconcile_one_run_per_key:
  "emits (Reconcile E (NewGitComponent E) namespace name)
     (\<lambda>ts r. \<exists>segs. run_events ts = concat (map snd segs) \<and> distinct (map fst segs)
        \<and> list_all (\<lambda>(key, es). attempt key es) segs)"
proof (rule emits_mono [OF gc.Reconcile_emits], elim disjE exE conjE)
  fix ts and r :: "error + unit"
  assume "ts = [CGet KDependencyUpdateCheck namespace name]"
  then show "\<exists>segs. run_events ts = concat (map snd segs) \<and> distinct (map fst segs) \<and> list_all (\<lambda>(key, es). attempt key es) segs"
    by (intro exI [of _ "[]"]) (simp add: run_events_def)
next
  fix ts d res rest segs and r :: "error + unit"
  assume "ts = CGet KDependencyUpdateCheck namespace name # CUpdate (ODependencyUpdateCheck d) res # rest" "attempts [] segs rest"
  then show "\<exists>segs. run_events ts = concat (map snd segs) \<and> distinct (map fst segs) \<and> list_all (\<lambda>(key, es). attempt key es) segs"
    by (intro exI [of _ segs]) (simp add: run_events_def attempts_def list_all_iff)
qed

text \<open>
  An object that already carries the mark is left alone: one read, no other call, no
  error, and no change of any package variable.
\<close>

theorem Reconcile_skips_processed:
  assumes "fst (k8sGetDependencyUpdateCheck E namespace name (world s)) = Inr d" "isProcessed d"
  shows "run_state (Reconcile E newGit namespace name) s =
    (Inr (), s\<lparr>world := snd (k8sGetDependencyUpdateCheck E namespace name (world s)),
               trace := trace s @ [CGet KDependencyUpdateCheck namespace name]\<rparr>)"
  using assms by (simp add: Reconcile_def Get_DependencyUpdateCheck_def reconcileObject_def)

definition processedCheck :: DependencyUpdateCheck where
  "processedCheck = markProcessed \<lparr>ducMeta = newMeta ''duc'' ''mintmaker'', Namespaces = []\<rparr>"

theorem Reconcile_skips_processed_witness:
  "trace (snd (run_state (Reconcile (emptyCluster\<lparr>k8sGetDependencyUpdateCheck := (\<lambda>ns n w. (Inr processedCheck, w))\<rparr>)
      (NewGitComponent emptyCluster) ''mintmaker'' ''duc'') start)) = [CGet KDependencyUpdateCheck ''mintmaker'' ''duc'']"
  by (subst Reconcile_skips_processed [where d = processedCheck]) (simp_all add: processedCheck_def start_def)

text \<open>
  C39: an error of the first read that is not "not found" is not returned. The controller
  goes on with an empty object and tries to write that; when the write fails too, as it does for an
  object without a name, the request ends without an error and is never retried.
\<close>

theorem Reconcile_drops_read_error:
  assumes "fst (k8sGetDependencyUpdateCheck E namespace name (world s)) = Inl e" "\<not> IsNotFound e"
    and "\<And>w. \<exists>e'. fst (k8sUpdateDependencyUpdateCheck E (markProcessed emptyDependencyUpdateCheck) w) = Inl e'"
  shows "fst (run_state (Reconcile E newGit namespace name) s) = Inr ()"
proof -
  have "\<not> isProcessed emptyDependencyUpdateCheck"
    by (simp add: isProcessed_def emptyDependencyUpdateCheck_def newMeta_def hasEntry_def)
  moreover obtain g where "\<And>w. fst (k8sUpdateDependencyUpdateCheck E (markProcessed emptyDependencyUpdateCheck) w) = Inl (g w)"
    using assms(3) by metis
  ultimately show ?thesis
    using assms(1,2)
    by (simp add: Reconcile_def Get_DependencyUpdateCheck_def reconcileObject_def Update_DependencyUpdateCheck_def)
qed

theorem Reconcile_drops_read_error_witness:
  "fst (run_state (Reconcile (emptyCluster\<lparr>k8sGetDependencyUpdateCheck := (\<lambda>ns n w. (Inl (Err ''timeout''), w)),
        k8sUpdateDependencyUpdateCheck := (\<lambda>d w. (Inl (Err ''name is required''), w))\<rparr>)
      (NewGitComponent emptyCluster) ''mintmaker'' ''duc'') start) = Inr ()"
  by (rule Reconcile_drops_read_error [where e = "Err ''timeout''"]) simp_all

end
