(* ===== verification/EveryBranch.thy ===== *)
theory EveryBranch
  imports DependencyUpdateChecks
begin

text \<open>
  The other half of \<open>Reconcile\<close>: not only is no repository branch handled twice, none is left out.
  For given answers of the factory and of the git services, the keys that are looked up are those of
  all branches of all enabled components.
\<close>

section \<open>Keys\<close>

text \<open>The first occurrences of keys that are not among those processed.\<close>

fun fresh :: "string list \<Rightarrow> string list \<Rightarrow> string list" where
  "fresh [] processed = []"
| "fresh (k # ks) processed = (if k \<in> set processed then fresh ks processed else k # fresh ks (processed @ [k]))"

lemma fresh_append: "fresh (ks @ ls) p = fresh ks p @ fresh ls (p @ fresh ks p)"
  by (induction ks arbitrary: p) auto

lemma set_fresh: "set (fresh ks p) = set ks - set p"
  by (induction ks arbitrary: p) auto

lemma distinct_fresh: "distinct (fresh ks p)"
  by (induction ks arbitrary: p) (auto simp: set_fresh)

definition branchKeys :: "'w GitComponent \<Rightarrow> string list \<Rightarrow> string list" where
  "branchKeys c branches = map (repoBranchKey (GetHost c) (GetRepository c)) branches"

text \<open>The keys of all branches, when the factory answers \<open>gitOf\<close> and the services \<open>branchesOf\<close>.\<close>

definition wantedKeys ::
  "(Component \<Rightarrow> error + 'w GitComponent) \<Rightarrow> ('w GitComponent \<Rightarrow> error + string list) \<Rightarrow> Component list \<Rightarrow> string list" where
  "wantedKeys gitOf branchesOf xs =
     concat (map (\<lambda>x. case gitOf x of
         Inl e \<Rightarrow> []
       | Inr c \<Rightarrow> (case branchesOf c of Inl e \<Rightarrow> [] | Inr branches \<Rightarrow> branchKeys c branches)) xs)"

section \<open>Look-ups in a trace\<close>

definition selector :: "string \<Rightarrow> string gomap" where
  "selector key = [(MintMakerRepoBranchHashLabel, keyHash key)]"

fun lookups :: "call list \<Rightarrow> string gomap list" where
  "lookups [] = []"
| "lookups (CListRuns ns l r # ts) = l # lookups ts"
| "lookups (c # ts) = lookups ts"

lemma lookups_append [simp]: "lookups (ts @ us) = lookups ts @ lookups us"
  by (induction ts rule: lookups.induct) auto

lemma lookups_run_events: "lookups (run_events ts) = lookups ts"
proof (induction ts)
  case (Cons c ts)
  show ?case
  proof (cases c)
    case (CCreate x r)
    then show ?thesis using Cons by (cases x) (auto simp: run_events_def)
  qed (use Cons in \<open>auto simp: run_events_def\<close>)
qed (simp add: run_events_def)

lemma lookups_reads [simp]: "list_all is_read ts \<Longrightarrow> lookups ts = []"
  using lookups_run_events [of ts] by simp

lemma lookups_attempt: "attempt key (run_events ts) \<Longrightarrow> lookups ts = [selector key]"
  using lookups_run_events [of ts] by (auto simp: attempt_def lookupOf_def selector_def)

section \<open>The loops\<close>

lemma handleBranch_result:
  assumes "read_only c"
  shows "emits (handleBranch E c timestamp kite branch) (\<lambda>ts r. \<forall>e. r = Inl e \<longrightarrow> isPanic e)"
proof -
  have "emits (countRun b \<bind> (\<lambda>_. return (Inr ()))) (\<lambda>ts r. \<forall>e. r = Inl e \<longrightarrow> isPanic e)" for b
    unfolding countRun_def by (rule emits_bind [OF emits_modifyVars [where Q = "\<lambda>_ _. True"]]) (auto intro: emits_return)
  then have "emits (createPipelineRun E n c branch kite \<bind> (\<lambda>r. case r of
           Inl e \<Rightarrow> if isPanic e then return (Inl e) else countRun False \<bind> (\<lambda>_. return (Inr ()))
         | Inr p \<Rightarrow> countRun True \<bind> (\<lambda>_. return (Inr ())))) (\<lambda>ts r. \<forall>e. r = Inl e \<longrightarrow> isPanic e)" for n
    by (intro emits_bind [OF one_createPipelineRun [OF assms]]) (auto intro: emits_return split: sum.splits)
  then show ?thesis
    unfolding handleBranch_def
    by (intro emits_bind [OF hasActive_emits])
      (auto intro!: emits_return emits_bind [OF emits_runtime [where Q = "\<lambda>_ _. True"]] split: sum.splits bool.splits)
qed

lemma handleBranch_lookup:
  assumes "read_only c"
  shows "emits (handleBranch E c timestamp kite branch) (\<lambda>ts r.
    lookups ts = [selector (repoBranchKey (GetHost c) (GetRepository c) branch)] \<and> (\<forall>e. r = Inl e \<longrightarrow> isPanic e))"
  by (rule emits_mono [OF emits_conj [OF handleBranch_attempt [OF assms] handleBranch_result [OF assms]]])
    (simp add: lookups_attempt)

lemma handleBranches_lookups:
  assumes "read_only c"
  shows "emits (handleBranches_loop E c timestamp kite branches processed) (\<lambda>ts r. case r of
      Inl e \<Rightarrow> isPanic e
    | Inr p \<Rightarrow> p = processed @ fresh (branchKeys c branches) processed \<and>
        lookups ts = map selector (fresh (branchKeys c branches) processed))"
proof (induction branches arbitrary: processed)
  case Nil
  then show ?case by (simp add: branchKeys_def emits_return)
next
  case (Cons branch branches)
  let ?k = "repoBranchKey (GetHost c) (GetRepository c) branch"
  have keys: "branchKeys c (branch # branches) = ?k # branchKeys c branches" by (simp add: branchKeys_def)
  show ?case
  proof (cases "?k \<in> set processed")
    case True
    then have "fresh (branchKeys c (branch # branches)) processed = fresh (branchKeys c branches) processed"
      by (simp add: keys)
    then show ?thesis using Cons.IH [of processed] True by (simp only: handleBranches_loop.simps Let_def if_True)
  next
    case False
    have "emits (onOk (handleBranch E c timestamp kite branch)
          (\<lambda>_. handleBranches_loop E c timestamp kite branches (processed @ [?k])))
        (\<lambda>ts r. case r of
      Inl e \<Rightarrow> isPanic e
    | Inr p \<Rightarrow> p = processed @ fresh (branchKeys c (branch # branches)) processed \<and>
        lookups ts = map selector (fresh (branchKeys c (branch # branches)) processed))"
      by (rule emits_onOk [OF handleBranch_lookup [OF assms]])
        (use False in \<open>auto simp: keys intro!: emits_mono [OF Cons.IH] split: sum.splits\<close>)
    then show ?thesis using False by (simp add: Let_def)
  qed
qed

text \<open>The answers of the factory and of the services.\<close>

definition answered ::
  "(Component \<Rightarrow> ('w, error + 'w GitComponent) prog) \<Rightarrow> (Component \<Rightarrow> error + 'w GitComponent)
     \<Rightarrow> ('w GitComponent \<Rightarrow> error + string list) \<Rightarrow> Component \<Rightarrow> bool" where
  "answered newGit gitOf branchesOf x \<longleftrightarrow>
     emits (newGit x) (\<lambda>ts r. list_all is_read ts \<and> r = gitOf x) \<and>
     (\<forall>c. gitOf x = Inr c \<longrightarrow> read_only c \<and> emits (GetBranches c) (\<lambda>ts r. list_all is_read ts \<and> r = branchesOf c))"

lemma components_lookups:
  assumes "\<forall>x \<in> set xs. answered newGit gitOf branchesOf x"
  shows "emits (components_loop E newGit timestamp kite xs processed) (\<lambda>ts r. case r of
      Inl e \<Rightarrow> isPanic e
    | Inr _ \<Rightarrow> lookups ts = map selector (fresh (wantedKeys gitOf branchesOf xs) processed))"
  using assms
proof (induction xs arbitrary: processed)
  case Nil
  then show ?case by (simp add: wantedKeys_def emits_return)
next
  case (Cons x xs)
  have new: "emits (newGit x) (\<lambda>ts r. list_all is_read ts \<and> r = gitOf x)" using Cons.prems by (simp add: answered_def)
  note IH = Cons.IH [OF ballI [OF bspec [OF Cons.prems list.set_intros(2)]]]
  let ?Q = "\<lambda>ts r. case r of Inl e \<Rightarrow> isPanic e
    | Inr _ \<Rightarrow> lookups ts = map selector (fresh (wantedKeys gitOf branchesOf (x # xs)) processed)"
  show ?case
    unfolding components_loop.simps
  proof (rule emits_bind [OF new], elim conjE, goal_cases)
    case (1 ts r)
    show ?case
    proof (cases "gitOf x")
      case (Inl e)
      then show ?thesis
        using 1 IH [of processed] by (auto simp: wantedKeys_def elim!: emits_mono split: sum.splits)
    next
      case (Inr c)
      then have c: "read_only c" "emits (GetBranches c) (\<lambda>ts r. list_all is_read ts \<and> r = branchesOf c)"
        using Cons.prems by (auto simp: answered_def)
      have "emits (GetBranches c \<bind> (\<lambda>b. case b of
           Inl e \<Rightarrow> components_loop E newGit timestamp kite xs processed
         | Inr branches \<Rightarrow>
             onOk (handleBranches_loop E c timestamp kite branches processed) (\<lambda>processed.
             components_loop E newGit timestamp kite xs processed))) ?Q"
      proof (rule emits_bind [OF c(2)], elim conjE, goal_cases)
        case (1 us b)
        show ?case
        proof (cases "branchesOf c")
          case (Inl e)
          then show ?thesis
            using 1 IH [of processed] \<open>gitOf x = Inr c\<close> by (auto simp: wantedKeys_def elim!: emits_mono split: sum.splits)
        next
          case (Inr branches)
          have w: "wantedKeys gitOf branchesOf (x # xs) = branchKeys c branches @ wantedKeys gitOf branchesOf xs"
            using Inr \<open>gitOf x = Inr c\<close> by (simp add: wantedKeys_def)
          have "emits (onOk (handleBranches_loop E c timestamp kite branches processed) (\<lambda>processed.
             components_loop E newGit timestamp kite xs processed)) ?Q"
            by (rule emits_onOk [OF handleBranches_lookups [OF c(1)]])
              (auto simp: w fresh_append elim!: intro!: emits_mono [OF IH] split: sum.splits)
          then show ?thesis using 1 Inr by (auto elim!: emits_mono split: sum.splits)
        qed
      qed
      then show ?thesis using 1 Inr by (auto elim!: emits_mono split: sum.splits)
    qed
  qed
qed

section \<open>The reconciliation\<close>

lemma emits_quiet_bind:
  assumes "quiet m" "\<And>x. emits (f x) (\<lambda>ts r. case r of Inl e \<Rightarrow> isPanic e | Inr _ \<Rightarrow> lookups ts = ks)"
  shows "emits (m \<bind> f) (\<lambda>ts r. case r of Inl e \<Rightarrow> isPanic e | Inr _ \<Rightarrow> lookups ts = ks)"
  by (rule emits_bind [OF assms(1) [unfolded within_def]])
    (auto intro!: emits_mono [OF assms(2)] split: sum.splits)

lemma handleCheck_lookups:
  assumes "emits (gatherComponents E d) (\<lambda>ts r. list_all is_read ts \<and> r = Inr cs)"
    and "\<forall>x \<in> set (enabledComponents cs). answered newGit gitOf branchesOf x"
  shows "emits (handleCheck E newGit d) (\<lambda>ts r. case r of
      Inl e \<Rightarrow> isPanic e
    | Inr _ \<Rightarrow> lookups ts = map selector (fresh (wantedKeys gitOf branchesOf (enabledComponents cs)) []))"
proof -
  let ?ks = "map selector (fresh (wantedKeys gitOf branchesOf (enabledComponents cs)) [])"
  have loop: "emits (findKiteSecret E \<bind> (\<lambda>kite. runtime (clock E) \<bind> (\<lambda>now.
          components_loop E newGit (FormatMMDDhhmm (unixSeconds now)) kite (enabledComponents cs) [])))
      (\<lambda>ts r. case r of Inl e \<Rightarrow> isPanic e | Inr _ \<Rightarrow> lookups ts = ?ks)"
    by (intro emits_quiet_bind components_lookups [OF assms(2)] quiet_rules)
  have "emits (let componentList = enabledComponents cs
     in if componentList = [] then return (Inr ())
        else findKiteSecret E \<bind> (\<lambda>kiteSecretName. runtime (clock E) \<bind> (\<lambda>now.
          components_loop E newGit (FormatMMDDhhmm (unixSeconds now)) kiteSecretName componentList [])))
      (\<lambda>ts r. case r of Inl e \<Rightarrow> isPanic e | Inr _ \<Rightarrow> lookups ts = ?ks)"
    using loop by (auto simp: Let_def wantedKeys_def intro: emits_return)
  then show ?thesis
    unfolding handleCheck_def
    by (intro emits_onOk [OF assms(1)]) (auto elim!: emits_mono split: sum.splits)
qed

text \<open>
  C3: a reconciliation leaves no branch out. When the object is new and can be marked, and the
  components it asks for are listed, then, unless creating a run panics, the runs that are looked up
  are those of every branch of every enabled component that the factory accepts and whose service
  answers, each host, repository and branch once.
\<close>

theorem Reconcile_every_branch:
  assumes "\<And>w. fst (k8sGetDependencyUpdateCheck E namespace name w) = Inr d" "\<not> isProcessed d"
    and "\<And>w. fst (k8sUpdateDependencyUpdateCheck E (markProcessed d) w) = Inr d'"
    and "emits (gatherComponents E d') (\<lambda>ts r. list_all is_read ts \<and> r = Inr cs)"
    and "\<forall>x \<in> set (enabledComponents cs). answered newGit gitOf branchesOf x"
  shows "emits (Reconcile E newGit namespace name) (\<lambda>ts r. case r of
      Inl e \<Rightarrow> isPanic e
    | Inr _ \<Rightarrow> \<exists>keys. lookups ts = map selector keys \<and> distinct keys \<and>
        set keys = set (wantedKeys gitOf branchesOf (enabledComponents cs)))"
proof -
  have get: "emits (Get_DependencyUpdateCheck E namespace name) (\<lambda>ts r. lookups ts = [] \<and> r = Inr d)"
    unfolding Get_DependencyUpdateCheck_def using assms(1) by (auto simp: emits_def)
  have upd: "emits (Update_DependencyUpdateCheck E (markProcessed d)) (\<lambda>ts r. lookups ts = [] \<and> r = Inr d')"
    unfolding Update_DependencyUpdateCheck_def using assms(3) by (auto simp: emits_def)
  let ?ks = "map selector (fresh (wantedKeys gitOf branchesOf (enabledComponents cs)) [])"
  have hc: "emits (handleCheck E newGit d') (\<lambda>ts r. case r of Inl e \<Rightarrow> isPanic e | Inr _ \<Rightarrow> lookups ts = ?ks)"
    by (rule handleCheck_lookups [OF assms(4,5)])
  have "emits (Update_DependencyUpdateCheck E (markProcessed d) \<bind>
        (\<lambda>u. case u of Inl e \<Rightarrow> return (Inr ()) | Inr d' \<Rightarrow> handleCheck E newGit d'))
      (\<lambda>ts r. case r of Inl e \<Rightarrow> isPanic e | Inr _ \<Rightarrow> lookups ts = ?ks)"
    by (rule emits_bind [OF upd]) (auto intro!: emits_mono [OF hc] split: sum.splits)
  then have "emits (reconcileObject E newGit d) (\<lambda>ts r. case r of Inl e \<Rightarrow> isPanic e | Inr _ \<Rightarrow> lookups ts = ?ks)"
    unfolding reconcileObject_def using assms(2) by (simp add: emits_quiet_bind quiet_rules)
  then have "emits (Reconcile E newGit namespace name) (\<lambda>ts r. case r of Inl e \<Rightarrow> isPanic e | Inr _ \<Rightarrow> lookups ts = ?ks)"
    unfolding Reconcile_def by (intro emits_bind [OF get]) (auto elim!: emits_mono split: sum.splits)
  then show ?thesis
    by (rule emits_mono)
      (auto split: sum.splits intro!: exI [of _ "fresh (wantedKeys gitOf branchesOf (enabledComponents cs)) []"]
        simp: distinct_fresh set_fresh)
qed

text \<open>Two components of one repository: one key.\<close>

definition twoComponents :: "Component list" where
  "twoComponents = [sampleComponent ''x'' ''a'', sampleComponent ''y'' ''a'']"

definition newCheck :: DependencyUpdateCheck where
  "newCheck = \<lparr>ducMeta = newMeta ''duc'' ''mintmaker'', Namespaces = []\<rparr>"

definition twoCluster :: "unit env" where
  "twoCluster = emptyCluster\<lparr>k8sGetDependencyUpdateCheck := (\<lambda>ns n w. (Inr newCheck, w)),
     k8sListComponents := (\<lambda>ns w. (Inr twoComponents, w))\<rparr>"

theorem Reconcile_every_branch_witness:
  "case fst (run_state (Reconcile twoCluster (\<lambda>x. return (Inr (sampleGitComponent ''gitlab''))) ''mintmaker'' ''duc'') start) of
     Inl e \<Rightarrow> isPanic e
   | Inr _ \<Rightarrow> lookups (trace (snd (run_state (Reconcile twoCluster (\<lambda>x. return (Inr (sampleGitComponent ''gitlab'')))
       ''mintmaker'' ''duc'') start))) = [selector ''host/o/r@main'']"
proof -
  let ?g = "sampleGitComponent ''gitlab'' :: unit GitComponent"
  have ans: "answered (\<lambda>x. return (Inr ?g)) (\<lambda>x. Inr ?g) (\<lambda>c. Inr [''main'']) x" for x
    by (auto simp: answered_def emits_return) (simp add: sampleGitComponent_def emits_return)
  have en: "enabledComponents twoComponents = twoComponents"
    by (simp add: enabledComponents_def twoComponents_def sampleComponent_def newMeta_def hasEntry_def)
  have keys: "set (wantedKeys (\<lambda>x. Inr ?g) (\<lambda>c. Inr [''main'']) twoComponents) = {''host/o/r@main''}"
    by (simp add: wantedKeys_def twoComponents_def branchKeys_def sampleGitComponent_def repoBranchKey_def)
  have answers: "k8sGetDependencyUpdateCheck twoCluster = (\<lambda>ns n w. (Inr newCheck, w))"
    "k8sUpdateDependencyUpdateCheck twoCluster = (\<lambda>x w. (Inr x, w))"
    by (simp_all add: twoCluster_def emptyCluster_def)
  have cluster: "\<not> isProcessed newCheck" "Namespaces newCheck = []"
    by (simp_all add: newCheck_def isProcessed_def newMeta_def hasEntry_def)
  have gather: "emits (gatherComponents twoCluster (markProcessed newCheck)) (\<lambda>ts r. list_all is_read ts \<and> r = Inr twoComponents)"
    by (simp add: gatherComponents_def markProcessed_def newCheck_def List_Components_def emits_def twoCluster_def)
  define m where "m = Reconcile twoCluster (\<lambda>x. return (Inr ?g)) ''mintmaker'' ''duc''"
  have em: "emits m (\<lambda>ts r. case r of
      Inl e \<Rightarrow> isPanic e
    | Inr _ \<Rightarrow> \<exists>keys. lookups ts = map selector keys \<and> distinct keys \<and>
        set keys = set (wantedKeys (\<lambda>x. Inr ?g) (\<lambda>c. Inr [''main'']) (enabledComponents twoComponents)))"
    unfolding m_def by (rule Reconcile_every_branch [where d = newCheck, OF _ cluster(1) _ gather])
      (simp_all add: answers ans)
  have one: "keys = [k]" if "distinct keys" "set keys = {k}" for keys and k :: string
  proof (cases keys)
    case (Cons a as)
    then show ?thesis using that by (cases as) auto
  qed (use that in simp)
  obtain ts where ts: "trace (snd (run_state m start)) = ts"
    "case fst (run_state m start) of Inl e \<Rightarrow> isPanic e
     | Inr _ \<Rightarrow> \<exists>keys. lookups ts = map selector keys \<and> distinct keys \<and> set keys = {''host/o/r@main''}"
    using emits_run [OF em, of start] unfolding en keys by (auto simp: start_def)
  have "case fst (run_state m start) of Inl e \<Rightarrow> isPanic e
     | Inr _ \<Rightarrow> lookups (trace (snd (run_state m start))) = [selector ''host/o/r@main'']"
  proof (cases "fst (run_state m start)")
    case (Inl e)
    then show ?thesis using ts(2) by simp
  next
    case (Inr u)
    then obtain ks where ks: "lookups ts = map selector ks" "distinct ks" "set ks = {''host/o/r@main''}"
      using ts(2) by (simp only: sum.case) blast
    show ?thesis unfolding ts(1) Inr sum.case ks(1) one [OF ks(2,3)] by simp
  qed
  then show ?thesis unfolding m_def .
qed

end
