(* ===== verification/EventController.thy ===== *)
theory EventController
  imports GitComponents PipelineRuns
begin

text \<open>
  \<open>internal/controller/event_controller.go\<close>: the controller that reacts to a pod that cannot mount
  its secret because the GitHub token is not in it yet. It puts the token into the secret, or cancels
  the pipeline run when it cannot. The deferred function of \<open>Reconcile\<close> is what runs after the body;
  the body returns the variables it captures.
\<close>

section \<open>The message of the event\<close>

definition missingKey :: string where
  "missingKey = ''references non-existent secret key: renovate-token''"

definition volumeQuote :: string where
  "volumeQuote = ''volume '' @ [CHR 0x22]"

text \<open>
  The regular expression \<open>volume "([^"]+)".*references non-existent secret key: renovate-token\<close> at
  one position: the name runs to the next quote, and the key must follow on the same line.
\<close>

definition matchHere :: "string \<Rightarrow> string option" where
  "matchHere s =
     (if HasPrefix s volumeQuote then
        (let t = drop (length volumeQuote) s;
             name = takeWhile (\<lambda>c. c \<noteq> CHR 0x22) t;
             rest = dropWhile (\<lambda>c. c \<noteq> CHR 0x22) t
         in if name \<noteq> [] \<and> rest \<noteq> [] \<and> Contains (takeWhile (\<lambda>c. c \<noteq> CHR 0x0A) (tl rest)) missingKey
            then Some name else None)
      else None)"

text \<open>\<open>FindStringSubmatch\<close>: the leftmost match.\<close>

fun findVolumeName :: "string \<Rightarrow> string option" where
  "findVolumeName [] = None"
| "findVolumeName (c # s) = (case matchHere (c # s) of Some v \<Rightarrow> Some v | None \<Rightarrow> findVolumeName s)"

section \<open>The reconciler\<close>

definition processedAnnotation :: string where
  "processedAnnotation = ''mintmaker.appstudio.redhat.com/processed''"

definition componentNameLabel :: string where
  "componentNameLabel = ''mintmaker.appstudio.redhat.com/component''"

definition componentNamespaceLabel :: string where
  "componentNamespaceLabel = ''mintmaker.appstudio.redhat.com/namespace''"

definition pipelineRunLabel :: string where
  "pipelineRunLabel = ''tekton.dev/pipelineRun''"

definition markEvent :: "Event \<Rightarrow> Event" where
  "markEvent e = e\<lparr>evMeta := (evMeta e)\<lparr>Annotations := AList.update processedAnnotation ''true'' (Annotations (evMeta e))\<rparr>\<rparr>"

definition markEventAsProcessed :: "'w env \<Rightarrow> Event \<Rightarrow> ('w, error option) prog" where
  "markEventAsProcessed E event = Patch_Event E event (markEvent event)"

text \<open>The zero values of the captured variables.\<close>

definition emptyEvent :: Event where
  "emptyEvent = \<lparr>evMeta = newMeta [] [], InvolvedKind = [], InvolvedName = [], InvolvedNamespace = [],
     Reason = [], Message = []\<rparr>"

definition emptyPod :: Pod where
  "emptyPod = \<lparr>podMeta = newMeta [] [], podVolumes = []\<rparr>"

definition cancelled :: "'w env \<Rightarrow> string \<Rightarrow> PipelineRun \<Rightarrow> PipelineRun" where
  "cancelled E errMessage plr =
     plr\<lparr>specStatus := ''Cancelled'', Conditions := markFailed E errMessage (Conditions plr)\<rparr>"

definition cancelRun :: "'w env \<Rightarrow> Pod \<Rightarrow> string \<Rightarrow> ('w, unit) prog" where
  "cancelRun E pod errMessage =
     (case map_of (Labels (podMeta pod)) pipelineRunLabel of
        None \<Rightarrow> return ()
      | Some plrName \<Rightarrow>
          Get_PipelineRun E (Namespace (podMeta pod)) plrName \<bind> (\<lambda>r.
          case r of
            Inl e \<Rightarrow> return ()
          | Inr plr \<Rightarrow> Patch_PipelineRun E plr (cancelled E errMessage plr) \<bind> (\<lambda>_. return ())))"

definition eventDeferred :: "'w env \<Rightarrow> Event \<Rightarrow> Pod \<Rightarrow> string \<Rightarrow> ('w, unit) prog" where
  "eventDeferred E evt pod errMessage =
     (if Name (evMeta evt) \<noteq> [] then markEventAsProcessed E evt \<bind> (\<lambda>_. return ()) else return ()) \<bind> (\<lambda>_.
     if Name (podMeta pod) \<noteq> [] \<and> errMessage \<noteq> [] then cancelRun E pod errMessage else return ())"

fun secretOfVolume :: "string \<Rightarrow> PodVolume list \<Rightarrow> string" where
  "secretOfVolume name [] = []"
| "secretOfVolume name (v # vs) =
     (case podVolSecret v of
        Some s \<Rightarrow> if podVolName v = name then s else secretOfVolume name vs
      | None \<Rightarrow> secretOfVolume name vs)"

text \<open>
  Filling in the token, from the secret on: the error message the deferred function will see, and
  the result.
\<close>

definition addToken :: "string \<Rightarrow> Secret \<Rightarrow> Secret" where
  "addToken token s = s\<lparr>Data := AList.update ''renovate-token'' token (Data s)\<rparr>"

definition provideToken ::
  "'w env \<Rightarrow> (Component \<Rightarrow> ('w, error + 'w GitComponent) prog) \<Rightarrow> Pod \<Rightarrow> Secret \<Rightarrow> ('w, string \<times> (error + unit)) prog"
where
  "provideToken E newGitComponent pod secret =
     (if map_of (Data secret) ''renovate-token'' \<noteq> None then return ([], Inr ())
      else
        Get_Component E (mapGet (Labels (podMeta pod)) componentNamespaceLabel)
          (mapGet (Labels (podMeta pod)) componentNameLabel) \<bind> (\<lambda>r.
        case r of
          Inl e \<Rightarrow> if IsNotFound e then return ([], Inr ()) else return (Error e, Inl e)
        | Inr component \<Rightarrow>
            newGitComponent component \<bind> (\<lambda>g.
            case g of
              Inl e \<Rightarrow> return (Error e, Inr ())
            | Inr gitComp \<Rightarrow>
                GetToken gitComp \<bind> (\<lambda>t.
                case t of
                  Inl e \<Rightarrow> return (Error e, Inr ())
                | Inr token \<Rightarrow>
                    Update_Secret E (addToken token secret) \<bind> (\<lambda>u.
                    return (case u of Inl e \<Rightarrow> (Error e, Inl e) | Inr _ \<Rightarrow> ([], Inr ())))))))"

definition handlePod ::
  "'w env \<Rightarrow> (Component \<Rightarrow> ('w, error + 'w GitComponent) prog) \<Rightarrow> Event \<Rightarrow> string \<Rightarrow> Pod
     \<Rightarrow> ('w, string \<times> (error + unit)) prog"
where
  "handlePod E newGitComponent evt volumeName pod =
     (let secretName = secretOfVolume volumeName (podVolumes pod)
      in if secretName = [] then return ([], Inr ())
         else Get_Secret E (InvolvedNamespace evt) secretName \<bind> (\<lambda>r.
           case r of
             Inl e \<Rightarrow> if IsNotFound e then return ([], Inr ()) else return (Error e, Inl e)
           | Inr secret \<Rightarrow> provideToken E newGitComponent pod secret))"

text \<open>The body: the pod it has read (empty if none), the error message and the result.\<close>

definition handleEvent ::
  "'w env \<Rightarrow> (Component \<Rightarrow> ('w, error + 'w GitComponent) prog) \<Rightarrow> Event \<Rightarrow> ('w, Pod \<times> string \<times> (error + unit)) prog"
where
  "handleEvent E newGitComponent evt =
     (if InvolvedKind evt \<noteq> ''Pod'' then return (emptyPod, [], Inr ())
      else case findVolumeName (Message evt) of
        None \<Rightarrow> return (emptyPod, [], Inr ())
      | Some volumeName \<Rightarrow>
          Get_Pod E (InvolvedNamespace evt) (InvolvedName evt) \<bind> (\<lambda>r.
          case r of
            Inl e \<Rightarrow> return (emptyPod, [], if IsNotFound e then Inr () else Inl e)
          | Inr pod \<Rightarrow> handlePod E newGitComponent evt volumeName pod \<bind> (\<lambda>(m, res). return (pod, m, res))))"

definition EventReconcile ::
  "'w env \<Rightarrow> (Component \<Rightarrow> ('w, error + 'w GitComponent) prog) \<Rightarrow> string \<Rightarrow> string \<Rightarrow> ('w, error + unit) prog"
where
  "EventReconcile E newGitComponent namespace name =
     Get_Event E namespace name \<bind> (\<lambda>r.
     case r of
       Inl e \<Rightarrow> eventDeferred E emptyEvent emptyPod [] \<bind> (\<lambda>_. return (if IsNotFound e then Inr () else Inl e))
     | Inr evt \<Rightarrow>
         handleEvent E newGitComponent evt \<bind> (\<lambda>(pod, errMessage, result).
         eventDeferred E evt pod errMessage \<bind> (\<lambda>_. return result)))"

text \<open>
  The predicate of \<open>SetupWithManager\<close> for creations, on an event; every update, deletion and generic
  event is filtered out.
\<close>

definition eventCreateFunc :: "Event \<Rightarrow> bool" where
  "eventCreateFunc evt \<longleftrightarrow> Reason evt = ''FailedMount'' \<and> map_of (Annotations (evMeta evt)) processedAnnotation = None"

section \<open>Calls\<close>

fun event_call :: "'w env \<Rightarrow> call \<Rightarrow> bool" where
  "event_call E (CUpdate (OSecret s) r) = (map_of (Data s) ''renovate-token'' \<noteq> None)"
| "event_call E (CPatch (OEvent a) (OEvent b) r) = (b = markEvent a)"
| "event_call E (CPatch (OPipelineRun p) (OPipelineRun q) r) = (\<exists>m. m \<noteq> [] \<and> q = cancelled E m p)"
| "event_call E (CGet k ns n) = True"
| "event_call E c = is_read c"

lemma event_call_read: "is_read c \<Longrightarrow> event_call E c"
  by (cases c) auto

lemma within_event_read: "quiet m \<Longrightarrow> within (event_call E) m"
  by (erule within_mono) (rule event_call_read)

lemma within_deferred: "within (event_call E) (eventDeferred E evt pod m)"
  unfolding eventDeferred_def markEventAsProcessed_def cancelRun_def Patch_Event_def Patch_PipelineRun_def
  by (auto intro!: quiet_rules)

lemma token_added [simp]: "map_of (Data (addToken t s)) ''renovate-token'' = Some t"
  by (simp add: addToken_def update_conv')

lemma addToken_keeps: "k \<noteq> ''renovate-token'' \<Longrightarrow> map_of (Data (addToken t s)) k = map_of (Data s) k"
  by (simp add: addToken_def update_conv')

text \<open>Whether a trace has stored a token, and whether it has cancelled a run.\<close>

fun stores_token :: "call \<Rightarrow> bool" where
  "stores_token (CUpdate (OSecret s) None) = True"
| "stores_token _ = False"

fun cancels_run :: "call \<Rightarrow> bool" where
  "cancels_run (CPatch (OPipelineRun p) (OPipelineRun q) r) = True"
| "cancels_run _ = False"

lemma read_neither: "is_read c \<Longrightarrow> \<not> stores_token c \<and> \<not> cancels_run c"
  by (cases c) auto

lemma reads_neither_event: "list_all is_read ts \<Longrightarrow> \<not> list_ex stores_token ts \<and> \<not> list_ex cancels_run ts"
  by (induction ts) (auto dest: read_neither)

text \<open>The books of the body: it cancels nothing itself, and a stored token leaves no message.\<close>

definition token_books :: "call list \<Rightarrow> string \<Rightarrow> bool" where
  "token_books ts m \<longleftrightarrow> \<not> list_ex cancels_run ts \<and> (list_ex stores_token ts \<longrightarrow> m = [])"

lemma token_books_quiet: "list_all is_read ts \<Longrightarrow> token_books us m \<Longrightarrow> token_books (ts @ us) m"
  using reads_neither_event [of ts] by (simp add: token_books_def)

lemma books_return: "f x = m \<Longrightarrow> emits (return x) (\<lambda>ts r. token_books ts (f r))"
  by (simp add: emits_return token_books_def)

lemma books_bind:
  "emits m (\<lambda>ts r. list_all is_read ts \<and> P r) \<Longrightarrow> (\<And>x. P x \<Longrightarrow> emits (g x) (\<lambda>ts r. token_books ts (f r))) \<Longrightarrow>
   emits (m \<bind> g) (\<lambda>ts r. token_books ts (f r))"
proof (erule emits_bind, goal_cases)
  case (1 ts x)
  show ?case
    by (rule emits_mono [OF 1(1)]) (use 1(2) in \<open>auto intro: token_books_quiet\<close>)
qed

lemma books_update:
  "emits (Update_Secret E s \<bind> (\<lambda>u. return (case u of Inl e \<Rightarrow> (Error e, Inl e) | Inr _ \<Rightarrow> ([], Inr ()))))
     (\<lambda>ts r. token_books ts (fst r))"
proof -
  have "emits (Update_Secret E s) (\<lambda>ts u. ts = [CUpdate (OSecret s) (case u of Inl e \<Rightarrow> Some e | Inr _ \<Rightarrow> None)])"
    unfolding Update_Secret_def asResult_def
    by (rule emits_bind [OF emits_perform [where Q = "\<lambda>ts r. ts = [CUpdate (OSecret s) r]"]])
      (auto intro!: emits_return split: option.splits)
  then show ?thesis
    by (rule emits_bind) (auto intro!: emits_return simp: token_books_def split: sum.splits)
qed

lemma quiet_emits: "quiet m \<Longrightarrow> emits m (\<lambda>ts r. list_all is_read ts \<and> True)"
  by (simp add: within_def)

context git_component_factory
begin

lemma provideToken_books: "emits (provideToken E newGitComponent pod secret) (\<lambda>ts r. token_books ts (fst r))"
proof -
  have upd: "emits (GetToken g \<bind> (\<lambda>t. case t of Inl e \<Rightarrow> return (Error e, Inr ())
        | Inr token \<Rightarrow> Update_Secret E (addToken token secret) \<bind> (\<lambda>u.
            return (case u of Inl e \<Rightarrow> (Error e, Inl e) | Inr _ \<Rightarrow> ([], Inr ())))))
      (\<lambda>ts r. token_books ts (fst r))" if "read_only g" for g
    using that
    by (intro books_bind [OF quiet_emits]) (auto simp: read_only_def split: sum.splits intro!: books_return books_update)
  have "emits (newGitComponent x \<bind> (\<lambda>g. case g of Inl e \<Rightarrow> return (Error e, Inr ())
        | Inr gitComp \<Rightarrow> GetToken gitComp \<bind> (\<lambda>t. case t of Inl e \<Rightarrow> return (Error e, Inr ())
        | Inr token \<Rightarrow> Update_Secret E (addToken token secret) \<bind> (\<lambda>u.
            return (case u of Inl e \<Rightarrow> (Error e, Inl e) | Inr _ \<Rightarrow> ([], Inr ()))))))
      (\<lambda>ts r. token_books ts (fst r))" for x
    by (rule books_bind [OF factory_emits]) (auto split: sum.splits intro!: books_return upd)
  then show ?thesis
    unfolding provideToken_def
    by (auto intro!: books_bind [OF quiet_emits] books_return quiet_rules split: sum.splits)
qed

lemma handleEvent_books: "emits (handleEvent E newGitComponent evt) (\<lambda>ts r. token_books ts (fst (snd r)))"
proof -
  have pod: "emits (handlePod E newGitComponent evt v pod) (\<lambda>ts r. token_books ts (fst r))" for v pod
    unfolding handlePod_def Let_def
    by (auto intro!: books_bind [OF quiet_emits] books_return quiet_rules provideToken_books split: sum.splits)
  have "emits (handlePod E newGitComponent evt v pod \<bind> (\<lambda>(m, res). return (pod, m, res)))
      (\<lambda>ts r. token_books ts (fst (snd r)))" for v pod
    by (rule emits_bind [OF pod]) (auto intro!: emits_return split: prod.splits)
  then show ?thesis
    unfolding handleEvent_def
    by (auto intro!: books_bind [OF quiet_emits] books_return quiet_rules split: option.splits sum.splits)
qed

text \<open>The body reads past the cache, and adds tokens to secrets.\<close>

lemma within_provideToken:
  assumes read: "\<And>c. is_read c \<Longrightarrow> P c" and add: "\<And>t r. P (CUpdate (OSecret (addToken t secret)) r)"
  shows "within P (provideToken E newGitComponent pod secret)"
proof -
  have upd: "within P (Update_Secret E (addToken t secret))" for t
    unfolding Update_Secret_def by (intro quiet_rules add)
  have reads: "within P m" if "quiet m" for m :: "('w, 'a) prog"
    using that read by (rule within_mono)
  have tok: "within P (GetToken g \<bind> (\<lambda>t. case t of Inl e \<Rightarrow> return (Error e, Inr ())
        | Inr token \<Rightarrow> Update_Secret E (addToken token secret) \<bind> (\<lambda>u.
            return (case u of Inl e \<Rightarrow> (Error e, Inl e) | Inr _ \<Rightarrow> ([], Inr ())))))" if "read_only g" for g
  proof -
    have "within P (GetToken g)" using that by (intro reads) (simp add: read_only_def)
    then show ?thesis by (rule within_bind) (auto intro!: quiet_rules upd split: sum.splits)
  qed
  have "within P (newGitComponent x \<bind> (\<lambda>g. case g of Inl e \<Rightarrow> return (Error e, Inr ())
        | Inr gitComp \<Rightarrow> GetToken gitComp \<bind> (\<lambda>t. case t of Inl e \<Rightarrow> return (Error e, Inr ())
        | Inr token \<Rightarrow> Update_Secret E (addToken token secret) \<bind> (\<lambda>u.
            return (case u of Inl e \<Rightarrow> (Error e, Inl e) | Inr _ \<Rightarrow> ([], Inr ()))))))" for x
    by (rule within_factory) (auto intro: read tok quiet_rules)
  then show ?thesis
    unfolding provideToken_def
    by (intro within_if within_return within_sum within_bind [OF reads [OF quiet_client(1)]])
qed

lemma within_handleEvent:
  assumes read: "\<And>c. is_read c \<Longrightarrow> P c" and add: "\<And>s t r. P (CUpdate (OSecret (addToken t s)) r)"
  shows "within P (handleEvent E newGitComponent evt)"
proof -
  have pod: "within P (Get_Pod E ns n)" for ns n
    by (rule within_mono [OF quiet_client(5)]) (rule read)
  have secret: "within P (Get_Secret E ns n)" for ns n
    by (rule within_mono [OF quiet_client(2)]) (rule read)
  show ?thesis
    unfolding handleEvent_def handlePod_def Let_def
    by (auto intro!: quiet_rules pod secret within_provideToken read add split: option.splits sum.splits)
qed

lemma within_EventReconcile: "within (event_call E) (EventReconcile E newGitComponent namespace name)"
proof -
  have body: "within (event_call E) (handleEvent E newGitComponent evt)" for evt
    by (rule within_handleEvent) (simp_all add: event_call_read)
  show ?thesis
    unfolding EventReconcile_def by (auto intro!: quiet_rules within_deferred body split: sum.splits)
qed

text \<open>Storing a token and cancelling the run exclude each other.\<close>

lemma EventReconcile_exclusive:
  "emits (EventReconcile E newGitComponent namespace name)
     (\<lambda>ts r. \<not> (list_ex stores_token ts \<and> list_ex cancels_run ts))"
proof -
  have def_none: "emits (eventDeferred E evt pod []) (\<lambda>ts r. \<not> list_ex cancels_run ts)" for evt pod
  proof -
    have "within (\<lambda>c. \<not> cancels_run c) (eventDeferred E evt pod [])"
      unfolding eventDeferred_def markEventAsProcessed_def Patch_Event_def by (auto intro!: quiet_rules)
    then show ?thesis unfolding within_def by (rule emits_mono) (auto simp: list_all_iff list_ex_iff)
  qed
  have def_any: "emits (eventDeferred E evt pod m) (\<lambda>ts r. \<not> list_ex stores_token ts)" for evt pod m
  proof -
    have "within (\<lambda>c. \<not> stores_token c) (eventDeferred E evt pod m)"
      unfolding eventDeferred_def markEventAsProcessed_def cancelRun_def Patch_Event_def Patch_PipelineRun_def
        Get_PipelineRun_def
      by (auto intro!: quiet_rules)
    then show ?thesis unfolding within_def by (rule emits_mono) (auto simp: list_all_iff list_ex_iff)
  qed
  have tail: "emits (case x of (pod, m, result) \<Rightarrow> eventDeferred E evt pod m \<bind> (\<lambda>_. return result))
      (\<lambda>us r. \<not> (list_ex stores_token (ts @ us) \<and> list_ex cancels_run (ts @ us)))"
    if "token_books ts (fst (snd x))" for ts evt and x :: "Pod \<times> string \<times> (error + unit)"
  proof -
    obtain pod m result where x: "x = (pod, m, result)" by (cases x)
    have "emits (eventDeferred E evt pod m) (\<lambda>us r. \<not> list_ex stores_token us \<and> (m = [] \<longrightarrow> \<not> list_ex cancels_run us))"
      using emits_conj [OF def_any [of evt pod "[]"] def_none [of evt pod]] def_any [of evt pod m]
      by (cases "m = []") simp_all
    then have "emits (eventDeferred E evt pod m \<bind> (\<lambda>_. return result))
        (\<lambda>us r. \<not> list_ex stores_token us \<and> (m = [] \<longrightarrow> \<not> list_ex cancels_run us))"
      by (rule emits_bind) (auto intro!: emits_return)
    then show ?thesis
      unfolding x prod.case by (rule emits_mono) (use that in \<open>auto simp: token_books_def x\<close>)
  qed
  have err: "emits (eventDeferred E emptyEvent emptyPod [] \<bind> (\<lambda>_. return y))
      (\<lambda>us r. \<not> (list_ex stores_token (ts @ us) \<and> list_ex cancels_run (ts @ us)))" if "ts = [CGet KEvent namespace name]" for ts and y :: "error + unit"
    using tail [of ts "(emptyPod, [], y)" emptyEvent] by (simp add: token_books_def that)
  show ?thesis
    unfolding EventReconcile_def
  proof (rule emits_bind [OF emits_Get(2)], goal_cases)
    case (1 ts r)
    show ?case
    proof (cases r)
      case (Inl e)
      then show ?thesis using err [OF 1] by simp
    next
      case (Inr evt)
      have "emits (handleEvent E newGitComponent evt \<bind>
          (\<lambda>(pod, m, result). eventDeferred E evt pod m \<bind> (\<lambda>_. return result)))
          (\<lambda>us r. \<not> (list_ex stores_token (ts @ us) \<and> list_ex cancels_run (ts @ us)))"
      proof (rule emits_bind [OF handleEvent_books], goal_cases)
        case (1 us x)
        then have "token_books (ts @ us) (fst (snd x))" by (simp add: token_books_def \<open>ts = _\<close>)
        then show ?case using tail [of "ts @ us" x evt] by simp
      qed
      then show ?thesis using Inr by simp
    qed
  qed
qed

end


text \<open>
  C7: in one reconciliation the controller never both stores a token and cancels the
  pipeline run: a run that has received its token goes on.
\<close>

theorem EventReconcile_token_or_cancel:
  "emits (EventReconcile E (NewGitComponent E) namespace name)
     (\<lambda>ts r. \<not> (list_ex stores_token ts \<and> list_ex cancels_run ts))"
  by (rule gc.EventReconcile_exclusive)

section \<open>The regular expression\<close>

definition matchesAt :: "string \<Rightarrow> string \<Rightarrow> bool" where
  "matchesAt s v \<longleftrightarrow> v \<noteq> [] \<and> CHR 0x22 \<notin> set v \<and>
     (\<exists>mid post. s = volumeQuote @ v @ CHR 0x22 # mid @ missingKey @ post \<and> CHR 0x0A \<notin> set mid)"

lemma while_clean:
  "b \<notin> set a \<Longrightarrow> takeWhile (\<lambda>c. c \<noteq> b) (a @ r) = a @ takeWhile (\<lambda>c. c \<noteq> b) r"
  "b \<notin> set a \<Longrightarrow> dropWhile (\<lambda>c. c \<noteq> b) (a @ r) = dropWhile (\<lambda>c. c \<noteq> b) r"
  by (induction a) auto

lemma missingKey_line: "CHR 0x0A \<notin> set missingKey"
  by (simp add: missingKey_def)

lemma Contains_line:
  "Contains (takeWhile (\<lambda>c. c \<noteq> CHR 0x0A) r) missingKey \<longleftrightarrow> (\<exists>mid post. r = mid @ missingKey @ post \<and> CHR 0x0A \<notin> set mid)"
proof
  assume "Contains (takeWhile (\<lambda>c. c \<noteq> CHR 0x0A) r) missingKey"
  then obtain a b where ab: "takeWhile (\<lambda>c. c \<noteq> CHR 0x0A) r = a @ missingKey @ b" by (auto simp: Contains_iff)
  then have "r = a @ missingKey @ (b @ dropWhile (\<lambda>c. c \<noteq> CHR 0x0A) r)"
    by (metis append.assoc takeWhile_dropWhile_id)
  moreover have "CHR 0x0A \<notin> set a"
    using ab set_takeWhileD [of "CHR 0x0A" "\<lambda>c. c \<noteq> CHR 0x0A" r] by auto
  ultimately show "\<exists>mid post. r = mid @ missingKey @ post \<and> CHR 0x0A \<notin> set mid" by blast
next
  assume "\<exists>mid post. r = mid @ missingKey @ post \<and> CHR 0x0A \<notin> set mid"
  then obtain mid post where r: "r = mid @ missingKey @ post" "CHR 0x0A \<notin> set mid" by blast
  have "takeWhile (\<lambda>c. c \<noteq> CHR 0x0A) r = mid @ missingKey @ takeWhile (\<lambda>c. c \<noteq> CHR 0x0A) post"
    using r missingKey_line by (simp add: while_clean)
  then show "Contains (takeWhile (\<lambda>c. c \<noteq> CHR 0x0A) r) missingKey" by (auto simp: Contains_iff)
qed

lemma matchHere_iff: "matchHere s = Some v \<longleftrightarrow> matchesAt s v"
proof
  let ?P = "\<lambda>c. c \<noteq> CHR 0x22"
  assume m: "matchHere s = Some v"
  then obtain t where t: "s = volumeQuote @ t" by (auto simp: matchHere_def HasPrefix_iff split: if_splits)
  with m have v: "v = takeWhile ?P t" "v \<noteq> []" "dropWhile ?P t \<noteq> []"
    "Contains (takeWhile (\<lambda>c. c \<noteq> CHR 0x0A) (tl (dropWhile ?P t))) missingKey"
    by (auto simp: matchHere_def Let_def split: if_splits)
  then obtain mid post where r: "tl (dropWhile ?P t) = mid @ missingKey @ post" "CHR 0x0A \<notin> set mid"
    by (auto simp: Contains_line)
  have "hd (dropWhile ?P t) = CHR 0x22" using hd_dropWhile [OF v(3)] by simp
  then have "dropWhile ?P t = CHR 0x22 # mid @ missingKey @ post" using v(3) r(1) by (cases "dropWhile ?P t") auto
  then have "t = v @ CHR 0x22 # mid @ missingKey @ post" using v(1) by (metis takeWhile_dropWhile_id)
  moreover have "CHR 0x22 \<notin> set v" using v(1) by (auto dest: set_takeWhileD)
  ultimately show "matchesAt s v" using v(2) r(2) t unfolding matchesAt_def by blast
next
  assume "matchesAt s v"
  then obtain mid post where v: "v \<noteq> []" "CHR 0x22 \<notin> set v"
    and s: "s = volumeQuote @ v @ CHR 0x22 # mid @ missingKey @ post" "CHR 0x0A \<notin> set mid"
    by (auto simp: matchesAt_def)
  have "takeWhile (\<lambda>c. c \<noteq> CHR 0x22) (v @ CHR 0x22 # r) = v"
    "dropWhile (\<lambda>c. c \<noteq> CHR 0x22) (v @ CHR 0x22 # r) = CHR 0x22 # r" for r
    using v(2) by (simp_all add: while_clean)
  then show "matchHere s = Some v"
    using v s by (auto simp: matchHere_def Let_def Contains_line)
qed

text \<open>
  C38: the scan of the event message finds a volume name exactly when the message contains one:
  \<open>volume "name"\<close> with a non-empty name, followed on the same line by the complaint about the missing
  \<open>renovate-token\<close> key; what it returns is such a name.
\<close>

theorem findVolumeName_correct:
  "case findVolumeName m of
     None \<Rightarrow> \<not> (\<exists>pre s v. m = pre @ s \<and> matchesAt s v)
   | Some v \<Rightarrow> \<exists>pre s. m = pre @ s \<and> matchesAt s v"
proof (induction m)
  case Nil
  then show ?case by (simp add: matchesAt_def volumeQuote_def)
next
  case (Cons c m)
  show ?case
  proof (cases "matchHere (c # m)")
    case (Some v)
    then have "matchesAt (c # m) v" by (simp add: matchHere_iff)
    then have "\<exists>pre s. c # m = pre @ s \<and> matchesAt s v" by (intro exI [of _ "[]"] exI [of _ "c # m"]) simp
    with Some show ?thesis by simp
  next
    case None
    then have here: "\<not> matchesAt (c # m) v" for v using matchHere_iff [of "c # m" v] by simp
    have step: "(\<exists>pre s. c # m = pre @ s \<and> matchesAt s v) \<longleftrightarrow> (\<exists>pre s. m = pre @ s \<and> matchesAt s v)" for v
      using here by (metis append_Cons append_Nil append_eq_Cons_conv)
    show ?thesis using None Cons.IH step by (auto split: option.splits)
  qed
qed

section \<open>Cancelling\<close>


definition waitingPod :: Pod where
  "waitingPod = \<lparr>podMeta = (newMeta ''pod'' ''mintmaker'')\<lparr>Labels := [(pipelineRunLabel, ''plr'')]\<rparr>,
     podVolumes = [\<lparr>podVolName = ''vol'', podVolSecret = Some ''sec''\<rparr>]\<rparr>"

definition waitingEvent :: Event where
  "waitingEvent = \<lparr>evMeta = newMeta ''ev'' ''mintmaker'', InvolvedKind = ''Pod'', InvolvedName = ''pod'',
     InvolvedNamespace = ''mintmaker'', Reason = ''FailedMount'',
     Message = volumeQuote @ ''vol'' @ [CHR 0x22] @ '' : '' @ missingKey\<rparr>"

definition waitingSecret :: Secret where
  "waitingSecret = \<lparr>secMeta = newMeta ''sec'' ''mintmaker'', secType = SecretTypeOpaque, Data = [], StringData = []\<rparr>"

definition waitingRun :: PipelineRun where
  "waitingRun = pipelineRun (NewPipelineRunBuilder (\<lambda>_. []) [] ''plr'' ''mintmaker'')"

definition waitingComponent :: Component where
  "waitingComponent = \<lparr>compMeta = newMeta [] [], Application = [], GitSource = None, GitURL = [], Versions = []\<rparr>"

definition waitingCluster :: "unit env" where
  "waitingCluster = emptyCluster\<lparr>k8sGetEvent := (\<lambda>ns n w. (Inr waitingEvent, w)),
     k8sGetPod := (\<lambda>ns n w. (Inr waitingPod, w)), k8sGetSecret := (\<lambda>ns n w. (Inr waitingSecret, w)),
     k8sGetComponent := (\<lambda>ns n w. (Inr waitingComponent, w)), k8sGetPipelineRun := (\<lambda>ns n w. (Inr waitingRun, w))\<rparr>"

lemma waitingCluster_answers:
  "k8sGetEvent waitingCluster = (\<lambda>ns n w. (Inr waitingEvent, w))"
  "k8sGetPod waitingCluster = (\<lambda>ns n w. (Inr waitingPod, w))"
  "k8sGetSecret waitingCluster = (\<lambda>ns n w. (Inr waitingSecret, w))"
  "k8sGetComponent waitingCluster = (\<lambda>ns n w. (Inr waitingComponent, w))"
  "k8sGetPipelineRun waitingCluster = (\<lambda>ns n w. (Inr waitingRun, w))"
  by (simp_all add: waitingCluster_def)

lemma waitingMessage: "findVolumeName (Message waitingEvent) = Some ''vol''"
proof -
  have "matchesAt (Message waitingEvent) ''vol''"
    unfolding matchesAt_def
    by (intro conjI exI [where x = "'' : ''"] exI [where x = "[] :: string"]) (simp_all add: waitingEvent_def)
  then have "matchHere (Message waitingEvent) = Some ''vol''" by (simp add: matchHere_iff)
  moreover have "\<exists>c r. Message waitingEvent = c # r" by (simp add: waitingEvent_def volumeQuote_def)
  ultimately show ?thesis by auto
qed


section \<open>The controller of pipeline runs\<close>

text \<open>
  \<open>internal/controller/pipelinerun_controller.go\<close>: nothing is reconciled; the predicate for updates
  passes, and logs, the update with which a run is done. \<open>isDone\<close> is Tekton's \<open>IsDone\<close>.
\<close>

definition runUpdateFunc :: "(PipelineRun \<Rightarrow> bool) \<Rightarrow> PipelineRun \<Rightarrow> PipelineRun \<Rightarrow> bool" where
  "runUpdateFunc isDone oldRun newRun \<longleftrightarrow> \<not> isDone oldRun \<and> isDone newRun"

definition PipelineRunReconcile :: "string \<Rightarrow> string \<Rightarrow> ('w, error + unit) prog" where
  "PipelineRunReconcile namespace name = return (Inr ())"

end
