(* ===== verification/TokenHandshake.thy ===== *)
theory TokenHandshake
  imports EventController RunCalls
begin

text \<open>
  How the two controllers work together on the token of a run. For a GitHub component
  \<open>createPipelineRun\<close> leaves the token out of the secret; the pod of the run cannot start; the event
  about it brings the event controller in, which finds, from the pod alone, the secret and the
  component the run was made from, and puts the token there. Between the two stand Tekton, which
  makes the pod, and the kubelet, which reports the missing key; what is relied on of them is
  \<open>podOf\<close> and \<open>complains\<close>.
\<close>

section \<open>Providing the token\<close>

text \<open>One step of a program whose calls are known, on the way to the whole trace.\<close>

lemma emits_prefix:
  "emits m (\<lambda>ts r. ts = us \<and> r = x) \<Longrightarrow> emits (f x) (\<lambda>vs. Q (us @ vs)) \<Longrightarrow> emits (m \<bind> f) Q"
  by (erule emits_bind) auto

lemma emits_reads:
  "emits m (\<lambda>ts r. list_all is_read ts \<and> r = x) \<Longrightarrow> (\<And>ts. list_all is_read ts \<Longrightarrow> emits (f x) (\<lambda>vs. Q (ts @ vs))) \<Longrightarrow>
   emits (m \<bind> f) Q"
  by (erule emits_bind) auto

lemma known_call: "(\<And>w. fst (f w) = x) \<Longrightarrow> emits (perform f c) (\<lambda>ts r. ts = [c x] \<and> r = x)"
  by (simp add: emits_def)

lemma known_update: "(\<And>w. fst (k8sUpdateSecret E s w) = None) \<Longrightarrow>
    emits (Update_Secret E s) (\<lambda>ts r. ts = [CUpdate (OSecret s) None] \<and> r = Inr ())"
  unfolding Update_Secret_def asResult_def
  by (rule emits_prefix [OF known_call]) (auto intro: emits_return)

lemma provideToken_fills:
  assumes "map_of (Data secret) ''renovate-token'' = None"
    and "\<And>w. fst (k8sGetComponent E (mapGet (Labels (podMeta pod)) componentNamespaceLabel)
           (mapGet (Labels (podMeta pod)) componentNameLabel) w) = Inr component"
    and "emits (newGit component) (\<lambda>ts r. list_all is_read ts \<and> r = Inr g)"
    and "emits (GetToken g) (\<lambda>ts r. list_all is_read ts \<and> r = Inr token)"
    and "\<And>w. fst (k8sUpdateSecret E (addToken token secret) w) = None"
  shows "emits (provideToken E newGit pod secret) (\<lambda>ts r. r = ([], Inr ()) \<and>
    (\<exists>mid. list_all is_read mid \<and>
      ts = CGet KComponent (mapGet (Labels (podMeta pod)) componentNamespaceLabel)
             (mapGet (Labels (podMeta pod)) componentNameLabel) # mid @ [CUpdate (OSecret (addToken token secret)) None]))"
proof -
  let ?f = "\<lambda>u. return (case u of Inl e \<Rightarrow> (Error e, Inl e) | Inr _ \<Rightarrow> ([], Inr ()))"
  have upd: "emits (Update_Secret E (addToken token secret) \<bind> ?f)
      (\<lambda>ts r. ts = [CUpdate (OSecret (addToken token secret)) None] \<and> r = ([], Inr ()))"
    by (rule emits_prefix [OF known_update [OF assms(5)]]) (simp add: emits_return)
  have get: "emits (Get_Component E (mapGet (Labels (podMeta pod)) componentNamespaceLabel)
        (mapGet (Labels (podMeta pod)) componentNameLabel))
      (\<lambda>ts r. ts = [CGet KComponent (mapGet (Labels (podMeta pod)) componentNamespaceLabel)
        (mapGet (Labels (podMeta pod)) componentNameLabel)] \<and> r = Inr component)"
    unfolding Get_Component_def by (rule known_call [OF assms(2)])
  show ?thesis
    unfolding provideToken_def using assms(1)
  proof (simp, intro emits_prefix [OF get], simp, intro emits_reads [OF assms(3)], simp, intro emits_reads [OF assms(4)], simp, goal_cases)
    case (1 ts us)
    then show ?case
      by (intro emits_mono [OF upd]) (auto intro!: exI [of _ "ts @ us"])
  qed
qed


text \<open>The reconciliation that provides a token, call by call.\<close>

lemma EventReconcile_fills:
  assumes "\<And>w. fst (k8sGetEvent E namespace name w) = Inr evt" "Name (evMeta evt) \<noteq> []" "InvolvedKind evt = ''Pod''"
    and "findVolumeName (Message evt) = Some v"
    and "\<And>w. fst (k8sGetPod E (InvolvedNamespace evt) (InvolvedName evt) w) = Inr pod"
    and "secretOfVolume v (podVolumes pod) = secretName" "secretName \<noteq> []"
    and "\<And>w. fst (k8sGetSecret E (InvolvedNamespace evt) secretName w) = Inr secret"
    and "map_of (Data secret) ''renovate-token'' = None"
    and "\<And>w. fst (k8sGetComponent E (mapGet (Labels (podMeta pod)) componentNamespaceLabel)
           (mapGet (Labels (podMeta pod)) componentNameLabel) w) = Inr component"
    and "emits (newGit component) (\<lambda>ts r. list_all is_read ts \<and> r = Inr g)"
    and "emits (GetToken g) (\<lambda>ts r. list_all is_read ts \<and> r = Inr token)"
    and "\<And>w. fst (k8sUpdateSecret E (addToken token secret) w) = None"
  shows "emits (EventReconcile E newGit namespace name) (\<lambda>ts r. r = Inr () \<and>
    (\<exists>mid res. list_all is_read mid \<and>
      ts = [CGet KEvent namespace name, CGet KPod (InvolvedNamespace evt) (InvolvedName evt),
            CGet KSecret (InvolvedNamespace evt) secretName,
            CGet KComponent (mapGet (Labels (podMeta pod)) componentNamespaceLabel)
              (mapGet (Labels (podMeta pod)) componentNameLabel)] @ mid @
           [CUpdate (OSecret (addToken token secret)) None, CPatch (OEvent evt) (OEvent (markEvent evt)) res]))"
proof -
  note fills = provideToken_fills [where newGit = newGit and pod = pod and component = component, OF assms(9-13)]
  have ev: "emits (Get_Event E namespace name) (\<lambda>ts r. ts = [CGet KEvent namespace name] \<and> r = Inr evt)"
    unfolding Get_Event_def by (rule known_call [OF assms(1)])
  have po: "emits (Get_Pod E (InvolvedNamespace evt) (InvolvedName evt))
      (\<lambda>ts r. ts = [CGet KPod (InvolvedNamespace evt) (InvolvedName evt)] \<and> r = Inr pod)"
    unfolding Get_Pod_def by (rule known_call [OF assms(5)])
  have se: "emits (Get_Secret E (InvolvedNamespace evt) secretName)
      (\<lambda>ts r. ts = [CGet KSecret (InvolvedNamespace evt) secretName] \<and> r = Inr secret)"
    unfolding Get_Secret_def by (rule known_call [OF assms(8)])
  let ?mid = "\<lambda>ts. \<exists>mid. list_all is_read mid \<and>
      ts = CGet KComponent (mapGet (Labels (podMeta pod)) componentNamespaceLabel)
             (mapGet (Labels (podMeta pod)) componentNameLabel) # mid @ [CUpdate (OSecret (addToken token secret)) None]"
  have hp: "emits (handlePod E newGit evt v pod)
      (\<lambda>ts r. r = ([], Inr ()) \<and> (\<exists>us. ts = CGet KSecret (InvolvedNamespace evt) secretName # us \<and> ?mid us))"
    unfolding handlePod_def Let_def assms(6) using assms(7)
    by (simp, intro emits_prefix [OF se]) (auto intro!: emits_mono [OF fills])
  have he: "emits (handleEvent E newGit evt)
      (\<lambda>ts r. r = (pod, [], Inr ()) \<and> (\<exists>us. ts = CGet KPod (InvolvedNamespace evt) (InvolvedName evt) #
         CGet KSecret (InvolvedNamespace evt) secretName # us \<and> ?mid us))"
    unfolding handleEvent_def using assms(3,4)
    by (simp, intro emits_prefix [OF po], simp, intro emits_bind [OF hp]) (auto intro!: emits_return)
  have de: "emits (eventDeferred E evt pod []) (\<lambda>ts r. \<exists>res. ts = [CPatch (OEvent evt) (OEvent (markEvent evt)) res])"
  proof -
    have p: "emits (Patch_Event E evt (markEvent evt)) (\<lambda>ts r. \<exists>res. ts = [CPatch (OEvent evt) (OEvent (markEvent evt)) res])"
      unfolding Patch_Event_def by (rule emits_perform) blast
    have "emits (Patch_Event E evt (markEvent evt) \<bind> (\<lambda>_. return ()))
        (\<lambda>ts r. \<exists>res. ts = [CPatch (OEvent evt) (OEvent (markEvent evt)) res])"
      by (rule emits_bind [OF p]) (auto intro!: emits_return)
    then show ?thesis
      unfolding eventDeferred_def markEventAsProcessed_def if_P [OF assms(2)]
      by (rule emits_bind) (auto intro!: emits_return)
  qed
  have rest: "emits (eventDeferred E evt pod [] \<bind> (\<lambda>_. return (Inr ())))
      (\<lambda>ts r. r = Inr () \<and> (\<exists>res. ts = [CPatch (OEvent evt) (OEvent (markEvent evt)) res]))"
    by (rule emits_bind [OF de]) (auto intro!: emits_return)
  show ?thesis
    unfolding EventReconcile_def
    by (intro emits_prefix [OF ev], simp, intro emits_bind [OF he]) (auto intro!: emits_mono [OF rest])
qed

section \<open>From the run to the token\<close>

text \<open>
  The pod of a run, as Tekton makes it: in the namespace of the run, with the labels of the run and
  one that names it, and with the volumes of the run's task among its own. The names of a pod's
  volumes are pairwise different.
\<close>

definition podVolumeOf :: "Volume \<Rightarrow> PodVolume" where
  "podVolumeOf v = \<lparr>podVolName = volName v,
     podVolSecret = (case volSource v of SecretVolume n items o' d \<Rightarrow> Some n | ConfigMapVolume n items o' d \<Rightarrow> None)\<rparr>"

definition podOf :: "PipelineRun \<Rightarrow> Pod \<Rightarrow> bool" where
  "podOf p pod \<longleftrightarrow> Namespace (podMeta pod) = Namespace (plrMeta p) \<and>
     map_of (Labels (podMeta pod)) pipelineRunLabel = Some (Name (plrMeta p)) \<and>
     (\<forall>k v. map_of (Labels (plrMeta p)) k = Some v \<longrightarrow> map_of (Labels (podMeta pod)) k = Some v) \<and>
     podVolumeOf ` set (runVolumes p) \<subseteq> set (podVolumes pod) \<and> distinct (map podVolName (podVolumes pod))"

text \<open>The event with which the kubelet reports that a volume of the pod misses the token.\<close>

definition complains :: "Event \<Rightarrow> Pod \<Rightarrow> string \<Rightarrow> bool" where
  "complains evt pod v \<longleftrightarrow> Name (evMeta evt) \<noteq> [] \<and> InvolvedKind evt = ''Pod'' \<and>
     InvolvedName evt = Name (podMeta pod) \<and> InvolvedNamespace evt = Namespace (podMeta pod) \<and>
     v \<noteq> [] \<and> CHR 0x22 \<notin> set v \<and>
     Message evt = ''MountVolume.SetUp failed for '' @ volumeQuote @ v @ [CHR 0x22] @ '' : '' @ missingKey"

lemma complains_volume:
  assumes "complains evt pod v"
  shows "findVolumeName (Message evt) = Some v"
proof -
  let ?s = "volumeQuote @ v @ [CHR 0x22] @ '' : '' @ missingKey"
  have "matchesAt ?s v"
    using assms unfolding matchesAt_def complains_def
    by (intro conjI exI [where x = "'' : ''"] exI [where x = "[] :: string"]) simp_all
  then have here: "matchHere ?s = Some v" by (simp add: matchHere_iff)
  have "\<exists>c r. ?s = c # r" by (simp add: volumeQuote_def)
  with here have "findVolumeName ?s = Some v" by auto
  moreover have "findVolumeName (''MountVolume.SetUp failed for '' @ t) = findVolumeName t" for t
    by (simp add: matchHere_def volumeQuote_def HasPrefix_def)
  ultimately show ?thesis using assms by (simp add: complains_def)
qed

lemma secretOfVolume_distinct:
  "distinct (map podVolName vs) \<Longrightarrow> \<lparr>podVolName = v, podVolSecret = Some s\<rparr> \<in> set vs \<Longrightarrow> secretOfVolume v vs = s"
proof (induction vs)
  case (Cons a vs)
  show ?case
  proof (cases "podVolName a = v")
    case True
    then have "\<lparr>podVolName = v, podVolSecret = Some s\<rparr> \<notin> set vs"
      using Cons.prems(1) by (metis PodVolume.select_convs(1) distinct.simps(2) image_eqI list.set_map list.simps(9))
    then have "podVolSecret a = Some s" using Cons.prems(2) by auto
    with True show ?thesis by simp
  next
    case False
    with Cons show ?thesis by (auto split: option.splits)
  qed
qed simp

text \<open>The pod leads back to the secret and the component of the run.\<close>

lemma pod_leads_back:
  assumes "run_ok name c branch p" "podOf p pod" "w \<in> set (runVolumes p)" "hasKey ''renovate-token'' w"
  shows "secretOfVolume (volName w) (podVolumes pod) = name"
    and "Namespace (podMeta pod) = MintMakerNamespaceName"
    and "mapGet (Labels (podMeta pod)) componentNamespaceLabel = GetNamespace c"
    and "mapGet (Labels (podMeta pod)) componentNameLabel = GetName c"
proof -
  obtain items o' d where "volSource w = SecretVolume name items o' d"
    using assms(1,3,4) unfolding run_ok_def tokenRun_def by blast
  then have "\<lparr>podVolName = volName w, podVolSecret = Some name\<rparr> \<in> set (podVolumes pod)"
    using assms(2,3) unfolding podOf_def by (force simp: podVolumeOf_def)
  then show "secretOfVolume (volName w) (podVolumes pod) = name"
    using assms(2) by (intro secretOfVolume_distinct) (simp_all add: podOf_def)
  show "Namespace (podMeta pod) = MintMakerNamespaceName"
    using assms(1,2) by (simp add: podOf_def run_ok_def)
  have lab: "map_of (Labels (podMeta pod)) k = Some v" if "map_of (runLabels c branch) k = Some v" for k v
    using assms(1,2) that by (simp add: podOf_def run_ok_def)
  show "mapGet (Labels (podMeta pod)) componentNamespaceLabel = GetNamespace c"
    by (simp add: mapGet_def lab runLabels_def componentNamespaceLabel_def)
  show "mapGet (Labels (podMeta pod)) componentNameLabel = GetName c"
    by (simp add: mapGet_def lab runLabels_def componentNameLabel_def)
qed

text \<open>
  C4: let \<open>createPipelineRun\<close> have asked for the run \<open>p\<close>, let a pod of that run miss its
  token and an event say so. Then the reconciliation of the event reads exactly the secret
  \<open>createPipelineRun\<close> has made for the run and the component the run is for, and when the component
  yields a token it stores it in that secret under \<open>renovate-token\<close>, marks the event as processed
  and is done; the run is not cancelled.
\<close>

theorem run_gets_its_token:
  assumes "read_only c" "trace s0 = []" "name \<noteq> []"
    and "CCreate (OPipelineRun p) r0 \<in> set (trace (snd (run_state (createPipelineRun E0 name c branch kite) s0)))"
    and "podOf p pod" "w \<in> set (runVolumes p)" "hasKey ''renovate-token'' w" "complains evt pod (volName w)"
    and "\<And>s. fst (k8sGetEvent E namespace evtName s) = Inr evt"
    and "\<And>s. fst (k8sGetPod E MintMakerNamespaceName (Name (podMeta pod)) s) = Inr pod"
    and "\<And>s. fst (k8sGetSecret E MintMakerNamespaceName name s) = Inr secret"
    and "map_of (Data secret) ''renovate-token'' = None"
    and "\<And>s. fst (k8sGetComponent E (GetNamespace c) (GetName c) s) = Inr component"
    and "emits (newGit component) (\<lambda>ts r. list_all is_read ts \<and> r = Inr g)"
    and "emits (GetToken g) (\<lambda>ts r. list_all is_read ts \<and> r = Inr token)"
    and "\<And>s. fst (k8sUpdateSecret E (addToken token secret) s) = None"
  shows "emits (EventReconcile E newGit namespace evtName) (\<lambda>ts r. r = Inr () \<and>
    (\<exists>mid res. list_all is_read mid \<and>
      ts = [CGet KEvent namespace evtName, CGet KPod MintMakerNamespaceName (Name (podMeta pod)),
            CGet KSecret MintMakerNamespaceName name, CGet KComponent (GetNamespace c) (GetName c)] @ mid @
           [CUpdate (OSecret (addToken token secret)) None, CPatch (OEvent evt) (OEvent (markEvent evt)) res]))"
proof -
  have "run_call name c branch (CCreate (OPipelineRun p) r0)"
    using emits_run [OF within_createPipelineRun [OF assms(1), unfolded within_def], of E0 name branch kite s0] assms(2,4)
    by (auto simp: list_all_iff)
  then have ok: "run_ok name c branch p" by simp
  note leads = pod_leads_back [OF ok assms(5-7)]
  have evt: "InvolvedKind evt = ''Pod''" "InvolvedName evt = Name (podMeta pod)" "Name (evMeta evt) \<noteq> []"
    "InvolvedNamespace evt = MintMakerNamespaceName"
    using assms(8) leads(2) by (simp_all add: complains_def)
  show ?thesis
    using EventReconcile_fills [where v = "volName w" and pod = pod and secretName = name and component = component and g = g
        and newGit = newGit and E = E and secret = secret and token = token and evt = evt and namespace = namespace and name = evtName]
      assms complains_volume [OF assms(8)] leads evt
    by simp
qed

section \<open>An example\<close>

abbreviation sampleGitHub :: "unit GitComponent" where
  "sampleGitHub \<equiv> sampleGitComponent ''github''"

definition sampleRun :: PipelineRun where
  "sampleRun = pipelineRun (buildToken (\<lambda>i. 0) ''r'' (buildConfig ''r'' (buildBase emptyCluster ''r'' sampleGitHub ''main'')))"

lemma sampleRun_build:
  "buildPipelineRun emptyCluster ''r'' sampleGitHub ''main''
     \<lparr>tokenRandom = (\<lambda>i. 0), rpmPart = None, caPart = None, dockerPart = None, kitePart = None\<rparr> = Inr sampleRun"
  using buildPipelineRun_ok [of emptyCluster "''r''" sampleGitHub "''main''"
      "\<lparr>tokenRandom = (\<lambda>i. 0), rpmPart = None, caPart = None, dockerPart = None, kitePart = None\<rparr>"]
  by (auto simp: buildPipelineRun_def Build_def sampleRun_def buildRpm_def buildCA_def buildDocker_def buildKite_def
      split: list.splits)

lemma sample_answers:
  "k8sGetServiceAccount emptyCluster ns n w = (Inl (NotFound n), w)"
  "k8sCreateSecret emptyCluster x1 w = (Inr x1, w)" "k8sCreateConfigMap emptyCluster x2 w = (Inr x2, w)"
  "k8sCreatePipelineRun emptyCluster x3 w = (Inr x3, w)" "k8sListConfigMaps emptyCluster ns l w = (Inr [], w)"
  "randomBytes emptyCluster w = (\<lambda>i. 0, w)"
  "GetRenovateConfig sampleGitHub x4 b = return (Inr ''{}'')" "GetRPMActivationKey sampleGitHub = return (Inl (Err ''no key''))"
  "GetPlatform sampleGitHub = ''github''"
  by (simp_all add: emptyCluster_def sampleGitComponent_def)

lemma trace_grows: "x \<in> set (trace s) \<Longrightarrow> emits m (\<lambda>ts r. True) \<Longrightarrow> x \<in> set (trace (snd (run_state m s)))"
  using emits_run [of m "\<lambda>ts r. True" s] by auto

lemma sampleRun_created:
  "CCreate (OPipelineRun sampleRun) (Inr (OPipelineRun sampleRun)) \<in>
     set (trace (snd (run_state (createPipelineRun emptyCluster ''r'' sampleGitHub ''main'' []) start)))"
proof -
  have own: "emits (ownAll emptyCluster res plr s rpm m) (\<lambda>ts r. True)" for res plr s rpm m
    using within_ownAll [of "''r''" sampleGitHub "''main''" emptyCluster res plr s rpm m]
    by (auto simp: within_def elim: emits_mono)
  have del: "emits (delete_loop emptyCluster xs) (\<lambda>ts r. True)" for xs
    using delete_loop_emits by (rule emits_mono) simp
  have "CCreate (OPipelineRun sampleRun) (Inr (OPipelineRun sampleRun)) \<in>
     set (trace (snd (run_state (createPipelineRun_body emptyCluster ''r'' sampleGitHub ''main'' []) start)))"
    by (simp add: createPipelineRun_body_def orReturn_def initialToken_def onOk_def sampleRun_build
        getMergedDockerConfigJson_def client_defs sample_answers createRpmSecret_def Let_def
        start_def assembleRun_def drawIf_def drawKite_def getCAConfigMap_def nonEmpty_def trace_grows own
        renovateSecretFor_def)
  then show ?thesis
    by (simp add: createPipelineRun_def trace_grows del split: prod.split)
qed

definition samplePod :: Pod where
  "samplePod = \<lparr>podMeta = (newMeta ''pod'' ''mintmaker'')\<lparr>Labels := Labels (plrMeta sampleRun) @ [(pipelineRunLabel, ''r'')]\<rparr>,
     podVolumes = map podVolumeOf (runVolumes sampleRun)\<rparr>"

definition sampleVolume :: Volume where
  "sampleVolume = secretVolume (\<lambda>i. 0) ''r'' [keyToPath ''renovate-token'' ''renovate-token''] (resolveOptions (Some (mountInto ''renovate'')))"

definition sampleEvent :: Event where
  "sampleEvent = waitingEvent\<lparr>Message :=
     ''MountVolume.SetUp failed for '' @ volumeQuote @ volName sampleVolume @ [CHR 0x22] @ '' : '' @ missingKey\<rparr>"

definition sampleCluster :: "unit env" where
  "sampleCluster = waitingCluster\<lparr>k8sGetEvent := (\<lambda>ns n w. (Inr sampleEvent, w)), k8sGetPod := (\<lambda>ns n w. (Inr samplePod, w))\<rparr>"

lemma sampleRun_parts:
  "runVolumes sampleRun = [configMapVolume ''r'' [keyToPath ''config.js'' ''config.js''] (resolveOptions (Some (mountInto ''renovate''))), sampleVolume]"
  "Labels (plrMeta sampleRun) = runLabels sampleGitHub ''main''" "Name (plrMeta sampleRun) = ''r''"
  "Namespace (plrMeta sampleRun) = ''mintmaker''"
  using buildPipelineRun_ok [of emptyCluster "''r''" sampleGitHub "''main''"
      "\<lparr>tokenRandom = (\<lambda>i. 0), rpmPart = None, caPart = None, dockerPart = None, kitePart = None\<rparr>"]
  by (auto simp: sampleRun_build run_ok_def MintMakerNamespaceName_def)
    (simp add: sampleRun_def sampleVolume_def buildToken_def buildConfig_def runVolumes_ops runVolumes_base)

lemma sampleVolume_name: "volName sampleVolume = ''secret-r-'' @ RandomString 8 (\<lambda>i. 0)"
  by (simp add: sampleVolume_def secretVolume_def sanitizeVolumeName_def ReplaceByte_def)

lemma sampleVolume_plain: "CHR 0x22 \<notin> set (volName sampleVolume)"
  by (auto simp: sampleVolume_name is_hex_def dest: is_hex_RandomString)

lemma samplePod_of: "podOf sampleRun samplePod"
proof -
  have "volName (configMapVolume ''r'' items o') \<noteq> volName sampleVolume" for items o'
    by (simp add: sampleVolume_name configMapVolume_def)
  then show ?thesis
    by (auto simp: podOf_def samplePod_def sampleRun_parts newMeta_def podVolumeOf_def pipelineRunLabel_def runLabels_def
      MintMakerRepoBranchHashLabel_def)
qed

theorem run_gets_its_token_witness:
  "\<exists>mid res. trace (snd (run_state (EventReconcile sampleCluster (\<lambda>x. return (Inr sampleGitHub)) ''mintmaker'' ''ev'') start)) =
     [CGet KEvent ''mintmaker'' ''ev'', CGet KPod ''mintmaker'' ''pod'', CGet KSecret ''mintmaker'' ''r'', CGet KComponent ''ns'' ''comp'']
     @ mid @ [CUpdate (OSecret (addToken ''t'' waitingSecret)) None, CPatch (OEvent sampleEvent) (OEvent (markEvent sampleEvent)) res]"
proof -
  have answers: "k8sGetEvent sampleCluster = (\<lambda>ns n w. (Inr sampleEvent, w))"
    "k8sGetPod sampleCluster = (\<lambda>ns n w. (Inr samplePod, w))" "k8sGetSecret sampleCluster = (\<lambda>ns n w. (Inr waitingSecret, w))"
    "k8sGetComponent sampleCluster = (\<lambda>ns n w. (Inr waitingComponent, w))" "k8sUpdateSecret sampleCluster = (\<lambda>x w. (None, w))"
    by (simp_all add: sampleCluster_def waitingCluster_def emptyCluster_def)
  have ev: "complains sampleEvent samplePod (volName sampleVolume)"
    using sampleVolume_plain
    by (auto simp: complains_def sampleEvent_def waitingEvent_def samplePod_def newMeta_def sampleVolume_name)
  have key: "hasKey ''renovate-token'' sampleVolume" "sampleVolume \<in> set (runVolumes sampleRun)"
    by (simp_all add: hasKey_def sampleVolume_def secretVolume_def keyToPath_def sampleRun_parts)
  have names: "Name (podMeta samplePod) = ''pod''" "GetNamespace sampleGitHub = ''ns''" "GetName sampleGitHub = ''comp''"
    "GetToken sampleGitHub = return (Inr ''t'')" "Data waitingSecret = []"
    by (simp_all add: samplePod_def newMeta_def sampleGitComponent_def waitingSecret_def)
  have "emits (EventReconcile sampleCluster (\<lambda>x. return (Inr sampleGitHub)) ''mintmaker'' ''ev'') (\<lambda>ts r. r = Inr () \<and>
    (\<exists>mid res. list_all is_read mid \<and>
      ts = [CGet KEvent ''mintmaker'' ''ev'', CGet KPod MintMakerNamespaceName (Name (podMeta samplePod)),
            CGet KSecret MintMakerNamespaceName ''r'', CGet KComponent (GetNamespace sampleGitHub) (GetName sampleGitHub)] @ mid @
           [CUpdate (OSecret (addToken ''t'' waitingSecret)) None, CPatch (OEvent sampleEvent) (OEvent (markEvent sampleEvent)) res]))"
    by (rule run_gets_its_token [where g = sampleGitHub, OF read_only_sample _ _ sampleRun_created samplePod_of key(2) key(1) ev])
      (simp_all add: answers names start_def emits_return)
  from emits_run [OF this, of start] show ?thesis
    by (auto simp: start_def names MintMakerNamespaceName_def)
qed

end
