(* ===== verification/Manager.thy ===== *)
theory Manager
  imports World
begin

text \<open>
  \<open>cmd/manager/main.go\<close>: the options of the controller manager and the order in which it is set up. The
  manager itself, the controllers' registration and the servers belong to controller-runtime; they
  are the parameters of \<open>manenv\<close>. What each controller does is in the theories of the controllers.
\<close>

section \<open>Options\<close>

text \<open>
  The rate limit is a floating point number; only its sign and its conversion to 32 bits matter, so
  it is a parameter of any type with these two, held in \<open>manenv\<close>.
\<close>

record 'q flags =
  metricsAddr :: string
  probeAddr :: string
  pprofAddr :: string
  enableLeaderElection :: bool
  secureMetrics :: bool
  enableHTTP2 :: bool
  kubeClientQPS :: 'q
  kubeClientBurst :: int

definition defaultFlags :: "'q \<Rightarrow> 'q flags" where
  "defaultFlags minusOne =
     \<lparr>metricsAddr = ''0'', probeAddr = '':8081'', pprofAddr = [], enableLeaderElection = False, secureMetrics = True,
      enableHTTP2 = False, kubeClientQPS = minusOne, kubeClientBurst = 0\<rparr>"

text \<open>The protocols of TLS connections; \<open>None\<close> leaves the choice to the library.\<close>

definition tlsProtocols :: "'q flags \<Rightarrow> string list option" where
  "tlsProtocols f = (if enableHTTP2 f then None else Some [''http/1.1''])"

record 'p restConfig =
  QPS :: 'p
  Burst :: int

definition limited :: "('q \<Rightarrow> bool) \<Rightarrow> ('q \<Rightarrow> 'p) \<Rightarrow> 'q flags \<Rightarrow> 'p restConfig \<Rightarrow> 'p restConfig" where
  "limited nonNegative float32 f cfg =
     (if nonNegative (kubeClientQPS f) then cfg\<lparr>QPS := float32 (kubeClientQPS f), Burst := kubeClientBurst f\<rparr> else cfg)"

record metricsOptions =
  BindAddress :: string
  SecureServing :: bool
  MetricsProtocols :: "string list option"
  AuthFilter :: bool

definition metricsServerOptions :: "'q flags \<Rightarrow> metricsOptions" where
  "metricsServerOptions f =
     \<lparr>BindAddress = metricsAddr f, SecureServing = secureMetrics f, MetricsProtocols = tlsProtocols f,
      AuthFilter = secureMetrics f\<rparr>"

text \<open>\<open>ByObject\<close>: a watched kind, the namespaces of its cache, and whether managed fields are stripped.\<close>

record managerOptions =
  DisableFor :: "kind list"
  ByObject :: "(kind \<times> string list \<times> bool) list"
  Metrics :: metricsOptions
  WebhookProtocols :: "string list option"
  HealthProbeBindAddress :: string
  LeaderElection :: bool
  LeaderElectionID :: string

definition newManagerOptions :: "'q flags \<Rightarrow> managerOptions" where
  "newManagerOptions f =
     \<lparr>DisableFor = [KSecret, KServiceAccount, KConfigMap, KPod, KComponent],
      ByObject = [(KDependencyUpdateCheck, [MintMakerNamespaceName], True), (KEvent, [MintMakerNamespaceName], True),
                  (KPipelineRun, [MintMakerNamespaceName], True)],
      Metrics = metricsServerOptions f, WebhookProtocols = tlsProtocols f, HealthProbeBindAddress = probeAddr f,
      LeaderElection = enableLeaderElection f, LeaderElectionID = ''33073e9f.mintmaker.redhat.com''\<rparr>"

section \<open>Profiling\<close>

text \<open>The address of the profiling server, if one is started, and the reason that is logged otherwise.\<close>

definition pprofServer :: "string \<Rightarrow> string \<Rightarrow> string option" where
  "pprofServer addr profiling =
     (if addr \<noteq> [] \<and> profiling = ''true'' then Some (if hd addr = CHR '':'' then ''127.0.0.1'' @ addr else addr) else None)"

definition notSet :: "string \<Rightarrow> string" where
  "notSet name = name @ '' env var not set to '' @ [CHR 0x27] @ ''true'' @ [CHR 0x27]"

definition pprofReason :: "string \<Rightarrow> string \<Rightarrow> string option" where
  "pprofReason addr profiling =
     (if addr \<noteq> [] \<and> profiling \<noteq> ''true'' then Some (notSet ''ENABLE_PPROFLING'') else None)"

section \<open>Setting up\<close>

record ('w, 'q, 'p) manenv =
  nonNegative :: "'q \<Rightarrow> bool"
  float32 :: "'q \<Rightarrow> 'p"
  loadConfig :: "('w, error + 'p restConfig) io"
  newManager :: "'p restConfig \<Rightarrow> managerOptions \<Rightarrow> ('w, error option) io"
  profilingVar :: string
  servePprof :: "string \<Rightarrow> ('w, unit) io"
  setupDependencyUpdateCheck :: "('w, error option) io"
  setupPipelineRun :: "('w, error option) io"
  setupEvent :: "('w, error option) io"
  addHealthz :: "('w, error option) io"
  addReadyz :: "('w, error option) io"
  registerMetrics :: "('w, error option) io"
  startManager :: "('w, error option) io"

text \<open>The steps behind the creation of the manager, in their order; each failure ends the program.\<close>

definition setupSteps :: "('w, 'q, 'p) manenv \<Rightarrow> (string \<times> ('w, error option) io) list" where
  "setupSteps M =
     [(''DependencyUpdateCheck'', setupDependencyUpdateCheck M), (''PipelineRun'', setupPipelineRun M),
      (''Event'', setupEvent M), (''healthz'', addHealthz M), (''readyz'', addReadyz M),
      (''metrics'', registerMetrics M), (''start'', startManager M)]"

fun setup_loop :: "(string \<times> ('w, error option) io) list \<Rightarrow> ('w, int) prog" where
  "setup_loop [] = return 0"
| "setup_loop ((name, step) # steps) =
     external name step \<bind> (\<lambda>r. case r of Some e \<Rightarrow> return 1 | None \<Rightarrow> setup_loop steps)"

definition startPprof :: "('w, 'q, 'p) manenv \<Rightarrow> 'q flags \<Rightarrow> ('w, unit) prog" where
  "startPprof M f =
     (case pprofServer (pprofAddr f) (profilingVar M) of
        None \<Rightarrow> return ()
      | Some addr \<Rightarrow> external (''pprof '' @ addr) (servePprof M addr))"

text \<open>The exit status; \<open>GetConfigOrDie\<close> ends the program itself.\<close>

definition manager_main :: "('w, 'q, 'p) manenv \<Rightarrow> 'q flags \<Rightarrow> ('w, int) prog" where
  "manager_main M f =
     external ''config'' (loadConfig M) \<bind> (\<lambda>r.
     case r of
       Inl e \<Rightarrow> return 1
     | Inr cfg \<Rightarrow>
         external ''manager'' (newManager M (limited (nonNegative M) (float32 M) f cfg) (newManagerOptions f)) \<bind> (\<lambda>r.
         case r of
           Some e \<Rightarrow> return 1
         | None \<Rightarrow> startPprof M f \<bind> (\<lambda>_. setup_loop (setupSteps M))))"

section \<open>The scheme\<close>

text \<open>
  The kinds a client of the manager can handle: what \<open>init\<close> registers before \<open>main\<close> runs, and
  \<open>addKnownTypes\<close> of \<open>api/v1alpha1/groupversion_info.go\<close>. A scheme is the list of the kinds
  registered, with their group and version; the registration functions of the libraries are
  parameters. \<open>Must\<close> panics with the first error.
\<close>

type_synonym scheme = "(string \<times> string \<times> string) list"

definition GroupVersion :: "string \<times> string" where
  "GroupVersion = (''appstudio.redhat.com'', ''v1alpha1'')"

definition addKnownTypes :: "(string \<times> string \<Rightarrow> scheme \<Rightarrow> scheme) \<Rightarrow> scheme \<Rightarrow> error + scheme" where
  "addKnownTypes AddToGroupVersion s =
     Inr (AddToGroupVersion GroupVersion
       (s @ [(fst GroupVersion, snd GroupVersion, ''DependencyUpdateCheck''),
             (fst GroupVersion, snd GroupVersion, ''DependencyUpdateCheckList'')]))"

fun must_all :: "(scheme \<Rightarrow> error + scheme) list \<Rightarrow> scheme \<Rightarrow> error + scheme" where
  "must_all [] s = Inr s"
| "must_all (add # adds) s = (case add s of Inl e \<Rightarrow> Inl e | Inr s' \<Rightarrow> must_all adds s')"

record schemes =
  clientgoAddToScheme :: "scheme \<Rightarrow> error + scheme"
  konfluxAddToScheme :: "scheme \<Rightarrow> error + scheme"
  tektonAddToScheme :: "scheme \<Rightarrow> error + scheme"
  addToGroupVersion :: "string \<times> string \<Rightarrow> scheme \<Rightarrow> scheme"

definition initScheme :: "schemes \<Rightarrow> error + scheme" where
  "initScheme L = must_all [clientgoAddToScheme L, konfluxAddToScheme L, addKnownTypes (addToGroupVersion L), tektonAddToScheme L] []"

fun gvk :: "kind \<Rightarrow> string \<times> string \<times> string" where
  "gvk KDependencyUpdateCheck = (''appstudio.redhat.com'', ''v1alpha1'', ''DependencyUpdateCheck'')"
| "gvk KComponent = (''appstudio.redhat.com'', ''v1alpha1'', ''Component'')"
| "gvk KSecret = ([], ''v1'', ''Secret'')"
| "gvk KConfigMap = ([], ''v1'', ''ConfigMap'')"
| "gvk KServiceAccount = ([], ''v1'', ''ServiceAccount'')"
| "gvk KPipelineRun = (''tekton.dev'', ''v1'', ''PipelineRun'')"
| "gvk KPod = ([], ''v1'', ''Pod'')"
| "gvk KEvent = ([], ''v1'', ''Event'')"

text \<open>What the libraries document: they add the kinds of their group, and drop none.\<close>

definition adds :: "(scheme \<Rightarrow> error + scheme) \<Rightarrow> kind set \<Rightarrow> bool" where
  "adds add ks \<longleftrightarrow> (\<forall>s. \<exists>s'. add s = Inr s' \<and> set s \<subseteq> set s' \<and> gvk ` ks \<subseteq> set s')"

text \<open>Every kind of object that the program reads, writes or watches is in the scheme.\<close>

lemma initScheme_complete:
  assumes "adds (clientgoAddToScheme L) {KSecret, KConfigMap, KServiceAccount, KPod, KEvent}"
    and "adds (konfluxAddToScheme L) {KComponent}" "adds (tektonAddToScheme L) {KPipelineRun}"
    and "\<And>gv s. set s \<subseteq> set (addToGroupVersion L gv s)"
  shows "\<exists>s. initScheme L = Inr s \<and> gvk k \<in> set s"
proof -
  obtain s1 where s1: "clientgoAddToScheme L [] = Inr s1" "gvk ` {KSecret, KConfigMap, KServiceAccount, KPod, KEvent} \<subseteq> set s1"
    using assms(1) unfolding adds_def by blast
  obtain s2 where s2: "konfluxAddToScheme L s1 = Inr s2" "set s1 \<subseteq> set s2" "gvk KComponent \<in> set s2"
    using assms(2) unfolding adds_def by (metis image_insert insert_subset)
  obtain s3 where s3: "addKnownTypes (addToGroupVersion L) s2 = Inr s3" "set s2 \<subseteq> set s3" "gvk KDependencyUpdateCheck \<in> set s3"
    using assms(4) [of "s2 @ [(fst GroupVersion, snd GroupVersion, ''DependencyUpdateCheck''),
             (fst GroupVersion, snd GroupVersion, ''DependencyUpdateCheckList'')]" GroupVersion]
    by (auto simp: addKnownTypes_def GroupVersion_def)
  obtain s4 where s4: "tektonAddToScheme L s3 = Inr s4" "set s3 \<subseteq> set s4" "gvk KPipelineRun \<in> set s4"
    using assms(3) unfolding adds_def by (metis image_insert insert_subset)
  have "gvk k \<in> set s4" using s1(2) s2(2,3) s3(2,3) s4(2,3) by (cases k) auto
  then show ?thesis using s1(1) s2(1) s3(1) s4(1) by (simp add: initScheme_def)
qed

section \<open>Properties\<close>

definition watched :: "managerOptions \<Rightarrow> kind list" where
  "watched opts = map fst (ByObject opts)"

text \<open>
  Every kind of object is either watched, and then its cache holds only the namespace of
  the program and its managed fields are stripped, or read past the cache; no kind gets an
  informer of its own by being read.
\<close>

theorem cached_or_direct:
  "(k \<in> set (watched (newManagerOptions f)) \<longleftrightarrow> k \<notin> set (DisableFor (newManagerOptions f))) \<and>
   list_all (\<lambda>(k, namespaces, strip). namespaces = [MintMakerNamespaceName] \<and> strip) (ByObject (newManagerOptions f))"
  by (cases k) (simp_all add: watched_def newManagerOptions_def)

text \<open>
  The profiling server is bound to the local host only when the address has no host part:
  an address with a host is used as it is, so with \<open>0.0.0.0:6060\<close> it is reachable from outside. The
  variable that switches it on is not the one that the message about its absence names.
\<close>

theorem pprof_address:
  "pprofServer ('':'' @ port) ''true'' = Some (''127.0.0.1:'' @ port) \<and>
   pprofServer ''0.0.0.0:6060'' ''true'' = Some ''0.0.0.0:6060'' \<and>
   pprofReason (c # addr) [] = Some (notSet ''ENABLE_PPROFLING'')"
  by (simp add: pprofServer_def pprofReason_def)

definition startup :: "('w, 'q, 'p) manenv \<Rightarrow> 'q flags \<Rightarrow> call list" where
  "startup M f =
     [CExternal ''config'', CExternal ''manager'']
       @ (case pprofServer (pprofAddr f) (profilingVar M) of None \<Rightarrow> [] | Some addr \<Rightarrow> [CExternal (''pprof '' @ addr)])
       @ map (\<lambda>(name, step). CExternal name) (setupSteps M)"

definition stopsAt :: "call list \<Rightarrow> call list \<Rightarrow> int \<Rightarrow> bool" where
  "stopsAt full ts r \<longleftrightarrow> r = 0 \<and> ts = full \<or> r = 1 \<and> (\<exists>n. 0 < n \<and> n \<le> length full \<and> ts = take n full)"

lemma stopsAt_Cons: "stopsAt full ts r \<Longrightarrow> stopsAt (c # full) (c # ts) r"
  unfolding stopsAt_def by (metis Suc_le_mono length_Cons take_Suc_Cons zero_less_Suc)

lemma stopsAt_first: "stopsAt (c # full) [c] 1"
  unfolding stopsAt_def by (intro disjI2 conjI exI [of _ 1]) simp_all

lemma emits_stops: "emits (return 1) (\<lambda>us. stopsAt (c # full) (c # us))"
  by (intro emits_return stopsAt_first)

lemma emits_goes: "emits m (stopsAt full) \<Longrightarrow> emits m (\<lambda>us. stopsAt (c # full) (c # us))"
  by (erule emits_mono) (rule stopsAt_Cons)

lemma setup_loop_emits: "emits (setup_loop steps) (stopsAt (map (\<lambda>(name, step). CExternal name) steps))"
proof (induction steps)
  case (Cons x steps)
  obtain name step where x: "x = (name, step)" by (cases x)
  show ?case
    unfolding x setup_loop.simps external_def
    by (rule emits_bind [OF emits_perform [where Q = "\<lambda>ts _. ts = [CExternal name]"]])
      (auto split: option.splits intro!: emits_stops emits_goes Cons.IH)
qed (simp add: emits_return stopsAt_def)

text \<open>
  The manager is set up in a fixed order, and the program ends with status 0 only behind
  the last step; a failing step ends it with status 1 and nothing is started behind it.
\<close>

theorem manager_main_order: "emits (manager_main M f) (stopsAt (startup M f))"
proof -
  let ?steps = "map (\<lambda>(name, step). CExternal name) (setupSteps M)"
  let ?pprof = "case pprofServer (pprofAddr f) (profilingVar M) of None \<Rightarrow> [] | Some addr \<Rightarrow> [CExternal (''pprof '' @ addr)]"
  have "emits (startPprof M f \<bind> (\<lambda>_. setup_loop (setupSteps M))) (stopsAt (?pprof @ ?steps))"
  proof (rule emits_bind [where P = "\<lambda>ts _. ts = ?pprof"])
    show "emits (startPprof M f) (\<lambda>ts _. ts = ?pprof)"
      by (auto simp: startPprof_def external_def split: option.splits intro!: emits_return emits_perform)
    show "emits (setup_loop (setupSteps M)) (\<lambda>us. stopsAt (?pprof @ ?steps) (ts @ us))" if "ts = ?pprof" for ts
      using that by (auto intro!: emits_goes setup_loop_emits split: option.splits)
  qed
  then show ?thesis
    unfolding manager_main_def external_def startup_def append_Cons append_Nil
    by (intro emits_bind [OF emits_perform [where Q = "\<lambda>ts _. ts = [CExternal ''config'']"]])
      (auto split: sum.splits option.splits
        intro!: emits_stops emits_goes emits_bind [OF emits_perform [where Q = "\<lambda>ts _. ts = [CExternal ''manager'']"]])
qed

end
