(* ===== verification/Dispatch.thy ===== *)
theory Dispatch
  imports DependencyUpdateChecks EventController Manager
begin

text \<open>
  How the controllers are wired to the cluster: the \<open>SetupWithManager\<close> functions, which say what kind of
  object each controller watches and which changes pass its filter, and the dispatch of a change to
  the controllers. The builder of controller-runtime is modelled by what it documents: a change of an
  object of the watched kind that passes the filter leads to a reconciliation with the key of the
  object. Then what the controllers write leads to, and whether the caches of the manager hold what
  the controllers read.
\<close>

section \<open>Controllers\<close>

datatype watchEvent = CreateEvent obj | DeleteEvent obj | UpdateEvent obj obj | GenericEvent obj

record 'w controller =
  For :: kind
  CreateFunc :: "obj \<Rightarrow> bool"
  DeleteFunc :: "obj \<Rightarrow> bool"
  UpdateFunc :: "obj \<Rightarrow> obj \<Rightarrow> bool"
  GenericFunc :: "obj \<Rightarrow> bool"
  ReconcileFunc :: "string \<Rightarrow> string \<Rightarrow> ('w, error + unit) prog"

text \<open>The reconcilers: the client, here the environment, and the factory for git components.\<close>

record 'w reconciler =
  Client :: "'w env"
  newGitComponent :: "Component \<Rightarrow> ('w, error + 'w GitComponent) prog"

definition NewDependencyUpdateCheckReconciler ::
  "'w env \<Rightarrow> (Component \<Rightarrow> ('w, error + 'w GitComponent) prog) \<Rightarrow> 'w reconciler" where
  "NewDependencyUpdateCheckReconciler client factory = \<lparr>Client = client, newGitComponent = factory\<rparr>"

definition checkController :: "'w reconciler \<Rightarrow> 'w controller" where
  "checkController r =
     \<lparr>For = KDependencyUpdateCheck, CreateFunc = (\<lambda>_. True), DeleteFunc = (\<lambda>_. False), UpdateFunc = (\<lambda>_ _. False),
      GenericFunc = (\<lambda>_. False), ReconcileFunc = Reconcile (Client r) (newGitComponent r)\<rparr>"

definition eventController :: "'w reconciler \<Rightarrow> 'w controller" where
  "eventController r =
     \<lparr>For = KEvent, CreateFunc = (\<lambda>x. case x of OEvent evt \<Rightarrow> eventCreateFunc evt | _ \<Rightarrow> False),
      DeleteFunc = (\<lambda>_. False), UpdateFunc = (\<lambda>_ _. False), GenericFunc = (\<lambda>_. False),
      ReconcileFunc = EventReconcile (Client r) (newGitComponent r)\<rparr>"

definition runController :: "(PipelineRun \<Rightarrow> bool) \<Rightarrow> 'w controller" where
  "runController isDone =
     \<lparr>For = KPipelineRun, CreateFunc = (\<lambda>_. False), DeleteFunc = (\<lambda>_. False),
      UpdateFunc = (\<lambda>old new. case old of
          OPipelineRun oldRun \<Rightarrow> (case new of OPipelineRun newRun \<Rightarrow> runUpdateFunc isDone oldRun newRun | _ \<Rightarrow> False)
        | _ \<Rightarrow> False),
      GenericFunc = (\<lambda>_. False), ReconcileFunc = PipelineRunReconcile\<rparr>"

text \<open>The controllers that \<open>main\<close> sets up, in their order.\<close>

definition controllers :: "'w env \<Rightarrow> (PipelineRun \<Rightarrow> bool) \<Rightarrow> 'w controller list" where
  "controllers E isDone =
     [checkController (NewDependencyUpdateCheckReconciler E (NewGitComponent E)), runController isDone,
      eventController \<lparr>Client = E, newGitComponent = NewGitComponent E\<rparr>]"

section \<open>Dispatch\<close>

fun objectOf :: "watchEvent \<Rightarrow> obj" where
  "objectOf (CreateEvent x) = x"
| "objectOf (DeleteEvent x) = x"
| "objectOf (UpdateEvent old new) = new"
| "objectOf (GenericEvent x) = x"

fun passes :: "'w controller \<Rightarrow> watchEvent \<Rightarrow> bool" where
  "passes c (CreateEvent x) = CreateFunc c x"
| "passes c (DeleteEvent x) = DeleteFunc c x"
| "passes c (UpdateEvent old new) = UpdateFunc c old new"
| "passes c (GenericEvent x) = GenericFunc c x"

definition deliver :: "watchEvent \<Rightarrow> 'w controller \<Rightarrow> ('w, unit) prog" where
  "deliver ev c =
     (case objKey (objectOf ev) of (kind, namespace, name) \<Rightarrow>
        if kind = For c \<and> passes c ev then ReconcileFunc c namespace name \<bind> (\<lambda>_. return ()) else return ())"

fun dispatch :: "watchEvent \<Rightarrow> 'w controller list \<Rightarrow> ('w, unit) prog" where
  "dispatch ev [] = return ()"
| "dispatch ev (c # cs) = deliver ev c \<bind> (\<lambda>_. dispatch ev cs)"

section \<open>What leads to calls\<close>

text \<open>The changes that lead to a reconciliation that does something.\<close>

fun starts :: "watchEvent \<Rightarrow> bool" where
  "starts (CreateEvent (ODependencyUpdateCheck d)) = True"
| "starts (CreateEvent (OEvent evt)) = eventCreateFunc evt"
| "starts _ = False"

lemma objKey_kind:
  "fst (objKey (OSecret s)) = KSecret" "fst (objKey (OConfigMap m)) = KConfigMap" "fst (objKey (OPipelineRun p)) = KPipelineRun"
  "fst (objKey (ODependencyUpdateCheck d)) = KDependencyUpdateCheck" "fst (objKey (OEvent e)) = KEvent"
  by (simp_all add: metaKey_def)

lemma deliver_run: "deliver ev (runController isDone) = return ()"
  by (simp add: deliver_def runController_def PipelineRunReconcile_def return_def split: prod.split)

lemma deliver_nothing:
  assumes "\<not> starts ev"
  shows "deliver ev (checkController r) = return ()" "deliver ev (eventController r) = return ()"
proof -
  have "\<not> (fst (objKey (objectOf ev)) = KDependencyUpdateCheck \<and> passes (checkController r) ev)"
    using assms by (cases ev rule: starts.cases) (auto simp: checkController_def metaKey_def)
  then show "deliver ev (checkController r) = return ()"
    by (auto simp: deliver_def checkController_def split: prod.split)
  have "\<not> (fst (objKey (objectOf ev)) = KEvent \<and> passes (eventController r) ev)"
    using assms by (cases ev rule: starts.cases) (auto simp: eventController_def metaKey_def)
  then show "deliver ev (eventController r) = return ()"
    by (auto simp: deliver_def eventController_def split: prod.split)
qed

lemma dispatch_nothing: "\<not> starts ev \<Longrightarrow> trace (snd (run_state (dispatch ev (controllers E isDone)) s)) = trace s"
  by (simp add: controllers_def deliver_nothing deliver_run)

section \<open>No feedback\<close>

text \<open>Calls whose effect on the cluster starts nothing: no check and no event is created.\<close>

fun startsNothing :: "call \<Rightarrow> bool" where
  "startsNothing (CCreate (ODependencyUpdateCheck d) r) = False"
| "startsNothing (CCreate (OEvent e) r) = False"
| "startsNothing _ = True"

lemma startsNothing_read: "is_read c \<Longrightarrow> startsNothing c"
  by (cases c) auto

lemma startsNothing_run: "run_call name g branch c \<Longrightarrow> startsNothing c"
  by (cases c rule: startsNothing.cases) auto

lemma startsNothing_event: "event_call E c \<Longrightarrow> startsNothing c"
  by (cases c rule: startsNothing.cases) auto

text \<open>What a call reads from the cluster: the kind and the namespace.\<close>

fun readOf :: "call \<Rightarrow> (kind \<times> string) option" where
  "readOf (CGet k namespace name) = Some (k, namespace)"
| "readOf (CList k namespace labels) = Some (k, namespace)"
| "readOf (CListRuns namespace labels res) = Some (KPipelineRun, namespace)"
| "readOf _ = None"

lemma run_call_cases: "run_call name g branch c \<Longrightarrow> is_read c \<or> readOf c = None \<and> startsNothing c"
  by (cases c rule: startsNothing.cases) auto

text \<open>
  The interface between the controllers and a statement about all their calls: what it has to allow
  for the reconciliation of checks to keep to it.
\<close>

locale call_policy =
  fixes allowed :: "call \<Rightarrow> bool"
  assumes reads: "is_read c \<Longrightarrow> allowed c"
    and writes: "readOf c = None \<Longrightarrow> startsNothing c \<Longrightarrow> allowed c"
    and listing: "allowed (CListRuns MintMakerNamespaceName labels res)"
begin

lemma within_reads: "quiet m \<Longrightarrow> within allowed m"
  by (erule within_mono) (rule reads)

lemma within_branches: "read_only c \<Longrightarrow> within allowed (handleBranches_loop E c timestamp kite branches processed)"
proof (induction branches arbitrary: processed)
  case (Cons branch branches)
  have run: "within allowed (createPipelineRun E n c branch kite)" for n
    by (rule within_mono [OF within_createPipelineRun [OF Cons.prems]]) (auto dest!: run_call_cases intro: reads writes)
  have "within allowed (hasActivePipelineRun E h p branch)" for h p
    unfolding hasActivePipelineRun_def List_PipelineRuns_def by (intro quiet_rules listing)
  then have "within allowed (handleBranch E c timestamp kite branch)"
    unfolding handleBranch_def countRun_def using run
    by (auto intro!: quiet_rules split: sum.splits bool.splits)
  then show ?case using Cons by (auto simp: Let_def intro!: quiet_rules)
qed (simp add: within_return)

lemma within_components: "within allowed (components_loop E (NewGitComponent E') timestamp kite xs processed)"
proof (induction xs arbitrary: processed)
  case (Cons x xs)
  have "within allowed (GetBranches g \<bind> (\<lambda>b. case b of
           Inl e \<Rightarrow> components_loop E (NewGitComponent E') timestamp kite xs processed
         | Inr branches \<Rightarrow>
             onOk (handleBranches_loop E g timestamp kite branches processed) (\<lambda>processed.
             components_loop E (NewGitComponent E') timestamp kite xs processed)))" if "read_only g" for g
  proof -
    have "within allowed (GetBranches g)" using that by (intro within_reads) (simp add: read_only_def)
    then show ?thesis
      by (rule within_bind) (auto intro!: quiet_rules within_branches that Cons.IH split: sum.splits)
  qed
  then show ?case
    using Cons.IH by (auto intro!: gc.within_factory reads)
qed (simp add: within_return)

lemma within_Reconcile:
  assumes "allowed (CGet KDependencyUpdateCheck namespace name)"
  shows "within allowed (Reconcile E (NewGitComponent E') namespace name)"
proof -
  have rd: "within allowed (gatherComponents E d)" "within allowed (findKiteSecret E)" for d
    by (rule within_reads, intro quiet_rules)+
  have "within allowed (reconcileObject E (NewGitComponent E') d)" for d
    unfolding reconcileObject_def handleCheck_def recordCreation_def Update_DependencyUpdateCheck_def Let_def
    by (auto intro!: quiet_rules rd within_components writes split: sum.splits)
  then show ?thesis
    unfolding Reconcile_def by (auto intro!: quiet_rules assms split: sum.splits)
qed

end

interpretation nothing: call_policy startsNothing
  by unfold_locales (auto simp: startsNothing_read)

lemma within_deliver:
  "(\<And>kind namespace name. objKey (objectOf ev) = (kind, namespace, name) \<Longrightarrow> within P (ReconcileFunc c namespace name)) \<Longrightarrow>
     within P (deliver ev c)"
  unfolding deliver_def by (auto intro!: quiet_rules split: prod.split)

lemma within_dispatch:
  assumes "\<And>kind namespace name. objKey (objectOf ev) = (kind, namespace, name) \<Longrightarrow>
      within P (Reconcile E (NewGitComponent E) namespace name) \<and> within P (EventReconcile E (NewGitComponent E) namespace name)"
  shows "within P (dispatch ev (controllers E isDone))"
  unfolding controllers_def dispatch.simps deliver_run
  by (intro within_bind within_deliver within_return)
    (auto simp: checkController_def eventController_def NewDependencyUpdateCheckReconciler_def dest: assms)

lemma within_nothing_dispatch: "within startsNothing (dispatch ev (controllers E isDone))"
proof -
  have "within startsNothing (EventReconcile E (NewGitComponent E) ns n)" for ns n
    by (rule within_mono [OF gc.within_EventReconcile]) (rule startsNothing_event)
  then show ?thesis
    by (intro within_dispatch conjI nothing.within_Reconcile) simp
qed

text \<open>
  The changes that a call makes, as the cluster reports them: a creation creates an object of the
  kind that was sent, an update or patch changes one.
\<close>

inductive causes :: "call \<Rightarrow> watchEvent \<Rightarrow> bool" where
  create: "fst (objKey y) = fst (objKey x) \<Longrightarrow> causes (CCreate x r) (CreateEvent y)"
| update: "fst (objKey y) = fst (objKey x) \<Longrightarrow> causes (CUpdate x r) (UpdateEvent old y)"
| patch: "fst (objKey y) = fst (objKey x) \<Longrightarrow> causes (CPatch original x r) (UpdateEvent old y)"
| delete: "objKey y = k \<Longrightarrow> causes (CDelete k) (DeleteEvent y)"

inductive_cases causesE: "causes c ev"

lemma startsNothing_causes: "startsNothing c \<Longrightarrow> causes c ev \<Longrightarrow> \<not> starts ev"
proof (erule causesE, goal_cases)
  case (1 y x r)
  then show ?case by (cases x; cases y) (simp_all add: metaKey_def)
qed simp_all

text \<open>
  C11: the controllers do not feed on their own writes: whatever change of the cluster is
  dispatched to them, and however the cluster and the services behave, every change that their calls
  make in turn leads to no further call. Only the creation of a check, or of a \<open>FailedMount\<close> event
  that is not marked as processed, leads to calls at all.
\<close>

theorem dispatch_no_feedback:
  "emits (dispatch ev (controllers E isDone))
     (\<lambda>ts r. (ts \<noteq> [] \<longrightarrow> starts ev) \<and>
        (\<forall>c \<in> set ts. \<forall>ev'. causes c ev' \<longrightarrow>
           (\<forall>s. trace (snd (run_state (dispatch ev' (controllers E isDone)) s)) = trace s)))"
proof -
  have "emits (dispatch ev (controllers E isDone)) (\<lambda>ts r. ts \<noteq> [] \<longrightarrow> starts ev)"
  proof (cases "starts ev")
    case True
    then show ?thesis using within_nothing_dispatch [of ev E isDone] by (auto simp: within_def elim: emits_mono)
  next
    case False
    then show ?thesis by (simp add: emits_def dispatch_nothing)
  qed
  from emits_conj [OF this within_nothing_dispatch [of ev E isDone, unfolded within_def]]
  show ?thesis
    by (rule emits_mono) (auto simp: list_all_iff dest: startsNothing_causes intro!: dispatch_nothing)
qed

theorem dispatch_no_feedback_witness:
  "trace (snd (run_state (dispatch (UpdateEvent (OEvent waitingEvent) (OEvent (markEvent waitingEvent)))
     (controllers waitingCluster (\<lambda>p. False))) start)) = []"
proof -
  let ?ev = "UpdateEvent (OEvent waitingEvent) (OEvent (markEvent waitingEvent))"
  have "\<not> starts ?ev" by simp
  then show ?thesis
    using emits_run [OF dispatch_no_feedback [of ?ev waitingCluster "\<lambda>p. False"], of start] by (auto simp: start_def)
qed

text \<open>
  When the manager starts it is told of every object there is as if it were new. What has
  been dealt with before is left alone: for a check that is marked as processed nothing but the
  check itself is read, and for a marked event nothing is done at all.
\<close>

theorem replay_is_quiet:
  assumes "\<And>s. fst (k8sGetDependencyUpdateCheck E (Namespace (ducMeta d)) (Name (ducMeta d)) s) = Inr d'"
    and "isProcessed d'"
  shows "emits (dispatch (CreateEvent (ODependencyUpdateCheck d)) (controllers E isDone))
      (\<lambda>ts r. ts = [CGet KDependencyUpdateCheck (Namespace (ducMeta d)) (Name (ducMeta d))]) \<and>
    emits (dispatch (CreateEvent (OEvent (markEvent e))) (controllers E isDone)) (\<lambda>ts r. ts = [])"
proof
  show "emits (dispatch (CreateEvent (ODependencyUpdateCheck d)) (controllers E isDone))
      (\<lambda>ts r. ts = [CGet KDependencyUpdateCheck (Namespace (ducMeta d)) (Name (ducMeta d))])"
    using assms
    by (simp add: emits_def controllers_def deliver_def checkController_def eventController_def runController_def
        NewDependencyUpdateCheckReconciler_def metaKey_def Reconcile_def reconcileObject_def client_defs)
  have "\<not> starts (CreateEvent (OEvent (markEvent e)))"
    by (simp add: eventCreateFunc_def markEvent_def update_conv')
  then show "emits (dispatch (CreateEvent (OEvent (markEvent e))) (controllers E isDone)) (\<lambda>ts r. ts = [])"
    by (simp add: emits_def dispatch_nothing)
qed

definition markedCluster :: "unit env" where
  "markedCluster = emptyCluster\<lparr>k8sGetDependencyUpdateCheck := (\<lambda>ns n w. (Inr (markProcessed emptyDependencyUpdateCheck), w))\<rparr>"

theorem replay_is_quiet_witness:
  "trace (snd (run_state (dispatch (CreateEvent (ODependencyUpdateCheck emptyDependencyUpdateCheck))
     (controllers markedCluster (\<lambda>p. False))) start)) = [CGet KDependencyUpdateCheck [] []]"
proof -
  have "emits (dispatch (CreateEvent (ODependencyUpdateCheck emptyDependencyUpdateCheck)) (controllers markedCluster (\<lambda>p. False)))
      (\<lambda>ts r. ts = [CGet KDependencyUpdateCheck (Namespace (ducMeta emptyDependencyUpdateCheck)) (Name (ducMeta emptyDependencyUpdateCheck))])"
    using replay_is_quiet [of markedCluster emptyDependencyUpdateCheck "markProcessed emptyDependencyUpdateCheck"]
    by (simp add: markedCluster_def)
  from emits_run [OF this, of start] show ?thesis
    by (auto simp: start_def emptyDependencyUpdateCheck_def newMeta_def)
qed

section \<open>Reads and caches\<close>

text \<open>
  Whether the client of the manager can answer a call, by its options: a kind that has a cache is read
  from it, and only the namespaces of the cache can be asked for; another kind has to be exempt
  from caching, or else reading it would start an informer for the whole cluster.
\<close>

definition servedBy :: "managerOptions \<Rightarrow> call \<Rightarrow> bool" where
  "servedBy opts c =
     (case readOf c of
        None \<Rightarrow> True
      | Some (k, namespace) \<Rightarrow>
          (case map_of (ByObject opts) k of
             Some (namespaces, strip) \<Rightarrow> namespace \<in> set namespaces
           | None \<Rightarrow> k \<in> set (DisableFor opts)))"

lemma servedBy_simps [simp]:
  "servedBy (newManagerOptions f) (CGet k namespace name) \<longleftrightarrow> (cachedKind k \<longrightarrow> namespace = MintMakerNamespaceName)"
  "servedBy (newManagerOptions f) (CList k namespace labels) \<longleftrightarrow> (cachedKind k \<longrightarrow> namespace = MintMakerNamespaceName)"
  "servedBy (newManagerOptions f) (CListRuns namespace labels res) \<longleftrightarrow> namespace = MintMakerNamespaceName"
  by (cases k; simp add: servedBy_def newManagerOptions_def)+

lemma servedBy_write: "readOf c = None \<Longrightarrow> servedBy opts c"
  by (simp add: servedBy_def)

lemma servedBy_read: "is_read c \<Longrightarrow> servedBy (newManagerOptions f) c"
  by (cases c) (simp_all add: servedBy_write)

interpretation served: call_policy "servedBy (newManagerOptions f)" for f
  by unfold_locales (simp_all add: servedBy_read servedBy_write)

text \<open>What an object that was read has to do with the request for it.\<close>

lemma within_result:
  "within P m \<Longrightarrow> (\<And>s. Q (fst (run_state m s))) \<Longrightarrow> emits m (\<lambda>ts x. list_all P ts \<and> Q x)"
  unfolding within_def emits_def by blast

lemma within_post:
  "emits m (\<lambda>ts x. list_all P ts \<and> Q x) \<Longrightarrow> (\<And>x. Q x \<Longrightarrow> within P (g x)) \<Longrightarrow> within P (m \<bind> g)"
  unfolding within_def by (erule emits_bind) (fastforce elim: emits_mono)

lemma within_perform_bind:
  assumes "\<And>w. P (c (fst (f w)))" "\<And>w. within P (g (fst (f w)))"
  shows "within P (perform f c \<bind> g)"
  using assms by (intro within_post [where Q = "\<lambda>x. \<exists>w. x = fst (f w)"]) (auto simp: emits_def)

lemma handleEvent_pod:
  assumes "\<And>namespace name w pod. fst (k8sGetPod E namespace name w) = Inr pod \<Longrightarrow> Namespace (podMeta pod) = namespace"
  shows "fst (fst (run_state (handleEvent E factory evt) s)) = emptyPod \<or>
    Namespace (podMeta (fst (fst (run_state (handleEvent E factory evt) s)))) = InvolvedNamespace evt"
  using assms by (auto simp: handleEvent_def Get_Pod_def split: option.splits sum.splits prod.splits)

lemma served_deferred:
  "pod = emptyPod \<or> Namespace (podMeta pod) = MintMakerNamespaceName \<Longrightarrow>
     within (servedBy (newManagerOptions f)) (eventDeferred E evt pod m)"
  unfolding eventDeferred_def markEventAsProcessed_def cancelRun_def Patch_Event_def Patch_PipelineRun_def Get_PipelineRun_def
  by (auto simp: emptyPod_def newMeta_def servedBy_write intro!: quiet_rules split: option.splits)

lemma served_EventReconcile:
  assumes ev: "\<And>namespace name w evt. fst (k8sGetEvent E namespace name w) = Inr evt \<Longrightarrow> InvolvedNamespace evt = namespace"
    and pod: "\<And>namespace name w pod. fst (k8sGetPod E namespace name w) = Inr pod \<Longrightarrow> Namespace (podMeta pod) = namespace"
  shows "within (servedBy (newManagerOptions f)) (EventReconcile E (NewGitComponent E) MintMakerNamespaceName name)"
proof -
  let ?P = "servedBy (newManagerOptions f)"
  have body: "within ?P (handleEvent E (NewGitComponent E) evt \<bind> (\<lambda>(pod, m, result). eventDeferred E evt pod m \<bind> (\<lambda>_. return result)))"
    if "InvolvedNamespace evt = MintMakerNamespaceName" for evt
  proof -
    have "within ?P (handleEvent E (NewGitComponent E) evt)"
      by (rule gc.within_handleEvent) (simp_all add: servedBy_read servedBy_write)
    then have "emits (handleEvent E (NewGitComponent E) evt)
        (\<lambda>ts r. list_all ?P ts \<and> (fst r = emptyPod \<or> Namespace (podMeta (fst r)) = MintMakerNamespaceName))"
      by (rule within_result) (use handleEvent_pod [where evt = evt] pod that in metis)
    then show ?thesis
      by (rule within_post) (auto intro!: quiet_rules served_deferred)
  qed
  show ?thesis
    unfolding EventReconcile_def Get_Event_def
    by (rule within_perform_bind) (auto intro!: quiet_rules served_deferred body ev split: sum.splits)
qed

text \<open>
  C12: the caches of the manager hold only the namespace of the program, and only of the kinds it
  watches. That is enough: whatever change of an object in that namespace is dispatched, the
  controllers never ask the client for an object of a cached kind in another namespace (which it
  would refuse), and never for an object of a kind that is neither cached nor exempt (which would
  start an informer for the whole cluster). The cluster has to answer a request with an object of the
  namespace that was asked for, and an event has to involve an object of its own namespace.
\<close>

theorem reads_within_caches:
  assumes "\<And>namespace name w evt. fst (k8sGetEvent E namespace name w) = Inr evt \<Longrightarrow> InvolvedNamespace evt = namespace"
    and "\<And>namespace name w pod. fst (k8sGetPod E namespace name w) = Inr pod \<Longrightarrow> Namespace (podMeta pod) = namespace"
    and "objKey (objectOf ev) = (kind, MintMakerNamespaceName, name)"
  shows "within (servedBy (newManagerOptions f)) (dispatch ev (controllers E isDone))"
proof -
  have ev: "within (servedBy (newManagerOptions f)) (EventReconcile E (NewGitComponent E) MintMakerNamespaceName name)" for name
    by (rule served_EventReconcile [OF assms(1,2)])
  show ?thesis
    by (rule within_dispatch) (auto simp: assms(3) intro!: ev served.within_Reconcile)
qed

definition namespacedCluster :: "unit env" where
  "namespacedCluster = waitingCluster\<lparr>k8sGetEvent := (\<lambda>ns n w. (Inr (waitingEvent\<lparr>InvolvedNamespace := ns\<rparr>), w)),
     k8sGetPod := (\<lambda>ns n w. (Inr (waitingPod\<lparr>podMeta := (podMeta waitingPod)\<lparr>Namespace := ns\<rparr>\<rparr>), w))\<rparr>"

theorem reads_within_caches_witness:
  "list_all (servedBy (newManagerOptions (defaultFlags (0::int))))
     (trace (snd (run_state (dispatch (CreateEvent (OEvent waitingEvent)) (controllers namespacedCluster (\<lambda>p. False))) start)))"
proof -
  have "within (servedBy (newManagerOptions (defaultFlags (0::int))))
      (dispatch (CreateEvent (OEvent waitingEvent)) (controllers namespacedCluster (\<lambda>p. False)))"
    by (rule reads_within_caches [where kind = KEvent and name = "''ev''"])
      (auto simp: namespacedCluster_def waitingEvent_def metaKey_def newMeta_def MintMakerNamespaceName_def)
  from emits_run [OF this [unfolded within_def], of start] show ?thesis by (auto simp: start_def)
qed

end
