(* ===== verification/DeepCopy.thy ===== *)
theory DeepCopy
  imports Kubernetes
begin

text \<open>
  \<open>api/v1alpha1/zz_generated.deepcopy.go\<close>: the deep copies of the API types, on an explicit memory,
  because what they promise is about sharing: the copy equals the original, and no later write to the
  one is seen through the other. A slice is a window on an array in memory; \<open>new\<close> and \<open>make\<close> take
  fresh memory. The metadata types of the Kubernetes library are values here, and their own deep
  copies are parameters.
\<close>

section \<open>Memory\<close>

record slice =
  sArray :: nat
  sOffset :: nat
  sLen :: nat

record TypeMeta =
  tmKind :: string
  tmAPIVersion :: string

record ListMeta =
  lmResourceVersion :: string
  lmContinue :: string

text \<open>
  The structs, one to a cell; \<open>None\<close> is the \<open>nil\<close> slice. The \<open>Spec\<close> of a check is the slice in its cell,
  and its status is empty, so a pointer to the \<open>Spec\<close> field of a check is the pointer to the check.
\<close>

datatype cell =
    ComponentCell string
  | ApplicationCell string "slice option"
  | NamespaceCell string "slice option"
  | SpecCell "slice option"
  | StatusCell
  | CheckCell TypeMeta ObjectMeta "slice option"
  | ListCell TypeMeta ListMeta "slice option"

fun sliceOf :: "cell \<Rightarrow> slice option" where
  "sliceOf (ApplicationCell n s) = s"
| "sliceOf (NamespaceCell n s) = s"
| "sliceOf (SpecCell s) = s"
| "sliceOf (CheckCell t m s) = s"
| "sliceOf (ListCell t m s) = s"
| "sliceOf c = None"

fun setSlice :: "slice option \<Rightarrow> cell \<Rightarrow> cell" where
  "setSlice s (ApplicationCell n _) = ApplicationCell n s"
| "setSlice s (NamespaceCell n _) = NamespaceCell n s"
| "setSlice s (SpecCell _) = SpecCell s"
| "setSlice s (CheckCell t m _) = CheckCell t m s"
| "setSlice s (ListCell t m _) = ListCell t m s"
| "setSlice s c = c"

text \<open>A pointer names a cell of an array; \<open>new\<close> makes an array of one cell.\<close>

type_synonym ptr = "nat \<times> nat"

record heap =
  mem :: "nat \<Rightarrow> cell list"
  nextArray :: nat

definition load :: "heap \<Rightarrow> ptr \<Rightarrow> cell" where
  "load h p = mem h (fst p) ! snd p"

definition store :: "ptr \<Rightarrow> cell \<Rightarrow> heap \<Rightarrow> heap" where
  "store p c h = h\<lparr>mem := (mem h)(fst p := (mem h (fst p))[snd p := c])\<rparr>"

definition alloc :: "cell list \<Rightarrow> heap \<Rightarrow> nat \<times> heap" where
  "alloc cs h = (nextArray h, h\<lparr>mem := (mem h)(nextArray h := cs), nextArray := Suc (nextArray h)\<rparr>)"

text \<open>\<open>&s[i]\<close>, and \<open>*out = *in\<close>.\<close>

definition elem :: "slice \<Rightarrow> nat \<Rightarrow> ptr" where
  "elem s i = (sArray s, sOffset s + i)"

definition assign :: "ptr \<Rightarrow> ptr \<Rightarrow> heap \<Rightarrow> heap" where
  "assign pin pout h = store pout (load h pin) h"

section \<open>The copies\<close>

text \<open>
  The block that every struct has for its slice: unless it is \<open>nil\<close>, make a new one of the same length
  and copy the elements one by one. For strings the copy is \<open>copy\<close>, element by element \<open>*out = *in\<close>.
\<close>

definition copySliceField :: "cell \<Rightarrow> (ptr \<Rightarrow> ptr \<Rightarrow> heap \<Rightarrow> heap) \<Rightarrow> ptr \<Rightarrow> ptr \<Rightarrow> heap \<Rightarrow> heap" where
  "copySliceField zero copyElement pin pout h =
     (case sliceOf (load h pin) of
        None \<Rightarrow> h
      | Some s \<Rightarrow>
          (let (a, h1) = alloc (replicate (sLen s) zero) h;
               new = \<lparr>sArray = a, sOffset = 0, sLen = sLen s\<rparr>;
               h2 = store pout (setSlice (Some new) (load h1 pout)) h1
           in case sliceOf (load h2 pin) of
                None \<Rightarrow> h2
              | Some old \<Rightarrow> fold (\<lambda>i. copyElement (elem old i) (elem new i)) [0..<sLen old] h2))"

definition ApplicationSpec_DeepCopyInto :: "ptr \<Rightarrow> ptr \<Rightarrow> heap \<Rightarrow> heap" where
  "ApplicationSpec_DeepCopyInto pin pout h = copySliceField (ComponentCell []) assign pin pout (assign pin pout h)"

definition NamespaceSpec_DeepCopyInto :: "ptr \<Rightarrow> ptr \<Rightarrow> heap \<Rightarrow> heap" where
  "NamespaceSpec_DeepCopyInto pin pout h =
     copySliceField (ApplicationCell [] None) ApplicationSpec_DeepCopyInto pin pout (assign pin pout h)"

text \<open>The assignment of a whole \<open>Spec\<close> is that of its one field.\<close>

definition Spec_DeepCopyInto :: "ptr \<Rightarrow> ptr \<Rightarrow> heap \<Rightarrow> heap" where
  "Spec_DeepCopyInto pin pout h =
     copySliceField (NamespaceCell [] None) NamespaceSpec_DeepCopyInto pin pout
       (store pout (setSlice (sliceOf (load h pin)) (load h pout)) h)"

definition Status_DeepCopyInto :: "ptr \<Rightarrow> ptr \<Rightarrow> heap \<Rightarrow> heap" where
  "Status_DeepCopyInto pin pout h = assign pin pout h"

text \<open>\<open>out.TypeMeta = in.TypeMeta\<close> and the copy of the library's metadata.\<close>

fun setMeta :: "(ObjectMeta \<Rightarrow> ObjectMeta) \<Rightarrow> (ListMeta \<Rightarrow> ListMeta) \<Rightarrow> cell \<Rightarrow> cell \<Rightarrow> cell" where
  "setMeta copyMeta copyList (CheckCell t m s) (CheckCell t' m' s') = CheckCell t (copyMeta m) s'"
| "setMeta copyMeta copyList (ListCell t m s) (ListCell t' m' s') = ListCell t (copyList m) s'"
| "setMeta copyMeta copyList c c' = c'"

definition DependencyUpdateCheck_DeepCopyInto ::
  "(ObjectMeta \<Rightarrow> ObjectMeta) \<Rightarrow> (ListMeta \<Rightarrow> ListMeta) \<Rightarrow> ptr \<Rightarrow> ptr \<Rightarrow> heap \<Rightarrow> heap" where
  "DependencyUpdateCheck_DeepCopyInto copyMeta copyList pin pout h =
     (let h1 = assign pin pout h;
          h2 = store pout (setMeta copyMeta copyList (load h1 pin) (load h1 pout)) h1
      in Spec_DeepCopyInto pin pout h2)"

definition DependencyUpdateCheckList_DeepCopyInto ::
  "(ObjectMeta \<Rightarrow> ObjectMeta) \<Rightarrow> (ListMeta \<Rightarrow> ListMeta) \<Rightarrow> ptr \<Rightarrow> ptr \<Rightarrow> heap \<Rightarrow> heap" where
  "DependencyUpdateCheckList_DeepCopyInto copyMeta copyList pin pout h =
     (let h1 = assign pin pout h;
          h2 = store pout (setMeta copyMeta copyList (load h1 pin) (load h1 pout)) h1
      in copySliceField (CheckCell \<lparr>tmKind = [], tmAPIVersion = []\<rparr> (newMeta [] []) None)
           (DependencyUpdateCheck_DeepCopyInto copyMeta copyList) pin pout h2)"

text \<open>\<open>DeepCopy\<close>: \<open>nil\<close> for \<open>nil\<close>, and else a new struct that is copied into.\<close>

definition deepCopy :: "cell \<Rightarrow> (ptr \<Rightarrow> ptr \<Rightarrow> heap \<Rightarrow> heap) \<Rightarrow> ptr option \<Rightarrow> heap \<Rightarrow> ptr option \<times> heap" where
  "deepCopy zero copyInto in' h =
     (case in' of
        None \<Rightarrow> (None, h)
      | Some pin \<Rightarrow> (let (a, h1) = alloc [zero] h in (Some (a, 0), copyInto pin (a, 0) h1)))"

definition ApplicationSpec_DeepCopy :: "ptr option \<Rightarrow> heap \<Rightarrow> ptr option \<times> heap" where
  "ApplicationSpec_DeepCopy = deepCopy (ApplicationCell [] None) ApplicationSpec_DeepCopyInto"

definition NamespaceSpec_DeepCopy :: "ptr option \<Rightarrow> heap \<Rightarrow> ptr option \<times> heap" where
  "NamespaceSpec_DeepCopy = deepCopy (NamespaceCell [] None) NamespaceSpec_DeepCopyInto"

definition Spec_DeepCopy :: "ptr option \<Rightarrow> heap \<Rightarrow> ptr option \<times> heap" where
  "Spec_DeepCopy = deepCopy (SpecCell None) Spec_DeepCopyInto"

definition Status_DeepCopy :: "ptr option \<Rightarrow> heap \<Rightarrow> ptr option \<times> heap" where
  "Status_DeepCopy = deepCopy StatusCell Status_DeepCopyInto"

definition DependencyUpdateCheck_DeepCopy ::
  "(ObjectMeta \<Rightarrow> ObjectMeta) \<Rightarrow> (ListMeta \<Rightarrow> ListMeta) \<Rightarrow> ptr option \<Rightarrow> heap \<Rightarrow> ptr option \<times> heap" where
  "DependencyUpdateCheck_DeepCopy copyMeta copyList =
     deepCopy (CheckCell \<lparr>tmKind = [], tmAPIVersion = []\<rparr> (newMeta [] []) None)
       (DependencyUpdateCheck_DeepCopyInto copyMeta copyList)"

definition DependencyUpdateCheckList_DeepCopy ::
  "(ObjectMeta \<Rightarrow> ObjectMeta) \<Rightarrow> (ListMeta \<Rightarrow> ListMeta) \<Rightarrow> ptr option \<Rightarrow> heap \<Rightarrow> ptr option \<times> heap" where
  "DependencyUpdateCheckList_DeepCopy copyMeta copyList =
     deepCopy (ListCell \<lparr>tmKind = [], tmAPIVersion = []\<rparr> \<lparr>lmResourceVersion = [], lmContinue = []\<rparr> None)
       (DependencyUpdateCheckList_DeepCopyInto copyMeta copyList)"

text \<open>\<open>DeepCopyObject\<close>: the copy as an object of the library, which \<open>nil\<close> is not.\<close>

definition DependencyUpdateCheck_DeepCopyObject ::
  "(ObjectMeta \<Rightarrow> ObjectMeta) \<Rightarrow> (ListMeta \<Rightarrow> ListMeta) \<Rightarrow> ptr option \<Rightarrow> heap \<Rightarrow> ptr option \<times> heap" where
  "DependencyUpdateCheck_DeepCopyObject copyMeta copyList in' h =
     (case DependencyUpdateCheck_DeepCopy copyMeta copyList in' h of (Some c, h1) \<Rightarrow> (Some c, h1) | (None, h1) \<Rightarrow> (None, h1))"

definition DependencyUpdateCheckList_DeepCopyObject ::
  "(ObjectMeta \<Rightarrow> ObjectMeta) \<Rightarrow> (ListMeta \<Rightarrow> ListMeta) \<Rightarrow> ptr option \<Rightarrow> heap \<Rightarrow> ptr option \<times> heap" where
  "DependencyUpdateCheckList_DeepCopyObject copyMeta copyList in' h =
     (case DependencyUpdateCheckList_DeepCopy copyMeta copyList in' h of (Some c, h1) \<Rightarrow> (Some c, h1) | (None, h1) \<Rightarrow> (None, h1))"

section \<open>What a pointer shows\<close>

text \<open>
  The value behind a pointer, with all its elements, and the condition that all of it lies in memory
  below \<open>b\<close> and within the bounds of its arrays. Both are lifted from the elements to the struct.
\<close>

definition elementsOf :: "(heap \<Rightarrow> ptr \<Rightarrow> 'a) \<Rightarrow> heap \<Rightarrow> ptr \<Rightarrow> 'a list option" where
  "elementsOf read h p = map_option (\<lambda>s. map (\<lambda>i. read h (elem s i)) [0..<sLen s]) (sliceOf (load h p))"

definition readWith :: "(heap \<Rightarrow> ptr \<Rightarrow> 'a) \<Rightarrow> heap \<Rightarrow> ptr \<Rightarrow> cell \<times> 'a list option" where
  "readWith read h p = (setSlice None (load h p), elementsOf read h p)"

definition located :: "nat \<Rightarrow> heap \<Rightarrow> ptr \<Rightarrow> bool" where
  "located b h p \<longleftrightarrow> fst p < b \<and> snd p < length (mem h (fst p))"

definition belowWith :: "(nat \<Rightarrow> heap \<Rightarrow> ptr \<Rightarrow> bool) \<Rightarrow> nat \<Rightarrow> heap \<Rightarrow> ptr \<Rightarrow> bool" where
  "belowWith below b h p \<longleftrightarrow> located b h p \<and>
     (case sliceOf (load h p) of None \<Rightarrow> True | Some s \<Rightarrow> \<forall>i < sLen s. below b h (elem s i))"

abbreviation "readApplication \<equiv> readWith load"
abbreviation "readNamespace \<equiv> readWith readApplication"
abbreviation "readCheck \<equiv> readWith readNamespace"
abbreviation "readList \<equiv> readWith readCheck"

abbreviation "belowApplication \<equiv> belowWith located"
abbreviation "belowNamespace \<equiv> belowWith belowApplication"
abbreviation "belowCheck \<equiv> belowWith belowNamespace"
abbreviation "belowList \<equiv> belowWith belowCheck"

section \<open>Memory, again\<close>

definition agree :: "nat set \<Rightarrow> heap \<Rightarrow> heap \<Rightarrow> bool" where
  "agree A g h \<longleftrightarrow> (\<forall>a \<in> A. mem g a = mem h a)"

text \<open>Nothing that existed changes but the cell behind one pointer.\<close>

definition changesOnly :: "ptr \<Rightarrow> heap \<Rightarrow> heap \<Rightarrow> bool" where
  "changesOnly p h h' \<longleftrightarrow> nextArray h \<le> nextArray h' \<and>
     (\<forall>a < nextArray h. length (mem h' a) = length (mem h a) \<and> (\<forall>i. (a, i) \<noteq> p \<longrightarrow> mem h' a ! i = mem h a ! i))"

lemma agree_refl [simp]: "agree A h h"
  by (simp add: agree_def)

lemma agree_mono: "agree A g h \<Longrightarrow> B \<subseteq> A \<Longrightarrow> agree B g h"
  by (auto simp: agree_def)

lemma agree_trans: "agree A f g \<Longrightarrow> agree A g h \<Longrightarrow> agree A f h"
  by (simp add: agree_def)

lemma agree_sym: "agree A f g \<Longrightarrow> agree A g f"
  by (simp add: agree_def)

lemma changesOnly_refl [simp]: "changesOnly p h h"
  by (simp add: changesOnly_def)

lemma changesOnly_trans:
  "changesOnly p h h' \<Longrightarrow> changesOnly p h' h'' \<Longrightarrow> changesOnly p h h''"
  by (auto simp: changesOnly_def)

lemma changesOnly_store [simp]: "changesOnly p h (store p c h)"
  by (cases p) (auto simp: changesOnly_def store_def)

lemma changesOnly_agree: "changesOnly p h h' \<Longrightarrow> b \<le> fst p \<Longrightarrow> b \<le> nextArray h \<Longrightarrow> agree {..<b} h' h"
  unfolding agree_def changesOnly_def by (cases p) (force intro!: nth_equalityI)

lemma load_store [simp]: "snd p < length (mem h (fst p)) \<Longrightarrow> load (store p c h) p = c"
  by (simp add: load_def store_def)

lemma load_store_other: "p \<noteq> q \<Longrightarrow> load (store p c h) q = load h q"
  by (cases p, cases q) (auto simp: load_def store_def)

lemma store_fields [simp]:
  "nextArray (store p c h) = nextArray h" "length (mem (store p c h) a) = length (mem h a)"
  by (simp_all add: store_def)

lemma load_agree: "agree A g h \<Longrightarrow> fst p \<in> A \<Longrightarrow> load g p = load h p"
  by (simp add: agree_def load_def)

lemma load_changesOnly: "changesOnly p h h' \<Longrightarrow> fst q < nextArray h \<Longrightarrow> q \<noteq> p \<Longrightarrow> load h' q = load h q"
  by (cases q) (simp add: changesOnly_def load_def)

lemma slice_facts [simp]:
  "setSlice s (setSlice t c) = setSlice s c" "sliceOf (setSlice None c) = None"
  "setSlice (sliceOf c) c = c"
  "sliceOf c = Some x \<Longrightarrow> sliceOf (setSlice s c) = s"
  by (cases c; simp)+

lemma located_agree: "located b h p \<Longrightarrow> agree {..<b} g h \<Longrightarrow> located b g p"
  by (simp add: located_def agree_def)

section \<open>Copying\<close>

text \<open>
  The contract of a deep copy: what it reads lies below \<open>b\<close> and stays as it is; it changes one cell
  above \<open>b\<close>; and what the result shows depends on that cell and fresh memory only.
\<close>

locale copier =
  fixes copyInto :: "ptr \<Rightarrow> ptr \<Rightarrow> heap \<Rightarrow> heap"
    and read :: "heap \<Rightarrow> ptr \<Rightarrow> 'a"
    and below :: "nat \<Rightarrow> heap \<Rightarrow> ptr \<Rightarrow> bool"
  assumes local: "below b h p \<Longrightarrow> agree {..<b} g h \<Longrightarrow> below b g p \<and> read g p = read h p"
    and below_located: "below b h p \<Longrightarrow> located b h p"
    and changes: "below b h pin \<Longrightarrow> b \<le> fst pout \<Longrightarrow> located (nextArray h) h pout \<Longrightarrow> changesOnly pout h (copyInto pin pout h)"
    and copies: "below b h pin \<Longrightarrow> b \<le> fst pout \<Longrightarrow> located (nextArray h) h pout \<Longrightarrow>
      load g pout = load (copyInto pin pout h) pout \<Longrightarrow>
      agree {nextArray h..<nextArray (copyInto pin pout h)} g (copyInto pin pout h) \<Longrightarrow> read g pout = read h pin"
begin

text \<open>The loop over the elements, into a new array \<open>a\<close>.\<close>

abbreviation loop :: "slice \<Rightarrow> nat \<Rightarrow> nat \<Rightarrow> heap \<Rightarrow> heap" where
  "loop old a n h \<equiv> fold (\<lambda>i. copyInto (elem old i) (a, i)) [0..<n] h"

lemma loop_copies:
  assumes old: "\<forall>i < n. below b h (elem old i)" and a: "b \<le> a" "a < nextArray h" "length (mem h a) = m" "n \<le> m"
  shows "nextArray h \<le> nextArray (loop old a n h) \<and>
    (\<forall>c < nextArray h. c \<noteq> a \<longrightarrow> mem (loop old a n h) c = mem h c) \<and> length (mem (loop old a n h) a) = m \<and>
    (\<forall>g. \<forall>j < n. mem g a ! j = mem (loop old a n h) a ! j \<longrightarrow>
       agree {nextArray h..<nextArray (loop old a n h)} g (loop old a n h) \<longrightarrow> read g (a, j) = read h (elem old j))"
  using old a(4)
proof (induction n)
  case 0
  then show ?case using a by simp
next
  case (Suc n)
  let ?k = "loop old a n h"
  let ?k' = "copyInto (elem old n) (a, n) ?k"
  have IH: "nextArray h \<le> nextArray ?k" "\<And>c. c < nextArray h \<Longrightarrow> c \<noteq> a \<Longrightarrow> mem ?k c = mem h c" "length (mem ?k a) = m"
    "\<And>g j. j < n \<Longrightarrow> mem g a ! j = mem ?k a ! j \<Longrightarrow> agree {nextArray h..<nextArray ?k} g ?k \<Longrightarrow> read g (a, j) = read h (elem old j)"
    using Suc by auto
  have same: "agree {..<b} ?k h" using IH(2) a by (simp add: agree_def)
  have bel: "below b ?k (elem old n)" and rd: "read ?k (elem old n) = read h (elem old n)"
    using local [OF _ same] Suc.prems(1) by auto
  have loc: "located (nextArray ?k) ?k (a, n)" using IH a Suc.prems(2) by (simp add: located_def)
  have ch: "changesOnly (a, n) ?k ?k'" by (rule changes [OF bel _ loc]) (use a in simp)
  have len: "length (mem ?k' a) = m" and mono: "nextArray ?k \<le> nextArray ?k'"
    using ch IH(1,3) a(2) by (auto simp: changesOnly_def)
  have other: "mem ?k' c = mem ?k c" if "c < nextArray ?k" "c \<noteq> a" for c
    using ch that by (intro nth_equalityI) (auto simp: changesOnly_def)
  have cell: "mem ?k' a ! j = mem ?k a ! j" if "j < n" for j
    using ch IH(1) a(2) that by (auto simp: changesOnly_def)
  have res: "read g (a, j) = read h (elem old j)"
    if j: "j < Suc n" and g: "mem g a ! j = mem ?k' a ! j" "agree {nextArray h..<nextArray ?k'} g ?k'" for g j
  proof (cases "j = n")
    case True
    have "read g (a, n) = read ?k (elem old n)"
      by (rule copies [OF bel _ loc]) (use a g True IH(1) in \<open>auto simp: load_def elim: agree_mono\<close>)
    then show ?thesis using True rd by simp
  next
    case False
    then have "j < n" using j by simp
    moreover have "agree {nextArray h..<nextArray ?k} g ?k"
      using g(2) other mono a(2) by (auto simp: agree_def)
    ultimately show ?thesis using IH(4) [of j g] g(1) cell by simp
  qed
  show ?case
  proof (intro conjI)
    show "nextArray h \<le> nextArray (loop old a (Suc n) h)" using IH(1) mono by simp
    show "\<forall>c < nextArray h. c \<noteq> a \<longrightarrow> mem (loop old a (Suc n) h) c = mem h c" using IH(1,2) other by simp
    show "length (mem (loop old a (Suc n) h) a) = m" using len by simp
    show "\<forall>g. \<forall>j < Suc n. mem g a ! j = mem (loop old a (Suc n) h) a ! j \<longrightarrow>
       agree {nextArray h..<nextArray (loop old a (Suc n) h)} g (loop old a (Suc n) h) \<longrightarrow> read g (a, j) = read h (elem old j)"
      using res by simp
  qed
qed

text \<open>The whole block: the header of the struct stays, and its elements are those of the original.\<close>

lemma block:
  fixes zero
  assumes below: "belowWith below b h pin" and out: "b \<le> fst pout" "located (nextArray h) h pout" "b \<le> nextArray h"
    and same: "sliceOf (load h pout) = sliceOf (load h pin)"
  defines "h' \<equiv> copySliceField zero copyInto pin pout h"
  shows "changesOnly pout h h'" "setSlice None (load h' pout) = setSlice None (load h pout)"
    "load g pout = load h' pout \<Longrightarrow> agree {nextArray h..<nextArray h'} g h' \<Longrightarrow> elementsOf read g pout = elementsOf read h pin"
proof -
  have block: "changesOnly pout h h' \<and> setSlice None (load h' pout) = setSlice None (load h pout) \<and>
    (\<forall>g. load g pout = load h' pout \<longrightarrow> agree {nextArray h..<nextArray h'} g h' \<longrightarrow> elementsOf read g pout = elementsOf read h pin)"
  proof (cases "sliceOf (load h pin)")
    case None
    then show ?thesis using same by (simp add: h'_def copySliceField_def elementsOf_def)
  next
    case (Some s)
    let ?a = "nextArray h"
    let ?new = "\<lparr>sArray = ?a, sOffset = 0, sLen = sLen s\<rparr>"
    let ?h1 = "h\<lparr>mem := (mem h)(?a := replicate (sLen s) zero), nextArray := Suc ?a\<rparr>"
    let ?h2 = "store pout (setSlice (Some ?new) (load ?h1 pout)) ?h1"
    let ?h3 = "loop s ?a (sLen s) ?h2"
    have pin: "located b h pin" "\<forall>i < sLen s. below b h (elem s i)" using below Some by (auto simp: belowWith_def)
    have "fst pout \<noteq> ?a" "pin \<noteq> pout" "fst pin \<noteq> ?a" using out pin by (auto simp: located_def)
    then have load1: "load ?h1 pout = load h pout" "load ?h1 pin = load h pin" by (simp_all add: load_def)
    have pos: "snd pout < length (mem ?h1 (fst pout))" using out \<open>fst pout \<noteq> ?a\<close> by (simp add: located_def)
    have "sliceOf (load ?h2 pin) = Some s" using load1 \<open>pin \<noteq> pout\<close> Some by (simp add: load_store_other)
    then have h': "h' = ?h3"
      by (simp add: h'_def copySliceField_def Some alloc_def elem_def Let_def)
    have agr: "agree {..<b} ?h2 h"
      using out by (auto simp: agree_def store_def)
    have bel: "\<forall>i < sLen s. below b ?h2 (elem s i)" and rd: "\<And>i. i < sLen s \<Longrightarrow> read ?h2 (elem s i) = read h (elem s i)"
      using pin(2) local [OF _ agr] by auto
    have L: "nextArray ?h2 \<le> nextArray ?h3" "\<And>c. c < ?a \<Longrightarrow> mem ?h3 c = mem ?h2 c" "length (mem ?h3 ?a) = sLen s"
      "\<And>g j. j < sLen s \<Longrightarrow> mem g ?a ! j = mem ?h3 ?a ! j \<Longrightarrow> agree {nextArray ?h2..<nextArray ?h3} g ?h3 \<Longrightarrow>
         read g (?a, j) = read ?h2 (elem s j)"
      using loop_copies [OF bel, of ?a "sLen s"] out \<open>fst pout \<noteq> ?a\<close> by (auto simp: store_def)
    have out3: "load ?h3 pout = setSlice (Some ?new) (load h pout)"
      using L(2) [of "fst pout"] out pos load1 load_store [OF pos] by (simp add: load_def located_def)
    have ch: "changesOnly pout h ?h3"
      unfolding changesOnly_def
    proof (intro conjI allI impI)
      show "nextArray h \<le> nextArray ?h3" using L(1) by simp
    next
      fix c assume c: "c < nextArray h"
      then show "length (mem ?h3 c) = length (mem h c)" using L(2) [OF c] by simp
      fix i assume "(c, i) \<noteq> pout"
      then show "mem ?h3 c ! i = mem h c ! i"
        using L(2) [OF c] c changesOnly_store [of pout ?h1 "setSlice (Some ?new) (load ?h1 pout)"]
        by (auto simp: changesOnly_def)
    qed
    have el: "elementsOf read g pout = elementsOf read h pin"
      if g: "load g pout = load ?h3 pout" "agree {nextArray h..<nextArray ?h3} g ?h3" for g
    proof -
      have "read g (?a, j) = read h (elem s j)" if "j < sLen s" for j
        using L(4) [OF that] rd [OF that] g(2) L(1) by (auto simp: agree_def)
      moreover have "sliceOf (load g pout) = Some ?new" using g(1) out3 same Some by simp
      ultimately show ?thesis by (simp add: elementsOf_def Some elem_def)
    qed
    show ?thesis using ch out3 el by (simp add: h')
  qed
  then show "changesOnly pout h h'" "setSlice None (load h' pout) = setSlice None (load h pout)"
    "load g pout = load h' pout \<Longrightarrow> agree {nextArray h..<nextArray h'} g h' \<Longrightarrow> elementsOf read g pout = elementsOf read h pin"
    by blast+
qed

text \<open>A struct whose elements are deep copied, and whose other fields are assigned, is deep copied.\<close>

lemma elementsOf_agree:
  assumes "belowWith below b h p" "agree {..<b} g h"
  shows "load g p = load h p" "elementsOf read g p = elementsOf read h p" "belowWith below b g p"
proof -
  show l: "load g p = load h p" using assms by (auto simp: belowWith_def located_def intro: load_agree)
  show "elementsOf read g p = elementsOf read h p"
    using assms l local [OF _ assms(2)] by (auto simp: elementsOf_def belowWith_def split: option.splits)
  show "belowWith below b g p"
    using assms l local [OF _ assms(2)] located_agree [OF _ assms(2)] by (auto simp: belowWith_def split: option.splits)
qed

lemma lifted:
  assumes "\<And>pin pout h. pin \<noteq> pout \<Longrightarrow> located (nextArray h) h pout \<Longrightarrow>
    F pin pout h = copySliceField zero copyInto pin pout (store pout (load h pin) h)"
  shows "copier F (readWith read) (belowWith below)"
proof (unfold_locales, goal_cases)
  case (1 b h p g)
  then show ?case using elementsOf_agree [OF 1] by (simp add: readWith_def)
next
  case (2 b h p)
  then show ?case by (simp add: belowWith_def)
next
  case (3 b h pin pout)
  let ?h = "store pout (load h pin) h"
  have apart: "pin \<noteq> pout" using 3 by (auto simp: belowWith_def located_def)
  have "agree {..<b} ?h h" using 3 by (auto simp: agree_def store_def)
  note E = elementsOf_agree [OF 3(1) this]
  have "changesOnly pout ?h (copySliceField zero copyInto pin pout ?h)"
    by (rule block(1) [OF E(3) 3(2)]) (use 3 E(1) in \<open>auto simp: located_def\<close>)
  then show ?case using assms [OF apart 3(3)] changesOnly_store [of pout h] by (metis changesOnly_trans)
next
  case (4 b h pin pout g)
  let ?h = "store pout (load h pin) h"
  let ?h' = "copySliceField zero copyInto pin pout ?h"
  have apart: "pin \<noteq> pout" using 4 by (auto simp: belowWith_def located_def)
  have F: "F pin pout h = ?h'" by (rule assms [OF apart 4(3)])
  have "agree {..<b} ?h h" using 4 by (auto simp: agree_def store_def)
  note E = elementsOf_agree [OF 4(1) this]
  have out: "load ?h pout = load h pin" using 4(3) by (simp add: located_def)
  have pre: "located (nextArray ?h) ?h pout" "b \<le> nextArray ?h" "sliceOf (load ?h pout) = sliceOf (load ?h pin)"
    using 4 E(1) out by (auto simp: located_def)
  have "elementsOf read g pout = elementsOf read ?h pin"
    by (rule block(3) [OF E(3) 4(2) pre]) (use 4(4,5) F in simp_all)
  moreover have "setSlice None (load g pout) = setSlice None (load h pin)"
    using block(2) [OF E(3) 4(2) pre] 4(4) F out by simp
  ultimately show ?case using E(2) by (simp add: readWith_def)
qed

end

interpretation component: copier assign load located
proof (unfold_locales, goal_cases)
  case (4 b h pin pout g)
  then show ?case by (simp add: assign_def located_def)
qed (auto simp: located_agree assign_def located_def agree_def load_def)

interpretation application: copier ApplicationSpec_DeepCopyInto readApplication belowApplication
  by (rule component.lifted) (simp add: ApplicationSpec_DeepCopyInto_def assign_def)

interpretation namespace: copier NamespaceSpec_DeepCopyInto readNamespace belowNamespace
  by (rule application.lifted) (simp add: NamespaceSpec_DeepCopyInto_def assign_def)

lemma store_twice [simp]: "store p d (store p c h) = store p d h"
  by (simp add: store_def)

lemma setMeta_same [simp]: "setMeta id id c c = c"
  by (cases c) simp_all

interpretation check: copier "DependencyUpdateCheck_DeepCopyInto id id" readCheck belowCheck
  by (rule namespace.lifted)
    (simp add: DependencyUpdateCheck_DeepCopyInto_def Spec_DeepCopyInto_def assign_def load_store_other located_def)

interpretation checks: copier "DependencyUpdateCheckList_DeepCopyInto id id" readList belowList
  by (rule check.lifted)
    (simp add: DependencyUpdateCheckList_DeepCopyInto_def assign_def load_store_other located_def)

section \<open>Independence\<close>

text \<open>
  An independent copy: what existed is unchanged; as long as the new memory keeps its contents the
  copy shows what the original showed; as long as the old memory keeps its contents the original does.
\<close>

definition independent_copy :: "(heap \<Rightarrow> ptr \<Rightarrow> 'a) \<Rightarrow> heap \<Rightarrow> ptr \<Rightarrow> heap \<Rightarrow> ptr \<Rightarrow> bool" where
  "independent_copy read h p h' q \<longleftrightarrow> agree {..<nextArray h} h' h \<and>
     (\<forall>g. agree {nextArray h..<nextArray h'} g h' \<longrightarrow> read g q = read h p) \<and>
     (\<forall>g. agree {..<nextArray h} g h \<longrightarrow> read g p = read h p)"

context copier
begin

lemma deepCopy_independent:
  assumes "below (nextArray h) h p"
  shows "\<exists>q h'. deepCopy zero copyInto (Some p) h = (Some q, h') \<and> independent_copy read h p h' q"
proof -
  let ?a = "nextArray h"
  let ?h1 = "h\<lparr>mem := (mem h)(?a := [zero]), nextArray := Suc ?a\<rparr>"
  let ?h' = "copyInto p (?a, 0) ?h1"
  have agr: "agree {..<?a} ?h1 h" by (simp add: agree_def)
  have bel: "below ?a ?h1 p" and rd: "read ?h1 p = read h p" using local [OF assms agr] by auto
  have loc: "located (nextArray ?h1) ?h1 (?a, 0)" by (simp add: located_def)
  have ch: "changesOnly (?a, 0) ?h1 ?h'" by (rule changes [OF bel _ loc]) simp
  have old: "agree {..<?a} ?h' h"
    using changesOnly_agree [OF ch, of ?a] agr by (auto elim: agree_trans)
  have new: "read g (?a, 0) = read h p" if "agree {?a..<nextArray ?h'} g ?h'" for g
  proof -
    have "Suc ?a \<le> nextArray ?h'" using ch by (simp add: changesOnly_def)
    then have l: "load g (?a, 0) = load ?h' (?a, 0)" by (intro load_agree [OF that]) simp
    have m: "agree {nextArray ?h1..<nextArray ?h'} g ?h'" by (rule agree_mono [OF that]) auto
    have "read g (?a, 0) = read ?h1 p" by (rule copies [OF bel _ loc l m]) simp
    then show ?thesis using rd by simp
  qed
  have "independent_copy read h p ?h' (?a, 0)"
    unfolding independent_copy_def using old new local [OF assms] by blast
  then show ?thesis by (simp add: deepCopy_def alloc_def)
qed

end


text \<open>A check for one component of one application, in memory.\<close>

definition sampleMemory :: heap where
  "sampleMemory =
     \<lparr>mem = (\<lambda>a. [[ComponentCell ''comp''], [ApplicationCell ''app'' (Some \<lparr>sArray = 0, sOffset = 0, sLen = 1\<rparr>)],
         [NamespaceCell ''ns'' (Some \<lparr>sArray = 1, sOffset = 0, sLen = 1\<rparr>)],
         [CheckCell \<lparr>tmKind = ''DependencyUpdateCheck'', tmAPIVersion = ''v1''\<rparr> (newMeta ''d'' ''mintmaker'')
            (Some \<lparr>sArray = 2, sOffset = 0, sLen = 1\<rparr>)]] ! a),
      nextArray = 4\<rparr>"


end
