(* ===== verification/Tools.thy ===== *)
theory Tools
  imports World
begin

text \<open>
  The data of the command line tools (\<open>tools/osv-generator\<close>, \<open>tools/osv-downloader\<close>) and what
  surrounds them. \<open>csaf_vex_vulnerability.go\<close> describes the part of a CSAF VEX document the
  generator reads, \<open>osv_vulnerability.go\<close> the records it writes. The record \<open>toolenv\<close> holds, as
  parameters, the network, the file system, the clock and the reader of archives; like \<open>env\<close>, they act on a world of arbitrary type and may answer anything.
\<close>

section \<open>VEX documents\<close>

text \<open>An element of \<open>vulnerabilities\<close> is a pointer; \<open>null\<close> in the document makes it \<open>nil\<close>.\<close>

record VexReference =
  refCategory :: string
  refUrl :: string

record VexNote =
  noteCategory :: string
  noteText :: string

record Vulnerability =
  Cve :: string
  DiscoveryDate :: string
  CweId :: string
  vulnReferences :: "VexReference list"
  Notes :: "VexNote list"

record VexArchitecture =
  archCategory :: string
  archPurls :: "string list"

record VEX =
  AggregateSeverity :: string
  Vulnerabilities :: "Vulnerability option list"
  ProductTree :: "VexArchitecture list list"

section \<open>OSV records\<close>

record Package =
  Ecosystem :: string
  pkgName :: string
  pkgPurl :: string

record OsvEvent =
  Introduced :: string
  Fixed :: string

record OsvRange =
  rangeType :: string
  rangeEvents :: "OsvEvent list"

record Affected =
  affPackage :: Package
  affRanges :: "OsvRange list"

record OsvReference =
  osvRefType :: string
  osvRefUrl :: string

record OSV =
  IdInternal :: string
  SchemaVersion :: string
  osvId :: string
  Severity :: string
  CWEids :: "string list"
  Modified :: string
  Published :: string
  Summary :: string
  Details :: string
  osvAffected :: "Affected list"
  osvReferences :: "OsvReference list"

section \<open>The environment\<close>

text \<open>
  A response of the server with its body, or the error of reading the body; an asset of a GitHub
  release, whose fields are pointers; an entry of a zip archive.
\<close>

record httpResponse =
  StatusCode :: int
  Body :: "error + string"

record releaseAsset =
  assetName :: "string option"
  BrowserDownloadURL :: "string option"

record zipEntry =
  entryName :: string
  entryIsDir :: bool
  entryMode :: nat

text \<open>
  \<open>wallClock\<close> is the reading of the local clock in seconds, \<open>fromWall\<close> turns such a reading into
  seconds since the epoch, as the rules of the local time zone say.
\<close>

record 'w toolenv =
  httpGet :: "string \<Rightarrow> ('w, error + httpResponse) io"
  sleepFor :: "int \<Rightarrow> ('w, unit) io"
  mkdirAll :: "string \<Rightarrow> ('w, error option) io"
  openForWriting :: "string \<Rightarrow> nat \<Rightarrow> ('w, error option) io"
  copyInto :: "string \<Rightarrow> ('w, error option) io"
  writeText :: "string \<Rightarrow> string \<Rightarrow> ('w, error option) io"
  closeFile :: "string \<Rightarrow> ('w, error option) io"
  openArchive :: "string \<Rightarrow> ('w, error + zipEntry list) io"
  openEntry :: "zipEntry \<Rightarrow> ('w, error option) io"
  closeEntry :: "zipEntry \<Rightarrow> ('w, error option) io"
  newGithubClient :: "('w, error option) io"
  latestRelease :: "string \<Rightarrow> string \<Rightarrow> ('w, error + releaseAsset list) io"
  newId :: "('w, string) io"
  wallClock :: "('w, int) io"
  fromWall :: "int \<Rightarrow> int"
  arrivalOrder :: "('w, OSV list list \<Rightarrow> OSV list list) io"

section \<open>Calls\<close>

definition HttpGet :: "'w toolenv \<Rightarrow> string \<Rightarrow> ('w, error + httpResponse) prog" where
  "HttpGet T url = perform (httpGet T url) (\<lambda>_. CHttp url)"

definition Sleep :: "'w toolenv \<Rightarrow> int \<Rightarrow> ('w, unit) prog" where
  "Sleep T d = perform (sleepFor T d) (\<lambda>_. CSleep d)"

definition MkdirAll :: "'w toolenv \<Rightarrow> string \<Rightarrow> ('w, error + unit) prog" where
  "MkdirAll T path = asResult (perform (mkdirAll T path) (\<lambda>_. CFile (FMkdirAll path)))"

definition OpenFile :: "'w toolenv \<Rightarrow> string \<Rightarrow> nat \<Rightarrow> ('w, error + unit) prog" where
  "OpenFile T path mode = asResult (perform (openForWriting T path mode) (\<lambda>_. CFile (FOpen path)))"

definition CopyInto :: "'w toolenv \<Rightarrow> string \<Rightarrow> ('w, error option) prog" where
  "CopyInto T path = perform (copyInto T path) (\<lambda>_. CFile (FCopy path))"

definition WriteText :: "'w toolenv \<Rightarrow> string \<Rightarrow> string \<Rightarrow> ('w, error + unit) prog" where
  "WriteText T path s = asResult (perform (writeText T path s) (\<lambda>_. CFile (FWrite path s)))"

definition CloseFile :: "'w toolenv \<Rightarrow> string \<Rightarrow> ('w, error option) prog" where
  "CloseFile T path = perform (closeFile T path) (\<lambda>_. CFile (FClose path))"

lemmas tool_defs = HttpGet_def Sleep_def MkdirAll_def OpenFile_def CopyInto_def WriteText_def CloseFile_def

lemma within_tools [quiet_rules]:
  "P (CHttp url) \<Longrightarrow> within P (HttpGet T url)"
  "P (CSleep d) \<Longrightarrow> within P (Sleep T d)"
  "P (CFile (FMkdirAll path)) \<Longrightarrow> within P (MkdirAll T path)"
  "P (CFile (FOpen path)) \<Longrightarrow> within P (OpenFile T path mode)"
  "P (CFile (FCopy path)) \<Longrightarrow> within P (CopyInto T path)"
  "P (CFile (FWrite path s)) \<Longrightarrow> within P (WriteText T path s)"
  "P (CFile (FClose path)) \<Longrightarrow> within P (CloseFile T path)"
  unfolding tool_defs by (auto intro!: quiet_rules)

text \<open>Run one call for its effect only.\<close>

definition afterwards :: "('w, 'a) prog \<Rightarrow> 'b \<Rightarrow> ('w, 'b) prog" where
  "afterwards m x = m \<bind> (\<lambda>_. return x)"

lemma within_afterwards [quiet_rules]: "within P m \<Longrightarrow> within P (afterwards m x)"
  unfolding afterwards_def by (intro quiet_rules)

text \<open>\<open>fmt.Errorf("...: %v", err)\<close>: only the text of the error is kept. A panic is not an error.\<close>

definition formatErr :: "string \<Rightarrow> ('w, error + 'a) prog \<Rightarrow> ('w, error + 'a) prog" where
  "formatErr msg m = m \<bind> (\<lambda>r. return (case r of
     Inl e \<Rightarrow> Inl (if isPanic e then e else Err (msg @ '': '' @ Error e))
   | Inr x \<Rightarrow> Inr x))"

lemma within_formatErr [quiet_rules]: "within P m \<Longrightarrow> within P (formatErr msg m)"
  unfolding formatErr_def by (intro quiet_rules)

section \<open>A sample environment\<close>

text \<open>Every call succeeds, every download is empty, every archive is empty.\<close>

definition sampleTools :: "unit toolenv" where
  "sampleTools =
     \<lparr>httpGet = (\<lambda>url w. (Inr \<lparr>StatusCode = 200, Body = Inr []\<rparr>, w)), sleepFor = (\<lambda>d w. ((), w)),
      mkdirAll = (\<lambda>p w. (None, w)), openForWriting = (\<lambda>p m w. (None, w)), copyInto = (\<lambda>p w. (None, w)),
      writeText = (\<lambda>p s w. (None, w)), closeFile = (\<lambda>p w. (None, w)), openArchive = (\<lambda>p w. (Inr [], w)),
      openEntry = (\<lambda>e w. (None, w)), closeEntry = (\<lambda>e w. (None, w)), newGithubClient = (\<lambda>w. (None, w)),
      latestRelease = (\<lambda>owner r w. (Inr [], w)), newId = (\<lambda>w. (''id'', w)), wallClock = (\<lambda>w. (0, w)),
      fromWall = (\<lambda>t. t),
      arrivalOrder = (\<lambda>w. (\<lambda>b. b, w))\<rparr>"

end
