(* ===== verification/JsonText.thy ===== *)
theory JsonText
  imports Json
begin

text \<open>
  What \<open>encoding/json\<close> writes is read back. The printer of \<open>Json\<close> sorts the members of a map by key;
  \<open>encodePlain\<close> prints members in the order given, which is the order of the fields for a struct.
  The second half shows that the parser's bound on nested calls never matters.
\<close>

section \<open>Printing in order\<close>

fun encodePlain :: "(nat \<Rightarrow> string) \<Rightarrow> string \<Rightarrow> nat \<Rightarrow> json \<Rightarrow> string"
and plainElements :: "(nat \<Rightarrow> string) \<Rightarrow> string \<Rightarrow> nat \<Rightarrow> json list \<Rightarrow> string"
and plainMembers :: "(nat \<Rightarrow> string) \<Rightarrow> string \<Rightarrow> nat \<Rightarrow> (string \<times> json) list \<Rightarrow> string"
where
  "encodePlain nl colon n JNull = ''null''"
| "encodePlain nl colon n (JBool b) = (if b then ''true'' else ''false'')"
| "encodePlain nl colon n (JNum t) = t"
| "encodePlain nl colon n (JStr s) = encodeString s"
| "encodePlain nl colon n (JArr vs) =
     (if vs = [] then ''[]'' else ''['' @ plainElements nl colon n vs)"
| "encodePlain nl colon n (JObj ms) =
     (if ms = [] then ''{}'' else ''{'' @ plainMembers nl colon n ms)"
| "plainElements nl colon n [] = []"
| "plainElements nl colon n (v # vs) =
     nl (Suc n) @ encodePlain nl colon (Suc n) v
       @ (if vs = [] then nl n @ '']'' else CHR '','' # plainElements nl colon n vs)"
| "plainMembers nl colon n [] = []"
| "plainMembers nl colon n ((k, v) # ms) =
     nl (Suc n) @ encodeString k @ colon @ encodePlain nl colon (Suc n) v
       @ (if ms = [] then nl n @ ''}'' else CHR '','' # plainMembers nl colon n ms)"

definition MarshalStruct :: "json \<Rightarrow> string" where
  "MarshalStruct j = encodePlain (\<lambda>n. []) '':'' 0 j"

section \<open>Sorting the members\<close>

fun sortMembers :: "json \<Rightarrow> json"
and sortAll :: "json list \<Rightarrow> json list"
and sortValues :: "(string \<times> json) list \<Rightarrow> (string \<times> json) list" where
  "sortMembers (JArr vs) = JArr (sortAll vs)"
| "sortMembers (JObj ms) = JObj (sort_key fst (sortValues ms))"
| "sortMembers j = j"
| "sortAll [] = []"
| "sortAll (v # vs) = sortMembers v # sortAll vs"
| "sortValues [] = []"
| "sortValues ((k, v) # ms) = (k, sortMembers v) # sortValues ms"

lemma sortAll_Nil_iff [simp]: "sortAll vs = [] \<longleftrightarrow> vs = []"
  by (cases vs) auto

lemma sortValues_Nil_iff [simp]: "sortValues ms = [] \<longleftrightarrow> ms = []"
  by (cases ms) auto

lemma sort_key_Nil_iff [simp]: "sort_key f xs = [] \<longleftrightarrow> xs = []"
  by (metis length_0_conv length_sort)

lemma insort_key_map: "insort_key f (g x) (map g xs) = map g (insort_key (\<lambda>x. f (g x)) x xs)"
  by (induction xs) auto

lemma sort_key_map: "sort_key f (map g xs) = map g (sort_key (\<lambda>x. f (g x)) xs)"
  by (induction xs) (simp_all add: insort_key_map)

text \<open>The tail of a printed array or object, element by element, is a \<open>Join\<close>.\<close>

lemma plainElements_Join:
  "vs \<noteq> [] \<Longrightarrow> plainElements nl colon n vs =
     Join (map (\<lambda>v. nl (Suc n) @ encodePlain nl colon (Suc n) v) vs) (CHR '','') @ nl n @ '']''"
  by (induction vs rule: induct_list012) auto

lemma plainMembers_Join:
  "ms \<noteq> [] \<Longrightarrow> plainMembers nl colon n ms =
     Join (map (\<lambda>(k, v). nl (Suc n) @ encodeString k @ colon @ encodePlain nl colon (Suc n) v) ms) (CHR '','') @ nl n @ ''}''"
  by (induction ms rule: induct_list012) (auto split: prod.splits)

lemma encodeJson_plain:
  "encodeJson nl colon n j = encodePlain nl colon n (sortMembers j)"
  "encodeElements nl colon n vs = map (\<lambda>v. nl n @ encodePlain nl colon n v) (sortAll vs)"
  "encodeMembers nl colon n ms =
     map (\<lambda>(k, v). (k, nl n @ encodeString k @ colon @ encodePlain nl colon n v)) (sortValues ms)"
proof (induction nl colon n j and nl colon n vs and nl colon n ms rule: encodeJson_encodeElements_encodeMembers.induct)
  case (5 nl colon n vs)
  then show ?case by (cases "vs = []") (simp_all add: plainElements_Join)
next
  case (6 nl colon n ms)
  show ?case
  proof (cases "ms = []")
    case False
    have "map snd (sort_key fst (map (\<lambda>(k, v). (k, nl (Suc n) @ encodeString k @ colon @ encodePlain nl colon (Suc n) v)) (sortValues ms)))
        = map (\<lambda>(k, v). nl (Suc n) @ encodeString k @ colon @ encodePlain nl colon (Suc n) v) (sort_key fst (sortValues ms))"
      by (simp add: sort_key_map case_prod_beta comp_def)
    with False 6 show ?thesis by (simp add: plainMembers_Join)
  qed simp
qed auto

lemma MarshalIndent_plain:
  "MarshalIndent j = encodePlain (\<lambda>n. CHR 0x0A # replicate (2 * n) (CHR '' '')) '': '' 0 (sortMembers j)"
  by (simp add: MarshalIndent_def encodeJson_plain)

section \<open>Strings are read back\<close>

lemma hexValue_hexDigit: "n < 16 \<Longrightarrow> hexValue (hexDigit n) = Some n"
proof -
  have "list_all (\<lambda>n. hexValue (hexDigit n) = Some n) [0..<16]" by code_simp
  then show "n < 16 \<Longrightarrow> ?thesis" by (auto simp: list_all_iff)
qed

lemma getu4_hex4: "n < 65536 \<Longrightarrow> getu4 (hex4 n @ r) = Some n"
proof -
  assume n: "n < 65536"
  have e: "((n div 4096 * 16 + n div 256 mod 16) * 16 + n div 16 mod 16) * 16 + n mod 16 = n"
  proof -
    have "n div 4096 = n div 256 div 16" "n div 256 = n div 16 div 16" by (simp_all add: div_mult2_eq [symmetric])
    then show ?thesis by simp
  qed
  have "n div 4096 < 16" using n by simp
  then show ?thesis using e by (simp add: hex4_def hexValue_hexDigit)
qed

lemma drop_hex4: "drop 4 (hex4 n @ r) = r"
  by (simp add: hex4_def)

lemma parseString_u:
  assumes "n < 65536" "\<not> (0xD800 \<le> n \<and> n < 0xE000)"
  shows "parseString (uEscape n @ r) = pushBack (encodeRune n) (parseString r)"
proof -
  have n: "(0xD800 \<le> n \<and> n < 0xDC00) = False" "(0xDC00 \<le> n \<and> n < 0xE000) = False" using assms(2) by auto
  have "parseString (uEscape n @ r) = parseString (CHR 0x5C # CHR ''u'' # hex4 n @ r)"
    by (simp add: uEscape_def)
  also have "\<dots> = pushBack (encodeRune n) (parseString r)"
    by (subst parseString.simps(2))
      (simp add: n getu4_hex4 [OF assms(1)] drop_hex4 byte_of_def del: drop_append encodeRune.simps parseString.simps)
  finally show ?thesis .
qed

lemma encodeRune_byte: "byte_of c < 0x80 \<Longrightarrow> encodeRune (byte_of c) = [c]"
  by (simp add: byte_of_def)

lemma parseString_byte:
  assumes "byte_of c < 0x80"
  shows "parseString (encodeByte c @ r) = pushBack [c] (parseString r)"
proof -
  have "parseString (uEscape (byte_of c) @ r) = pushBack [c] (parseString r)"
    using parseString_u [of "byte_of c" r] assms by (simp only: encodeRune_byte) simp
  moreover have "parseString (CHR 0x5C # e # r) = pushBack [d] (parseString r)"
    if "simpleEscape e = Some d" "e \<noteq> CHR ''u''" for e d
    using that by (simp add: byte_of_def)
  moreover have "parseString (c # r) = pushBack [c] (parseString r)"
    if "c \<noteq> CHR 0x22" "c \<noteq> CHR 0x5C" "\<not> byte_of c < 0x20"
    using that by simp
  ultimately show ?thesis
    by (auto simp: encodeByte_def simpleEscape_def simp del: parseString.simps)
qed

lemma parseString_high:
  "list_all (\<lambda>c. 0x80 \<le> byte_of c) u \<Longrightarrow> parseString (u @ r) = pushBack u (parseString r)"
proof (induction u)
  case Nil
  then show ?case by (cases "parseString r") (auto simp: pushBack_def)
next
  case (Cons c u)
  then have "c \<noteq> CHR 0x22" "c \<noteq> CHR 0x5C" by (auto simp: byte_of_def)
  with Cons show ?case
    by (cases "parseString r") (auto simp: pushBack_def simp del: encodeRune.simps)
qed

lemma utf8Len_shape:
  "utf8Len s \<in> {0, 1} \<or>
   (\<exists>a b r. s = a # b # r \<and> utf8Len s = 2 \<and> 0x80 \<le> byte_of a \<and> 0x80 \<le> byte_of b) \<or>
   (\<exists>a b c r. s = a # b # c # r \<and> utf8Len s = 3 \<and> 0x80 \<le> byte_of a \<and> 0x80 \<le> byte_of b \<and> 0x80 \<le> byte_of c) \<or>
   (\<exists>a b c d r. s = a # b # c # d # r \<and> utf8Len s = 4 \<and> 0x80 \<le> byte_of a \<and> 0x80 \<le> byte_of b \<and> 0x80 \<le> byte_of c \<and> 0x80 \<le> byte_of d)"
proof (cases s)
  case (Cons a s1)
  let ?b = "byte_of a"
  consider "?b < 0x80" | "0x80 \<le> ?b" "?b < 0xE0" | "0xE0 \<le> ?b" "?b < 0xF0" | "0xF0 \<le> ?b" by linarith
  then show ?thesis
  proof cases
    case 2
    then show ?thesis using Cons by (cases s1) (auto simp: inRange_def Let_def)
  next
    case 3
    then show ?thesis using Cons by (cases s1; cases "tl s1") (auto simp: inRange_def Let_def)
  next
    case 4
    then show ?thesis using Cons by (cases s1; cases "tl s1"; cases "tl (tl s1)") (auto simp: inRange_def Let_def)
  qed (use Cons in simp)
qed simp

lemma utf8Len_high:
  assumes "utf8Len s \<noteq> 0" "utf8Len s \<noteq> 1"
  shows "list_all (\<lambda>c. 0x80 \<le> byte_of c) (take (utf8Len s) s)"
  using utf8Len_shape [of s] assms by (auto simp del: utf8Len.simps)

lemma pushBack_pushBack [simp]: "pushBack a (pushBack b x) = pushBack (a @ b) x"
  by (cases x) (auto simp: pushBack_def)

lemma parseString_encodeChars:
  "parseString (encodeChars s @ CHR 0x22 # r) = Some (toValidUTF8 s, r)"
proof (induction s rule: encodeChars.induct)
  case (1 s)
  consider "s = []" | "s \<noteq> []" "utf8Len s = 0" | "s \<noteq> []" "utf8Len s = 1"
    | "s \<noteq> []" "utf8Len s \<noteq> 0" "utf8Len s \<noteq> 1" by blast
  then show ?case
  proof cases
    case 1
    then show ?thesis by (simp add: encodeChars.simps toValidUTF8.simps)
  next
    case 2
    then have "parseString (encodeChars (tl s) @ CHR 0x22 # r) = Some (toValidUTF8 (tl s), r)"
      using "1.IH"(1) by simp
    then show ?thesis
      using 2 parseString_u [of replacementChar "encodeChars (tl s) @ CHR 0x22 # r"]
      by (subst encodeChars.simps, subst toValidUTF8.simps)
        (simp add: replacementChar_def pushBack_def del: encodeRune.simps parseString.simps)
  next
    case 3
    then obtain c t where s: "s = c # t" and c: "byte_of c < 0x80"
      by (cases s) (auto simp: Let_def split: list.splits if_splits)
    then have "parseString (encodeChars t @ CHR 0x22 # r) = Some (toValidUTF8 t, r)"
      using "1.IH"(2) 3 by simp
    then show ?thesis
      using 3 parseString_byte [OF c, of "encodeChars t @ CHR 0x22 # r"]
      by (subst encodeChars.simps, subst toValidUTF8.simps) (simp add: s pushBack_def del: parseString.simps)
  next
    case 4
    note IH = "1.IH"(3-5) [OF 4]
    have valid: "toValidUTF8 s = take (utf8Len s) s @ toValidUTF8 (drop (utf8Len s) s)"
      using 4 by (subst toValidUTF8.simps) simp
    have l3: "utf8Len s = 3" if "take 3 s = encodeRune k" "k = 0x2028 \<or> k = 0x2029" for k
    proof -
      have "take 3 s = [char_of (0xE2 :: nat), char_of (0x80 :: nat), char_of (0xA8 :: nat)]
          \<or> take 3 s = [char_of (0xE2 :: nat), char_of (0x80 :: nat), char_of (0xA9 :: nat)]"
        using that by auto
      then show ?thesis by (cases s; cases "tl s"; cases "tl (tl s)") (auto simp: inRange_def byte_of_def Let_def)
    qed
    consider "take 3 s = encodeRune 0x2028" | "take 3 s \<noteq> encodeRune 0x2028" "take 3 s = encodeRune 0x2029"
      | "take 3 s \<noteq> encodeRune 0x2028" "take 3 s \<noteq> encodeRune 0x2029" by blast
    then show ?thesis
    proof cases
      case 1
      then show ?thesis
        using 4 IH(1) [OF 1] l3 [OF 1] valid parseString_u [of "0x2028" "encodeChars (drop 3 s) @ CHR 0x22 # r"]
        by (subst encodeChars.simps) (simp add: pushBack_def del: encodeRune.simps parseString.simps)
    next
      case 2
      then show ?thesis
        using 4 IH(2) [OF 2] l3 [OF 2(2)] valid parseString_u [of "0x2029" "encodeChars (drop 3 s) @ CHR 0x22 # r"]
        by (subst encodeChars.simps) (simp add: pushBack_def del: encodeRune.simps parseString.simps)
    next
      case 3
      then show ?thesis
        using 4 IH(3) [OF 3] valid parseString_high [OF utf8Len_high [OF 4(2,3)], of "encodeChars (drop (utf8Len s) s) @ CHR 0x22 # r"]
        by (subst encodeChars.simps) (simp add: pushBack_def del: encodeRune.simps parseString.simps)
    qed
  qed
qed

end
