(* ===== verification/JsonRead.thy ===== *)
theory JsonRead
  imports JsonText
begin

text \<open>
  The reader of \<open>encoding/json\<close> gives back what the printers wrote: numbers, then whole values, for the
  printer of structs and for \<open>MarshalIndent\<close>. The last section shows that the bound on the
  nested calls of the reader never decides its answer.
\<close>

section \<open>Numbers are read back\<close>

definition okAfter :: "string \<Rightarrow> bool" where
  "okAfter r \<longleftrightarrow> (case r of [] \<Rightarrow> True | c # _ \<Rightarrow> \<not> isDigit c \<and> c \<noteq> CHR ''.'' \<and> c \<noteq> CHR ''e'' \<and> c \<noteq> CHR ''E'')"

definition wfNum :: "string \<Rightarrow> bool" where
  "wfNum t \<longleftrightarrow> parseNumber t = Some (t, [])"

lemma okAfter_digits: "okAfter r \<Longrightarrow> takeWhile isDigit r = [] \<and> dropWhile isDigit r = r"
  by (cases r) (auto simp: okAfter_def)

lemma parseDigits_append:
  assumes "parseDigits t = Some (d, u)" "u = [] \<Longrightarrow> okAfter r"
  shows "parseDigits (t @ r) = Some (d, u @ r)"
proof (cases "list_all isDigit t")
  case True
  then have t: "takeWhile isDigit t = t" "dropWhile isDigit t = []" by (auto simp: list_all_iff takeWhile_eq_all_conv)
  then have "okAfter r" "t \<noteq> []" "d = t" "u = []" using assms by (simp_all only: parseDigits_def split: if_splits) auto
  moreover have "takeWhile isDigit (t @ r) = t @ takeWhile isDigit r" "dropWhile isDigit (t @ r) = dropWhile isDigit r"
    using True by (auto simp: list_all_iff takeWhile_append2 dropWhile_append2)
  ultimately show ?thesis using okAfter_digits [of r] by (simp add: parseDigits_def)
next
  case False
  then obtain c where "c \<in> set t" "\<not> isDigit c" by (auto simp: list_all_iff)
  then have "takeWhile isDigit (t @ r) = takeWhile isDigit t" "dropWhile isDigit (t @ r) = dropWhile isDigit t @ r"
    by (auto simp: takeWhile_append1 dropWhile_append1)
  then show ?thesis using assms(1) by (auto simp: parseDigits_def split: if_splits)
qed

lemma parseInteger_append:
  "parseInteger t = Some (d, u) \<Longrightarrow> (u = [] \<Longrightarrow> okAfter r) \<Longrightarrow> parseInteger (t @ r) = Some (d, u @ r)"
  using parseDigits_append [of t d u r] by (cases t) (auto simp: parseInteger_def split: if_splits)

lemma pushBack_Some: "pushBack p x = Some (d, u) \<longleftrightarrow> (\<exists>d'. x = Some (d', u) \<and> d = p @ d')"
  by (cases x) (auto simp: pushBack_def)

lemma parseFraction_append:
  "parseFraction t = Some (d, u) \<Longrightarrow> (u = [] \<Longrightarrow> okAfter r) \<Longrightarrow> parseFraction (t @ r) = Some (d, u @ r)"
proof (cases t)
  case Nil
  then show "parseFraction t = Some (d, u) \<Longrightarrow> (u = [] \<Longrightarrow> okAfter r) \<Longrightarrow> ?thesis"
    by (cases r) (auto simp: parseFraction_def okAfter_def)
qed (auto simp: parseFraction_def pushBack_Some parseDigits_append split: if_splits)

lemma parseExponent_append:
  "parseExponent t = Some (d, u) \<Longrightarrow> (u = [] \<Longrightarrow> okAfter r) \<Longrightarrow> parseExponent (t @ r) = Some (d, u @ r)"
proof (cases t)
  case Nil
  then show "parseExponent t = Some (d, u) \<Longrightarrow> (u = [] \<Longrightarrow> okAfter r) \<Longrightarrow> ?thesis"
    by (cases r) (auto simp: parseExponent_def okAfter_def)
next
  case (Cons c cs)
  then show "parseExponent t = Some (d, u) \<Longrightarrow> (u = [] \<Longrightarrow> okAfter r) \<Longrightarrow> ?thesis"
    using parseDigits_append [of cs _ u r]
    by (cases cs) (auto simp: parseExponent_def pushBack_Some parseDigits_append split: if_splits)
qed

lemma parseNumber_append:
  assumes "wfNum t" "okAfter r"
  shows "parseNumber (t @ r) = Some (t, r)"
proof -
  define sign t0 where "sign = (case t of c # cs \<Rightarrow> if c = CHR ''-'' then [c] else [] | [] \<Rightarrow> [])"
    and "t0 = (case t of c # cs \<Rightarrow> if c = CHR ''-'' then cs else t | [] \<Rightarrow> [])"
  have split: "(case t of c # cs \<Rightarrow> if c = CHR ''-'' then ([c], cs) else ([], t) | [] \<Rightarrow> ([], [])) = (sign, t0)"
    by (simp add: sign_def t0_def split: list.split)
  obtain i t1 f t2 e where s: "parseInteger t0 = Some (i, t1)" "parseFraction t1 = Some (f, t2)"
    "parseExponent t2 = Some (e, [])" "t = sign @ i @ f @ e"
    using assms(1) by (auto simp: wfNum_def parseNumber_def split Let_def split: option.splits)
  have "t \<noteq> []" using s(1) by (auto simp: t0_def parseInteger_def parseDigits_def split: list.splits if_splits)
  then have split': "(case t @ r of c # cs \<Rightarrow> if c = CHR ''-'' then ([c], cs) else ([], t @ r) | [] \<Rightarrow> ([], [])) = (sign, t0 @ r)"
    by (cases t) (auto simp: sign_def t0_def)
  have "parseInteger (t0 @ r) = Some (i, t1 @ r)" "parseFraction (t1 @ r) = Some (f, t2 @ r)"
    "parseExponent (t2 @ r) = Some (e, r)"
    using parseInteger_append [OF s(1)] parseFraction_append [OF s(2)] parseExponent_append [OF s(3)] assms(2) by simp_all
  then show ?thesis by (simp add: parseNumber_def split' Let_def s(4) [symmetric])
qed

lemma wfNum_head: "wfNum t \<Longrightarrow> \<exists>c cs. t = c # cs \<and> (c = CHR ''-'' \<or> isDigit c)"
  by (cases t) (auto simp: wfNum_def parseNumber_def parseInteger_def parseDigits_def Let_def isDigit_def byte_of_def
      split: list.splits if_splits option.splits)

section \<open>Values are read back\<close>

fun wf_json :: "json \<Rightarrow> bool"
and wf_all :: "json list \<Rightarrow> bool"
and wf_values :: "(string \<times> json) list \<Rightarrow> bool" where
  "wf_json (JNum t) = wfNum t"
| "wf_json (JStr s) = (toValidUTF8 s = s)"
| "wf_json (JArr vs) = wf_all vs"
| "wf_json (JObj ms) = wf_values ms"
| "wf_json j = True"
| "wf_all [] = True"
| "wf_all (v # vs) = (wf_json v \<and> wf_all vs)"
| "wf_values [] = True"
| "wf_values ((k, v) # ms) = (toValidUTF8 k = k \<and> wf_json v \<and> wf_values ms)"

lemma skipSpace_append: "list_all isSpace sp \<Longrightarrow> skipSpace (sp @ s) = skipSpace s"
  by (induction sp) (auto simp: skipSpace_def)

lemma skipSpace_head: "\<not> isSpace c \<Longrightarrow> skipSpace (c # s) = c # s"
  by (simp add: skipSpace_def)

definition valueHead :: "char \<Rightarrow> bool" where
  "valueHead c \<longleftrightarrow> c \<in> {CHR 0x22, CHR ''['', CHR 0x7B, CHR ''t'', CHR ''f'', CHR ''n'', CHR ''-''} \<or> isDigit c"

lemma valueHead_simps: "valueHead c \<Longrightarrow> \<not> isSpace c \<and> c \<noteq> CHR '']'' \<and> c \<noteq> CHR 0x7D"
  by (auto simp: valueHead_def isSpace_def isDigit_def byte_of_def)

lemma encodePlain_head: "wf_json j \<Longrightarrow> \<exists>c cs. encodePlain nl colon n j = c # cs \<and> valueHead c"
  by (cases j) (auto simp: valueHead_def encodeString_def dest!: wfNum_head)

lemma okAfter_space: "list_all isSpace sp \<Longrightarrow> c \<in> {CHR '','', CHR '']'', CHR 0x7D} \<Longrightarrow> okAfter (sp @ c # r)"
  by (cases sp) (auto simp: okAfter_def isSpace_def isDigit_def byte_of_def)

lemma parseValue_head: "skipSpace s = skipSpace s' \<Longrightarrow> parseValue (Suc n) s = parseValue (Suc n) s'"
  by simp

lemma parseValue_string: "parseValue (Suc n) (encodeString s @ r) = Some (JStr (toValidUTF8 (toValidUTF8 s)), r)"
  by (simp add: encodeString_def parseString_encodeChars skipSpace_head isSpace_def)

lemma parseValue_literal:
  "parseValue (Suc n) (''null'' @ r) = Some (JNull, r)"
  "parseValue (Suc n) (''true'' @ r) = Some (JBool True, r)"
  "parseValue (Suc n) (''false'' @ r) = Some (JBool False, r)"
  by (simp_all add: skipSpace_head isSpace_def HasPrefix_def)

lemma parseValue_number:
  assumes "wfNum t" "okAfter r"
  shows "parseValue (Suc n) (t @ r) = Some (JNum t, r)"
proof -
  obtain c cs where t: "t = c # cs" "c = CHR ''-'' \<or> isDigit c" using wfNum_head [OF assms(1)] by blast
  then have "\<not> isSpace c" "c \<noteq> CHR 0x22" "c \<noteq> CHR 0x5B" "c \<noteq> CHR 0x7B" "c \<noteq> CHR ''t''" "c \<noteq> CHR ''f''" "c \<noteq> CHR ''n''"
    by (auto simp: isSpace_def isDigit_def byte_of_def)
  then show ?thesis
    using parseNumber_append [OF assms] by (simp add: t skipSpace_head HasPrefix_def)
qed

lemma parseValue_array:
  assumes "skipSpace s = d # ds" "d \<noteq> CHR '']''" "parseElements n s = Some (vs, r)"
  shows "parseValue (Suc n) (CHR ''['' # s) = Some (JArr vs, r)"
  using assms by (simp add: skipSpace_head isSpace_def)

lemma parseValue_object:
  assumes "skipSpace s = d # ds" "d \<noteq> CHR 0x7D" "parseMembers n s = Some (ms, r)"
  shows "parseValue (Suc n) (CHR 0x7B # s) = Some (JObj ms, r)"
  using assms by (simp add: skipSpace_head isSpace_def)

lemma parseElements_step:
  assumes "parseValue n s = Some (v, sp @ c # r)" "list_all isSpace sp"
  shows "c = CHR '']'' \<Longrightarrow> parseElements (Suc n) s = Some ([v], r)"
    "c = CHR '','' \<Longrightarrow> parseElements n r = Some (vs, q) \<Longrightarrow> parseElements (Suc n) s = Some (v # vs, q)"
  using assms by (simp_all add: skipSpace_append skipSpace_head isSpace_def)

lemma parseMembers_step:
  assumes "skipSpace s = encodeString k @ CHR '':'' # t" "toValidUTF8 k = k"
    "parseValue n t = Some (v, sp @ c # r)" "list_all isSpace sp"
  shows "c = CHR 0x7D \<Longrightarrow> parseMembers (Suc n) s = Some ([(k, v)], r)"
    "c = CHR '','' \<Longrightarrow> parseMembers n r = Some (ms, q) \<Longrightarrow> parseMembers (Suc n) s = Some ((k, v) # ms, q)"
  using assms by (simp_all add: encodeString_def parseString_encodeChars skipSpace_append skipSpace_head isSpace_def)

lemma skip_value: "list_all isSpace sp \<Longrightarrow> wf_json j \<Longrightarrow> \<exists>c cs. skipSpace (sp @ encodePlain nl colon n j @ r) = c # cs \<and> c \<noteq> CHR '']''"
  using encodePlain_head [of j nl colon n] valueHead_simps by (auto simp: skipSpace_append skipSpace_head)

lemma skip_string: "list_all isSpace sp \<Longrightarrow> skipSpace (sp @ encodeString k @ r) = encodeString k @ r"
  by (simp add: skipSpace_append encodeString_def, subst skipSpace_head) (simp_all add: isSpace_def)

lemma parseValue_spaces: "list_all isSpace sp \<Longrightarrow> parseValue n (sp @ s) = parseValue n s"
  by (cases n) (simp_all add: skipSpace_append)

lemma parse_encodePlain:
  assumes "\<And>n. list_all isSpace (nl n)" "colon = CHR '':'' # sp" "list_all isSpace sp"
  shows "wf_json j \<Longrightarrow> okAfter r \<Longrightarrow> 2 * length (encodePlain nl colon n j) \<le> m \<Longrightarrow>
      parseValue m (encodePlain nl colon n j @ r) = Some (j, r)"
    and "wf_all vs \<Longrightarrow> vs \<noteq> [] \<Longrightarrow> 2 * length (plainElements nl colon n vs) \<le> m \<Longrightarrow>
      parseElements m (plainElements nl colon n vs @ r) = Some (vs, r)"
    and "wf_values ms \<Longrightarrow> ms \<noteq> [] \<Longrightarrow> 2 * length (plainMembers nl colon n ms) \<le> m \<Longrightarrow>
      parseMembers m (plainMembers nl colon n ms @ r) = Some (ms, r)"
  using assms
proof (induction nl colon n j and nl colon n vs and nl colon n ms arbitrary: m r and m r and m r
    rule: encodePlain_plainElements_plainMembers.induct)
  case (1 nl colon n)
  then obtain k where "m = Suc k" by (cases m) auto
  then show ?case using parseValue_literal(1) [of k r] by simp
next
  case (2 nl colon n b)
  then obtain k where "m = Suc k" by (cases m) (auto split: if_splits)
  then show ?case using parseValue_literal(2,3) [of k r] by (cases b) simp_all
next
  case (3 nl colon n t)
  then have "t \<noteq> []" using wfNum_head by fastforce
  then obtain k where "m = Suc k" using 3 by (cases m) auto
  then show ?case using 3 parseValue_number [of t r k] by simp
next
  case (4 nl colon n s)
  then obtain k where "m = Suc k" by (cases m) (auto simp: encodeString_def)
  then show ?case using 4 parseValue_string [of k s r] by simp
next
  case (5 nl colon n vs)
  then obtain k where m: "m = Suc k" by (cases m) (auto split: if_splits)
  show ?case
  proof (cases vs)
    case Nil
    then show ?thesis by (simp add: m skipSpace_head isSpace_def)
  next
    case (Cons v vs')
    let ?e = "plainElements nl colon n vs"
    have "parseElements k (?e @ r) = Some (vs, r)"
      using 5 Cons m by simp
    moreover obtain c cs where "skipSpace (?e @ r) = c # cs" "c \<noteq> CHR '']''"
      using skip_value [of "nl (Suc n)" v] 5(2,5) Cons by simp blast
    ultimately show ?thesis
      using parseValue_array [of "?e @ r"] Cons m by simp
  qed
next
  case (6 nl colon n ms)
  then obtain k where m: "m = Suc k" by (cases m) (auto split: if_splits)
  show ?case
  proof (cases ms)
    case Nil
    then show ?thesis by (simp add: m skipSpace_head isSpace_def)
  next
    case (Cons kv ms')
    let ?e = "plainMembers nl colon n ms"
    have "parseMembers k (?e @ r) = Some (ms, r)"
      using 6 Cons m by simp
    moreover obtain cs where "skipSpace (?e @ r) = CHR 0x22 # cs"
      using 6(5) Cons by (cases kv) (simp add: skipSpace_append encodeString_def skipSpace_head isSpace_def)
    ultimately show ?thesis
      using parseValue_object [of "?e @ r" "CHR 0x22"] Cons m by simp
  qed
next
  case (8 nl colon n v vs)
  let ?v = "encodePlain nl colon (Suc n) v" and ?sp = "if vs = [] then nl n else []"
    and ?c = "if vs = [] then CHR '']'' else CHR '',''" and ?q = "if vs = [] then r else plainElements nl colon n vs @ r"
  obtain k where m: "m = Suc k" using 8 by (cases m) (auto split: if_splits)
  have sp: "list_all isSpace ?sp" and nls: "list_all isSpace (nl (Suc n))" using 8 by simp_all
  have shape: "plainElements nl colon n (v # vs) @ r = nl (Suc n) @ ?v @ ?sp @ ?c # ?q" by simp
  have "parseValue k (?v @ ?sp @ ?c # ?q) = Some (v, ?sp @ ?c # ?q)"
    using 8 m by (intro "8.IH"(1) okAfter_space sp) (auto split: if_splits)
  then have v: "parseValue k (nl (Suc n) @ ?v @ ?sp @ ?c # ?q) = Some (v, ?sp @ ?c # ?q)"
    by (simp only: parseValue_spaces [OF nls])
  show ?case
  proof (cases "vs = []")
    case True
    then show ?thesis
      unfolding shape m using parseElements_step(1) [OF v sp] by simp
  next
    case False
    have "parseElements k ?q = Some (vs, r)"
      using False 8 m by (simp add: "8.IH"(2))
    then show ?thesis
      unfolding shape m using False parseElements_step(2) [OF v sp] by simp
  qed
next
  case (10 nl colon n k v ms)
  let ?v = "encodePlain nl colon (Suc n) v" and ?sp = "if ms = [] then nl n else []"
    and ?c = "if ms = [] then CHR 0x7D else CHR '',''" and ?q = "if ms = [] then r else plainMembers nl colon n ms @ r"
  obtain i where m: "m = Suc i" using 10 by (cases m) (auto split: if_splits)
  have sp': "list_all isSpace ?sp" and sps: "list_all isSpace sp" using 10 by simp_all
  have shape: "plainMembers nl colon n ((k, v) # ms) @ r = nl (Suc n) @ encodeString k @ CHR '':'' # sp @ ?v @ ?sp @ ?c # ?q"
    using 10 by simp
  have head: "skipSpace (nl (Suc n) @ encodeString k @ CHR '':'' # sp @ ?v @ ?sp @ ?c # ?q) = encodeString k @ CHR '':'' # sp @ ?v @ ?sp @ ?c # ?q"
    using skip_string [of "nl (Suc n)" k] 10 by blast
  have "parseValue i (?v @ ?sp @ ?c # ?q) = Some (v, ?sp @ ?c # ?q)"
    using 10 m by (intro "10.IH"(1) okAfter_space sp') (auto split: if_splits)
  then have v: "parseValue i (sp @ ?v @ ?sp @ ?c # ?q) = Some (v, ?sp @ ?c # ?q)"
    by (simp only: parseValue_spaces [OF sps])
  have k: "toValidUTF8 k = k" using 10 by simp
  show ?case
  proof (cases "ms = []")
    case True
    then show ?thesis
      unfolding shape m using parseMembers_step(1) [OF head k v sp'] by simp
  next
    case False
    have "parseMembers i ?q = Some (ms, r)"
      using False 10 m by (simp add: "10.IH"(2))
    then show ?thesis
      unfolding shape m using False parseMembers_step(2) [OF head k v sp'] by simp
  qed
qed simp_all

section \<open>Round trips\<close>

lemma plain_pos: "wf_json j \<Longrightarrow> 0 < length (encodePlain nl colon n j)"
  using encodePlain_head [of j nl colon n] by auto

theorem MarshalStruct_read:
  assumes "wf_json j" "list_all isSpace r"
  shows "parseJson (MarshalStruct j @ r) = Some j"
proof -
  have r: "okAfter r"
    using assms(2) by (cases r) (auto simp: okAfter_def isSpace_def isDigit_def byte_of_def)
  have s: "skipSpace r = []"
    using assms(2) skipSpace_append [of r "[]"] by (simp add: skipSpace_def)
  have "parseValue (2 * length (MarshalStruct j @ r) + 2) (MarshalStruct j @ r) = Some (j, r)"
    unfolding MarshalStruct_def by (rule parse_encodePlain(1) [where sp = "[]"]) (use assms r in simp_all)
  with s show ?thesis by (simp add: parseJson_def del: parseValue.simps)
qed

lemma wf_values_iff: "wf_values ms \<longleftrightarrow> (\<forall>(k, v) \<in> set ms. toValidUTF8 k = k \<and> wf_json v)"
  by (induction ms) auto

lemma wf_sortMembers:
  "wf_json j \<Longrightarrow> wf_json (sortMembers j)"
  "wf_all vs \<Longrightarrow> wf_all (sortAll vs)"
  "wf_values ms \<Longrightarrow> wf_values (sortValues ms)"
  by (induction j and vs and ms rule: sortMembers_sortAll_sortValues.induct) (auto simp: wf_values_iff)

theorem MarshalIndent_read:
  assumes "wf_json j"
  shows "parseJson (MarshalIndent j) = Some (sortMembers j)"
proof -
  have "parseValue (2 * length (MarshalIndent j) + 2) (MarshalIndent j @ []) = Some (sortMembers j, [])"
    unfolding MarshalIndent_plain
    by (rule parse_encodePlain(1) [where sp = "'' ''"])
      (use assms in \<open>simp_all add: isSpace_def list_all_iff okAfter_def wf_sortMembers\<close>)
  then show ?thesis by (simp add: parseJson_def skipSpace_def del: parseValue.simps)
qed

section \<open>The bound of the reader\<close>

lemma skipSpace_length: "length (skipSpace s) \<le> length s"
  by (simp add: skipSpace_def length_dropWhile_le)

lemma skipSpace_Cons: "skipSpace s = c # cs \<Longrightarrow> length cs < length s"
  using skipSpace_length [of s] by simp

lemma parseString_length: "parseString s = Some (t, r) \<Longrightarrow> length r < length s"
proof (induction s arbitrary: t r rule: parseString.induct)
  case (2 c cs)
  then show ?case
    by (simp add: pushBack_Some split: if_splits list.splits option.splits) (fastforce dest: less_imp_le)+
qed simp

lemma parseDigits_length: "parseDigits s = Some (t, r) \<Longrightarrow> length r < length s"
  by (cases s) (auto simp: parseDigits_def le_imp_less_Suc length_dropWhile_le split: if_splits)

lemma parseNumber_length:
  assumes "parseNumber s = Some (t, r)"
  shows "length r < length s"
proof -
  have i: "length q < length p" if "parseInteger p = Some (t, q)" for p t q
    using that parseDigits_length [of p t q] by (auto simp: parseInteger_def split: list.splits if_splits)
  have f: "length q \<le> length p" if "parseFraction p = Some (t, q)" for p t q
    using that parseDigits_length by (fastforce simp: parseFraction_def pushBack_Some split: list.splits if_splits)
  have e: "length q \<le> length p" if "parseExponent p = Some (t, q)" for p t q
    using that parseDigits_length by (fastforce simp: parseExponent_def pushBack_Some split: list.splits if_splits)
  show ?thesis
    using assms by (fastforce simp: parseNumber_def dest: i f e split: list.splits if_splits option.splits)
qed

text \<open>\<open>parsed f s v r\<close>: \<open>f\<close> reads \<open>v\<close> from \<open>s\<close> and leaves \<open>r\<close> once its bound is twice what it reads.\<close>

definition parsed :: "(nat \<Rightarrow> string \<Rightarrow> ('a \<times> string) option) \<Rightarrow> string \<Rightarrow> 'a \<Rightarrow> string \<Rightarrow> bool" where
  "parsed f s v r \<longleftrightarrow> length r < length s \<and> (\<forall>m. 2 * (length s - length r) \<le> m \<longrightarrow> f m s = Some (v, r))"

lemma parsedI:
  assumes "length r < length s" "\<And>k. 2 * (length s - length r) \<le> Suc k \<Longrightarrow> f (Suc k) s = Some (v, r)"
  shows "parsed f s v r"
  unfolding parsed_def
proof (intro conjI allI impI)
  fix m
  assume "2 * (length s - length r) \<le> m"
  with assms show "f m s = Some (v, r)" by (cases m) auto
qed (rule assms(1))

lemma parse_enough:
  "parseValue n s = Some (v, r) \<Longrightarrow> parsed parseValue s v r"
  "parseElements n s = Some (vs, r) \<Longrightarrow> parsed parseElements s vs r"
  "parseMembers n s = Some (ms, r) \<Longrightarrow> parsed parseMembers s ms r"
proof (induction n s and n s and n s arbitrary: v r and vs r and ms r rule: parseValue_parseElements_parseMembers.induct)
  case (2 n s)
  obtain c cs where s: "skipSpace s = c # cs" using 2(3) by (auto split: list.splits)
  have cs: "length cs < length s" using skipSpace_Cons [OF s] .
  consider (arr) d ds vs where "c = CHR ''[''" "skipSpace cs = d # ds" "d \<noteq> CHR '']''" "parseElements n cs = Some (vs, r)" "v = JArr vs"
    | (obj) d ds ms where "c = CHR 0x7B" "skipSpace cs = d # ds" "d \<noteq> CHR 0x7D" "parseMembers n cs = Some (ms, r)" "v = JObj ms"
    | (leaf) "length r \<le> length cs" "\<And>k. parseValue (Suc k) s = Some (v, r)"
    using 2(3) s skipSpace_Cons [of cs] parseString_length [of cs] parseNumber_length [of "c # cs"]
    by (fastforce split: if_splits list.splits)
  then show ?case
  proof cases
    case arr
    then have "parsed parseElements cs vs r" using 2(1) s by blast
    with arr s cs show ?thesis by (intro parsedI) (simp_all add: parsed_def)
  next
    case obj
    then have "parsed parseMembers cs ms r" using 2(2) s by blast
    with obj s cs show ?thesis by (intro parsedI) (simp_all add: parsed_def)
  next
    case leaf
    with cs show ?thesis by (intro parsedI) simp_all
  qed
next
  case (4 n s)
  then obtain v q d ds where v: "parseValue n s = Some (v, q)" "skipSpace q = d # ds"
    by (auto split: option.splits list.splits)
  have q: "length q < length s" "\<And>m. 2 * (length s - length q) \<le> m \<Longrightarrow> parseValue m s = Some (v, q)"
    using 4(1) [OF v(1)] by (auto simp: parsed_def)
  have ds: "length ds < length q" using v(2) by (rule skipSpace_Cons)
  show ?case
  proof (cases "d = CHR '',''")
    case True
    then obtain us where us: "parseElements n ds = Some (us, r)" "vs = v # us"
      using 4(3) v by auto
    then have "length r < length ds" "\<And>m. 2 * (length ds - length r) \<le> m \<Longrightarrow> parseElements m ds = Some (us, r)"
      using 4(2) [OF v(1) _ v(2) True us(1)] by (auto simp: parsed_def)
    then show ?thesis
      using q ds v(2) True us(2) by (intro parsedI) simp_all
  next
    case False
    then have "d = CHR '']''" "vs = [v]" "r = ds" using 4(3) v by (auto split: if_splits)
    then show ?thesis using q ds v(2) by (intro parsedI) simp_all
  qed
next
  case (6 n s)
  obtain cs k p ds v q e es where parts: "skipSpace s = CHR 0x22 # cs" "parseString cs = Some (k, p)" "skipSpace p = CHR '':'' # ds"
    "parseValue n ds = Some (v, q)" "skipSpace q = e # es"
    using 6(3) by (auto split: option.splits list.splits if_splits)
  have q: "length q < length ds" "\<And>m. 2 * (length ds - length q) \<le> m \<Longrightarrow> parseValue m ds = Some (v, q)"
    using 6(1) [OF parts(1) _ parts(2) _ parts(3) _ parts(4)] by (auto simp: parsed_def)
  have l: "length es < length q" "length ds < length p" "length p < length cs" "length cs < length s"
    using parts skipSpace_Cons parseString_length by blast+
  show ?case
  proof (cases "e = CHR '',''")
    case True
    then obtain us where us: "parseMembers n es = Some (us, r)" "ms = (toValidUTF8 k, v) # us"
      using 6(3) parts by auto
    then have r: "length r < length es" "\<And>m. 2 * (length es - length r) \<le> m \<Longrightarrow> parseMembers m es = Some (us, r)"
      using 6(2) [OF parts(1) _ parts(2) _ parts(3) _ parts(4) _ parts(5) True us(1)] by (auto simp: parsed_def)
    show ?thesis
    proof (rule parsedI)
      fix m
      assume "2 * (length s - length r) \<le> Suc m"
      then have "parseValue m ds = Some (v, q)" "parseMembers m es = Some (us, r)"
        using q(1) r(1) l by (auto intro!: q(2) r(2))
      then show "parseMembers (Suc m) s = Some (ms, r)"
        using parts True us(2) by simp
    qed (use q r l in simp)
  next
    case False
    then have "e = CHR 0x7D" "ms = [(toValidUTF8 k, v)]" "r = es" using 6(3) parts by (auto split: if_splits)
    then show ?thesis using q l parts by (intro parsedI) simp_all
  qed
qed simp_all

text \<open>No text is refused for want of calls: what any bound reads, \<open>parseJson\<close> reads.\<close>

lemma parseValue_bound: "parseValue n s = Some (v, r) \<Longrightarrow> parseValue (2 * length s + 2) s = Some (v, r)"
  using parse_enough(1) [of n s v r] by (simp add: parsed_def del: parseValue.simps)

end
