(* ===== verification/VexDecode.thy ===== *)
theory VexDecode
  imports Tools JsonRead
begin

text \<open>
  \<open>json.Unmarshal\<close> into Go structs, as \<open>GetVEXFromUrl\<close> uses it, and the shape of the type \<open>VEX\<close> of
  \<open>csaf_vex_vulnerability.go\<close>. A value that does not fit its place is an error of the whole call.
\<close>

section \<open>Decoding into structs\<close>

text \<open>
  Go types and values. A slice also has the elements that its array holds behind its end: they are
  left over when a member occurs twice in an object, and a later decoding finds them again.
\<close>

datatype shape = SString | SStruct "(string \<times> shape) list" | SSlice shape | SPointer shape

datatype gval = GString string | GStruct "gval list" | GSlice "gval list" "gval list" | GPointer "gval option"

fun zero_value :: "shape \<Rightarrow> gval" where
  "zero_value SString = GString []"
| "zero_value (SStruct fs) = GStruct (map (\<lambda>f. zero_value (snd f)) fs)"
| "zero_value (SSlice sh) = GSlice [] []"
| "zero_value (SPointer sh) = GPointer None"

text \<open>
  The field for a key: the one with this name, else the first whose name is the same up to case. Of
  the characters that are not ASCII only the long s and the Kelvin sign fold to ASCII letters.
\<close>

fun foldKey :: "string \<Rightarrow> string" where
  "foldKey (c # d # e # s) =
     (if c = CHR 0xC5 \<and> d = CHR 0xBF then CHR ''S'' # foldKey (e # s)
      else if c = CHR 0xE2 \<and> d = CHR 0x84 \<and> e = CHR 0xAA then CHR ''K'' # foldKey s
      else (if c \<in> set ''abcdefghijklmnopqrstuvwxyz'' then char_of (byte_of c - 32) else c) # foldKey (d # e # s))"
| "foldKey [c, d] =
     (if c = CHR 0xC5 \<and> d = CHR 0xBF then ''S''
      else (if c \<in> set ''abcdefghijklmnopqrstuvwxyz'' then char_of (byte_of c - 32) else c) # foldKey [d])"
| "foldKey [c] = [if c \<in> set ''abcdefghijklmnopqrstuvwxyz'' then char_of (byte_of c - 32) else c]"
| "foldKey [] = []"

fun fieldAt :: "(string \<Rightarrow> bool) \<Rightarrow> (string \<times> shape) list \<Rightarrow> nat option" where
  "fieldAt P [] = None"
| "fieldAt P (f # fs) = (if P (fst f) then Some 0 else map_option Suc (fieldAt P fs))"

definition fieldOf :: "(string \<times> shape) list \<Rightarrow> string \<Rightarrow> nat option" where
  "fieldOf fs key =
     (case fieldAt (\<lambda>n. n = key) fs of Some i \<Rightarrow> Some i | None \<Rightarrow> fieldAt (\<lambda>n. foldKey n = foldKey key) fs)"

fun fieldsOf :: "gval \<Rightarrow> gval list" where
  "fieldsOf (GStruct gs) = gs"
| "fieldsOf g = []"

fun arrayOf :: "gval \<Rightarrow> gval list" where
  "arrayOf (GSlice gs hidden) = gs @ hidden"
| "arrayOf g = []"

function decodeInto :: "shape \<Rightarrow> gval \<Rightarrow> json \<Rightarrow> gval option"
and decodeItems :: "shape \<Rightarrow> gval list \<Rightarrow> json list \<Rightarrow> gval list option"
and decodeFields :: "(string \<times> shape) list \<Rightarrow> gval list \<Rightarrow> (string \<times> json) list \<Rightarrow> gval list option" where
  "decodeInto SString old j = (case j of JNull \<Rightarrow> Some old | JStr s \<Rightarrow> Some (GString s) | _ \<Rightarrow> None)"
| "decodeInto (SPointer sh) old j =
     (if j = JNull then Some (GPointer None)
      else map_option (\<lambda>g. GPointer (Some g))
             (decodeInto sh (case old of GPointer (Some g) \<Rightarrow> g | _ \<Rightarrow> zero_value sh) j))"
| "decodeInto (SSlice sh) old j =
     (case j of
        JNull \<Rightarrow> Some (GSlice [] [])
      | JArr vs \<Rightarrow>
          if vs = [] then Some (GSlice [] [])
          else map_option (\<lambda>gs. GSlice gs (drop (length vs) (arrayOf old))) (decodeItems sh (arrayOf old) vs)
      | _ \<Rightarrow> None)"
| "decodeInto (SStruct fs) old j =
     (case j of
        JNull \<Rightarrow> Some old
      | JObj ms \<Rightarrow> map_option GStruct (decodeFields fs (fieldsOf old) ms)
      | _ \<Rightarrow> None)"
| "decodeItems sh olds [] = Some []"
| "decodeItems sh olds (v # vs) =
     (case (decodeInto sh (case olds of [] \<Rightarrow> zero_value sh | g # _ \<Rightarrow> g) v, decodeItems sh (tl olds) vs) of
        (Some g, Some gs) \<Rightarrow> Some (g # gs)
      | _ \<Rightarrow> None)"
| "decodeFields fs gs [] = Some gs"
| "decodeFields fs gs ((k, v) # ms) =
     (case fieldOf fs k of
        None \<Rightarrow> decodeFields fs gs ms
      | Some i \<Rightarrow>
          (case decodeInto (snd (fs ! i)) (gs ! i) v of
             None \<Rightarrow> None
           | Some g \<Rightarrow> decodeFields fs (gs[i := g]) ms))"
  by pat_completeness auto
termination
  by (relation "measures [\<lambda>x. case x of Inl (sh, g, j) \<Rightarrow> size j | Inr (Inl (sh, gs, vs)) \<Rightarrow> size_list size vs
                            | Inr (Inr (fs, gs, ms)) \<Rightarrow> size_list (size_prod (\<lambda>_. 0) size) ms,
                          \<lambda>x. case x of Inl (sh, g, j) \<Rightarrow> size sh | _ \<Rightarrow> 0]") auto

section \<open>The type \<open>VEX\<close>\<close>

definition referenceShape :: shape where
  "referenceShape = SStruct [(''category'', SString), (''url'', SString)]"

definition noteShape :: shape where
  "noteShape = SStruct [(''category'', SString), (''text'', SString)]"

definition vulnerabilityShape :: shape where
  "vulnerabilityShape =
     SStruct [(''cve'', SString), (''discovery_date'', SString), (''cwe'', SStruct [(''id'', SString)]),
              (''references'', SSlice referenceShape), (''notes'', SSlice noteShape)]"

definition packageShape :: shape where
  "packageShape = SStruct [(''product'', SStruct [(''product_identification_helper'', SStruct [(''purl'', SString)])])]"

definition architectureShape :: shape where
  "architectureShape = SStruct [(''category'', SString), (''branches'', SSlice packageShape)]"

definition vendorShape :: shape where
  "vendorShape = SStruct [(''branches'', SSlice architectureShape)]"

definition vexShape :: shape where
  "vexShape =
     SStruct [(''document'', SStruct [(''aggregate_severity'', SStruct [(''text'', SString)])]),
              (''vulnerabilities'', SSlice (SPointer vulnerabilityShape)),
              (''product_tree'', SStruct [(''branches'', SSlice vendorShape)])]"

lemmas shape_defs = referenceShape_def noteShape_def vulnerabilityShape_def packageShape_def architectureShape_def
  vendorShape_def vexShape_def

text \<open>The decoded value as the records of the model; a slice shows its visible elements only.\<close>

fun textOf :: "gval \<Rightarrow> string" where
  "textOf (GString s) = s"
| "textOf g = []"

fun itemsOf :: "gval \<Rightarrow> gval list" where
  "itemsOf (GSlice gs hidden) = gs"
| "itemsOf g = []"

fun target :: "gval \<Rightarrow> gval option" where
  "target (GPointer p) = p"
| "target g = None"

definition sub :: "gval \<Rightarrow> nat \<Rightarrow> gval" where
  "sub g i = fieldsOf g ! i"

definition vexReferenceOf :: "gval \<Rightarrow> VexReference" where
  "vexReferenceOf g = \<lparr>refCategory = textOf (sub g 0), refUrl = textOf (sub g 1)\<rparr>"

definition vexNoteOf :: "gval \<Rightarrow> VexNote" where
  "vexNoteOf g = \<lparr>noteCategory = textOf (sub g 0), noteText = textOf (sub g 1)\<rparr>"

definition vulnerabilityOf :: "gval \<Rightarrow> Vulnerability" where
  "vulnerabilityOf g =
     \<lparr>Cve = textOf (sub g 0), DiscoveryDate = textOf (sub g 1), CweId = textOf (sub (sub g 2) 0),
      vulnReferences = map vexReferenceOf (itemsOf (sub g 3)), Notes = map vexNoteOf (itemsOf (sub g 4))\<rparr>"

definition vexPurlOf :: "gval \<Rightarrow> string" where
  "vexPurlOf g = textOf (sub (sub (sub g 0) 0) 0)"

definition vexArchitectureOf :: "gval \<Rightarrow> VexArchitecture" where
  "vexArchitectureOf g = \<lparr>archCategory = textOf (sub g 0), archPurls = map vexPurlOf (itemsOf (sub g 1))\<rparr>"

definition vexOf :: "gval \<Rightarrow> VEX" where
  "vexOf g =
     \<lparr>AggregateSeverity = textOf (sub (sub (sub g 0) 0) 0),
      Vulnerabilities = map (\<lambda>p. map_option vulnerabilityOf (target p)) (itemsOf (sub g 1)),
      ProductTree = map (\<lambda>b. map vexArchitectureOf (itemsOf (sub b 0))) (itemsOf (sub (sub g 2) 0))\<rparr>"

definition UnmarshalVEX :: "string \<Rightarrow> error + VEX" where
  "UnmarshalVEX body =
     (case parseJson body of
        None \<Rightarrow> Inl (Err ''invalid JSON'')
      | Some j \<Rightarrow>
          (case decodeInto vexShape (zero_value vexShape) j of
             None \<Rightarrow> Inl (Err ''cannot unmarshal into Go value'')
           | Some g \<Rightarrow> Inr (vexOf g)))"

section \<open>Documents are read back\<close>

text \<open>A document with exactly the members that the program reads.\<close>

definition arrayJson :: "('a \<Rightarrow> json) \<Rightarrow> 'a list \<Rightarrow> json" where
  "arrayJson f xs = JArr (map f xs)"

definition vexReferenceJson :: "VexReference \<Rightarrow> json" where
  "vexReferenceJson r = JObj [(''category'', JStr (refCategory r)), (''url'', JStr (refUrl r))]"

definition vexNoteJson :: "VexNote \<Rightarrow> json" where
  "vexNoteJson n = JObj [(''category'', JStr (noteCategory n)), (''text'', JStr (noteText n))]"

definition vulnerabilityJson :: "Vulnerability option \<Rightarrow> json" where
  "vulnerabilityJson p =
     (case p of
        None \<Rightarrow> JNull
      | Some v \<Rightarrow>
          JObj [(''cve'', JStr (Cve v)), (''discovery_date'', JStr (DiscoveryDate v)),
                (''cwe'', JObj [(''id'', JStr (CweId v))]), (''references'', arrayJson vexReferenceJson (vulnReferences v)),
                (''notes'', arrayJson vexNoteJson (Notes v))])"

definition vexPurlJson :: "string \<Rightarrow> json" where
  "vexPurlJson purl = JObj [(''product'', JObj [(''product_identification_helper'', JObj [(''purl'', JStr purl)])])]"

definition vexArchitectureJson :: "VexArchitecture \<Rightarrow> json" where
  "vexArchitectureJson a =
     JObj [(''category'', JStr (archCategory a)), (''branches'', arrayJson vexPurlJson (archPurls a))]"

definition vexJson :: "VEX \<Rightarrow> json" where
  "vexJson v =
     JObj [(''document'', JObj [(''aggregate_severity'', JObj [(''text'', JStr (AggregateSeverity v))])]),
           (''vulnerabilities'', arrayJson vulnerabilityJson (Vulnerabilities v)),
           (''product_tree'', JObj [(''branches'',
              arrayJson (\<lambda>as. JObj [(''branches'', arrayJson vexArchitectureJson as)]) (ProductTree v))])]"

text \<open>\<open>decodes sh f rd x\<close>: the text of \<open>x\<close> that \<open>f\<close> gives fills a new value of the shape, from which \<open>rd\<close> reads \<open>x\<close>.\<close>

definition decodes :: "shape \<Rightarrow> ('a \<Rightarrow> json) \<Rightarrow> (gval \<Rightarrow> 'a) \<Rightarrow> 'a \<Rightarrow> bool" where
  "decodes sh f rd x \<longleftrightarrow> (\<exists>g. decodeInto sh (zero_value sh) (f x) = Some g \<and> rd g = x)"

lemma decodes_array:
  assumes "\<And>x. decodes sh f rd x"
  shows "\<exists>g. decodeInto (SSlice sh) (GSlice [] []) (arrayJson f xs) = Some g \<and> map rd (itemsOf g) = xs"
proof -
  have "\<exists>gs. decodeItems sh [] (map f xs) = Some gs \<and> map rd gs = xs"
  proof (induction xs)
    case (Cons x xs)
    then show ?case using assms [of x] by (auto simp: decodes_def)
  qed simp
  then show ?thesis by (cases "xs = []") (auto simp: arrayJson_def)
qed

lemma decodes_reference: "decodes referenceShape vexReferenceJson vexReferenceOf r"
  by (simp add: decodes_def referenceShape_def vexReferenceJson_def vexReferenceOf_def sub_def fieldOf_def)

lemma decodes_note: "decodes noteShape vexNoteJson vexNoteOf n"
  by (simp add: decodes_def noteShape_def vexNoteJson_def vexNoteOf_def sub_def fieldOf_def)

lemma decodes_vulnerability:
  "decodes (SPointer vulnerabilityShape) vulnerabilityJson (\<lambda>p. map_option vulnerabilityOf (target p)) p"
proof (cases p)
  case None
  then show ?thesis by (simp add: decodes_def vulnerabilityJson_def)
next
  case (Some v)
  obtain rs ns where
    "decodeInto (SSlice referenceShape) (GSlice [] []) (arrayJson vexReferenceJson (vulnReferences v)) = Some rs"
    "map vexReferenceOf (itemsOf rs) = vulnReferences v"
    "decodeInto (SSlice noteShape) (GSlice [] []) (arrayJson vexNoteJson (Notes v)) = Some ns"
    "map vexNoteOf (itemsOf ns) = Notes v"
    using decodes_array [OF decodes_reference] decodes_array [OF decodes_note] by metis
  then show ?thesis
    by (simp add: Some decodes_def vulnerabilityJson_def vulnerabilityShape_def vulnerabilityOf_def sub_def fieldOf_def
      del: decodeInto.simps(3))
qed

lemma decodes_purl: "decodes packageShape vexPurlJson vexPurlOf purl"
  by (simp add: decodes_def packageShape_def vexPurlJson_def vexPurlOf_def sub_def fieldOf_def)

lemma decodes_architecture: "decodes architectureShape vexArchitectureJson vexArchitectureOf a"
proof -
  obtain ps where "decodeInto (SSlice packageShape) (GSlice [] []) (arrayJson vexPurlJson (archPurls a)) = Some ps"
    "map vexPurlOf (itemsOf ps) = archPurls a"
    using decodes_array [OF decodes_purl] by metis
  then show ?thesis
    by (simp add: decodes_def architectureShape_def vexArchitectureJson_def vexArchitectureOf_def sub_def fieldOf_def
      del: decodeInto.simps(3))
qed

lemma decodes_vendor:
  "decodes vendorShape (\<lambda>as. JObj [(''branches'', arrayJson vexArchitectureJson as)])
     (\<lambda>b. map vexArchitectureOf (itemsOf (sub b 0))) as"
proof -
  obtain gs where "decodeInto (SSlice architectureShape) (GSlice [] []) (arrayJson vexArchitectureJson as) = Some gs"
    "map vexArchitectureOf (itemsOf gs) = as"
    using decodes_array [OF decodes_architecture] by metis
  then show ?thesis by (simp add: decodes_def vendorShape_def sub_def fieldOf_def del: decodeInto.simps(3))
qed

lemma decodes_vex: "decodes vexShape vexJson vexOf v"
proof -
  obtain vs bs where
    "decodeInto (SSlice (SPointer vulnerabilityShape)) (GSlice [] []) (arrayJson vulnerabilityJson (Vulnerabilities v)) = Some vs"
    "map (\<lambda>p. map_option vulnerabilityOf (target p)) (itemsOf vs) = Vulnerabilities v"
    "decodeInto (SSlice vendorShape) (GSlice [] [])
       (arrayJson (\<lambda>as. JObj [(''branches'', arrayJson vexArchitectureJson as)]) (ProductTree v)) = Some bs"
    "map (\<lambda>b. map vexArchitectureOf (itemsOf (sub b 0))) (itemsOf bs) = ProductTree v"
    using decodes_array [OF decodes_vulnerability] decodes_array [OF decodes_vendor] by metis
  then show ?thesis
    by (simp add: decodes_def vexShape_def vexJson_def vexOf_def sub_def fieldOf_def del: decodeInto.simps(3))
qed

text \<open>
  C20: a document written with the members the program reads is read as exactly its data: every
  note, reference and package URL, in order, and a \<open>null\<close> among the vulnerabilities as a missing one.
\<close>

theorem UnmarshalVEX_roundtrip:
  assumes "wf_json (vexJson v)" "list_all isSpace r"
  shows "UnmarshalVEX (MarshalStruct (vexJson v) @ r) = Inr v"
  using MarshalStruct_read [OF assms] decodes_vex [of v] by (auto simp: UnmarshalVEX_def decodes_def)

definition sampleVEX :: VEX where
  "sampleVEX =
     \<lparr>AggregateSeverity = ''Moderate'',
      Vulnerabilities = [Some \<lparr>Cve = ''CVE-2024-1'', DiscoveryDate = ''2024-02-29T00:00:00+00:00'', CweId = ''CWE-79'',
        vulnReferences = [\<lparr>refCategory = ''self'', refUrl = ''https://a''\<rparr>],
        Notes = [\<lparr>noteCategory = ''summary'', noteText = ''x < y''\<rparr>]\<rparr>, None],
      ProductTree = [[\<lparr>archCategory = ''architecture'', archPurls = [''pkg:rpm/redhat/bash@5.1'']\<rparr>]]\<rparr>"

theorem UnmarshalVEX_roundtrip_witness:
  "UnmarshalVEX (MarshalStruct (vexJson sampleVEX) @ [CHR 0x0A]) = Inr sampleVEX"
  by (rule UnmarshalVEX_roundtrip) code_simp+

end
