(* ===== verification/VexTypes.thy ===== *)
theory VexTypes
  imports VexDecode
begin

text \<open>
  The type discipline behind \<open>json.Unmarshal\<close> into the struct \<open>VEX\<close>: decoding into a value of a Go type
  yields a value of that type, so that the fields, elements and pointers that the program follows in
  the decoded document are always there.
\<close>

section \<open>Values of a type\<close>

inductive hasShape :: "shape \<Rightarrow> gval \<Rightarrow> bool" where
  string: "hasShape SString (GString s)"
| struct: "list_all2 (\<lambda>f. hasShape (snd f)) fs gs \<Longrightarrow> hasShape (SStruct fs) (GStruct gs)"
| slice: "\<forall>g \<in> set (gs @ hidden). hasShape sh g \<Longrightarrow> hasShape (SSlice sh) (GSlice gs hidden)"
| nil: "hasShape (SPointer sh) (GPointer None)"
| pointer: "hasShape sh g \<Longrightarrow> hasShape (SPointer sh) (GPointer (Some g))"

inductive_simps hasShape_string [simp]: "hasShape SString g"
inductive_simps hasShape_struct: "hasShape (SStruct fs) g"
inductive_simps hasShape_slice: "hasShape (SSlice sh) g"
inductive_simps hasShape_pointer: "hasShape (SPointer sh) g"

lemmas hasShape_forms = hasShape_struct hasShape_slice hasShape_pointer

lemma hasShape_zero [simp]: "hasShape sh (zero_value sh)"
proof (induction sh)
  case (SStruct fs)
  then show ?case by (auto intro!: hasShape.struct simp: list_all2_conv_all_nth) (metis nth_mem snds.intros surjective_pairing)
qed (auto intro: hasShape.intros)

section \<open>Decoding keeps the type\<close>

lemma fieldAt_less: "fieldAt P fs = Some i \<Longrightarrow> i < length fs"
  by (induction fs arbitrary: i) (auto split: if_splits)

lemma fieldOf_less: "fieldOf fs key = Some i \<Longrightarrow> i < length fs"
  by (auto simp: fieldOf_def dest: fieldAt_less split: option.splits)

lemma fields_update:
  "list_all2 P fs gs \<Longrightarrow> P (fs ! i) g \<Longrightarrow> list_all2 P fs (gs[i := g])"
  using list_all2_update_cong [of P fs gs "fs ! i" g i] by simp

lemma decode_keeps_shape:
  "hasShape sh old \<Longrightarrow> decodeInto sh old j = Some g \<Longrightarrow> hasShape sh g"
  "list_all (hasShape sh) olds \<Longrightarrow> decodeItems sh olds vs = Some gs \<Longrightarrow> list_all (hasShape sh) gs"
  "list_all2 (\<lambda>f. hasShape (snd f)) fs old' \<Longrightarrow> decodeFields fs old' ms = Some new \<Longrightarrow>
     list_all2 (\<lambda>f. hasShape (snd f)) fs new"
proof (induction sh old j and sh olds vs and fs old' ms arbitrary: g and gs and new
    rule: decodeInto_decodeItems_decodeFields.induct)
  case (1 old j)
  then show ?case by (auto split: json.splits)
next
  case (2 sh old j)
  then show ?case
    by (auto simp: hasShape_pointer split: if_splits gval.splits option.splits)
next
  case (3 sh old j)
  then show ?case
    by (auto simp: hasShape_slice list_all_iff split: json.splits if_splits dest!: in_set_dropD)
next
  case (4 fs old j)
  then show ?case by (auto simp: hasShape_struct split: json.splits)
next
  case (5 sh olds)
  then show ?case by simp
next
  case (6 sh olds v vs)
  then show ?case by (cases olds) (auto split: option.splits)
next
  case (7 fs gs)
  then show ?case by simp
next
  case (8 fs gs k v ms)
  show ?case
  proof (cases "fieldOf fs k")
    case None
    then show ?thesis using 8 by simp
  next
    case (Some i)
    then obtain g where g: "decodeInto (snd (fs ! i)) (gs ! i) v = Some g" "decodeFields fs (gs[i := g]) ms = Some new"
      using 8(5) by (auto split: option.splits)
    have "hasShape (snd (fs ! i)) (gs ! i)" by (rule list_all2_nthD [OF 8(4) fieldOf_less [OF Some]])
    then have "hasShape (snd (fs ! i)) g" by (rule 8(2) [OF Some _ g(1)])
    then show ?thesis using 8(3) [OF Some g(1) fields_update [OF 8(4)] g(2)] by blast
  qed
qed

section \<open>Reading strictly\<close>

text \<open>
  The same reading of the decoded document, but undefined as soon as a field, an element or a pointer
  is followed that is not there.
\<close>

definition textAt :: "gval \<Rightarrow> string option" where
  "textAt g = (case g of GString s \<Rightarrow> Some s | _ \<Rightarrow> None)"

definition fieldAtOf :: "nat \<Rightarrow> gval \<Rightarrow> gval option" where
  "fieldAtOf i g = (case g of GStruct gs \<Rightarrow> if i < length gs then Some (gs ! i) else None | _ \<Rightarrow> None)"

definition elementsAt :: "(gval \<Rightarrow> 'a option) \<Rightarrow> gval \<Rightarrow> 'a list option" where
  "elementsAt rd g = (case g of GSlice gs hidden \<Rightarrow> those (map rd gs) | _ \<Rightarrow> None)"

definition derefAt :: "(gval \<Rightarrow> 'a option) \<Rightarrow> gval \<Rightarrow> 'a option option" where
  "derefAt rd g = (case g of GPointer None \<Rightarrow> Some None | GPointer (Some p) \<Rightarrow> map_option Some (rd p) | _ \<Rightarrow> None)"

definition strictReference :: "gval \<Rightarrow> VexReference option" where
  "strictReference g =
     Option.bind (Option.bind (fieldAtOf 0 g) textAt) (\<lambda>c.
     Option.bind (Option.bind (fieldAtOf 1 g) textAt) (\<lambda>u. Some \<lparr>refCategory = c, refUrl = u\<rparr>))"

definition strictNote :: "gval \<Rightarrow> VexNote option" where
  "strictNote g =
     Option.bind (Option.bind (fieldAtOf 0 g) textAt) (\<lambda>c.
     Option.bind (Option.bind (fieldAtOf 1 g) textAt) (\<lambda>t. Some \<lparr>noteCategory = c, noteText = t\<rparr>))"

definition strictVulnerability :: "gval \<Rightarrow> Vulnerability option" where
  "strictVulnerability g =
     Option.bind (Option.bind (fieldAtOf 0 g) textAt) (\<lambda>cve.
     Option.bind (Option.bind (fieldAtOf 1 g) textAt) (\<lambda>date.
     Option.bind (Option.bind (Option.bind (fieldAtOf 2 g) (fieldAtOf 0)) textAt) (\<lambda>cwe.
     Option.bind (Option.bind (fieldAtOf 3 g) (elementsAt strictReference)) (\<lambda>rs.
     Option.bind (Option.bind (fieldAtOf 4 g) (elementsAt strictNote)) (\<lambda>ns.
     Some \<lparr>Cve = cve, DiscoveryDate = date, CweId = cwe, vulnReferences = rs, Notes = ns\<rparr>)))))"

definition strictPurl :: "gval \<Rightarrow> string option" where
  "strictPurl g = Option.bind (Option.bind (Option.bind (fieldAtOf 0 g) (fieldAtOf 0)) (fieldAtOf 0)) textAt"

definition strictArchitecture :: "gval \<Rightarrow> VexArchitecture option" where
  "strictArchitecture g =
     Option.bind (Option.bind (fieldAtOf 0 g) textAt) (\<lambda>c.
     Option.bind (Option.bind (fieldAtOf 1 g) (elementsAt strictPurl)) (\<lambda>ps. Some \<lparr>archCategory = c, archPurls = ps\<rparr>))"

definition strictVendor :: "gval \<Rightarrow> VexArchitecture list option" where
  "strictVendor g = Option.bind (fieldAtOf 0 g) (elementsAt strictArchitecture)"

definition strictVex :: "gval \<Rightarrow> VEX option" where
  "strictVex g =
     Option.bind (Option.bind (Option.bind (Option.bind (fieldAtOf 0 g) (fieldAtOf 0)) (fieldAtOf 0)) textAt) (\<lambda>severity.
     Option.bind (Option.bind (fieldAtOf 1 g) (elementsAt (derefAt strictVulnerability))) (\<lambda>vs.
     Option.bind (Option.bind (Option.bind (fieldAtOf 2 g) (fieldAtOf 0))
         (elementsAt strictVendor)) (\<lambda>bs.
     Some \<lparr>AggregateSeverity = severity, Vulnerabilities = vs, ProductTree = bs\<rparr>)))"

lemma those_map: "(\<And>g. g \<in> set gs \<Longrightarrow> rd g = Some (f g)) \<Longrightarrow> those (map rd gs) = Some (map f gs)"
  by (induction gs) auto

text \<open>A value of a struct, slice or pointer type, taken apart.\<close>

lemma elements_typed:
  "hasShape (SSlice sh) g \<Longrightarrow> (\<And>x. hasShape sh x \<Longrightarrow> rd x = Some (f x)) \<Longrightarrow> elementsAt rd g = Some (map f (itemsOf g))"
  by (auto simp: hasShape_slice elementsAt_def intro!: those_map)

lemma deref_typed:
  "hasShape (SPointer sh) g \<Longrightarrow> (\<And>x. hasShape sh x \<Longrightarrow> rd x = Some (f x)) \<Longrightarrow> derefAt rd g = Some (map_option f (target g))"
  by (auto simp: hasShape_pointer derefAt_def)

lemmas fields_typed = hasShape_struct list_all2_Cons1 fieldAtOf_def sub_def textAt_def

lemma reference_typed: "hasShape referenceShape g \<Longrightarrow> strictReference g = Some (vexReferenceOf g)"
  by (auto simp: referenceShape_def strictReference_def vexReferenceOf_def fields_typed)

lemma note_typed: "hasShape noteShape g \<Longrightarrow> strictNote g = Some (vexNoteOf g)"
  by (auto simp: noteShape_def strictNote_def vexNoteOf_def fields_typed)

lemma vulnerability_typed: "hasShape vulnerabilityShape g \<Longrightarrow> strictVulnerability g = Some (vulnerabilityOf g)"
  by (auto simp: vulnerabilityShape_def strictVulnerability_def vulnerabilityOf_def fields_typed
      elements_typed reference_typed note_typed)

lemma purl_typed: "hasShape packageShape g \<Longrightarrow> strictPurl g = Some (vexPurlOf g)"
  by (auto simp: packageShape_def strictPurl_def vexPurlOf_def fields_typed)

lemma architecture_typed: "hasShape architectureShape g \<Longrightarrow> strictArchitecture g = Some (vexArchitectureOf g)"
  by (auto simp: architectureShape_def strictArchitecture_def vexArchitectureOf_def fields_typed elements_typed purl_typed)

lemma vendor_typed:
  "hasShape vendorShape g \<Longrightarrow> strictVendor g = Some (map vexArchitectureOf (itemsOf (sub g 0)))"
  by (auto simp: vendorShape_def strictVendor_def fields_typed elements_typed architecture_typed)

lemma pointer_typed:
  "hasShape (SPointer vulnerabilityShape) g \<Longrightarrow> derefAt strictVulnerability g = Some (map_option vulnerabilityOf (target g))"
  by (erule deref_typed) (rule vulnerability_typed)

lemma vex_typed: "hasShape vexShape g \<Longrightarrow> strictVex g = Some (vexOf g)"
  by (auto simp: vexShape_def strictVex_def vexOf_def fields_typed elements_typed [OF _ pointer_typed]
      elements_typed [OF _ vendor_typed, unfolded sub_def])


end
