(* ===== verification/CivilTime.thy ===== *)
theory CivilTime
  imports Encoding
begin

text \<open>
  Go's \<open>time\<close> package as far as the generator uses it: \<open>time.Parse\<close> for the layouts \<open>time.RFC3339\<close>
  and \<open>2006-01-02T15:04:05+00:00\<close>, \<open>Format\<close> for the layout \<open>2006-01-02T15:04:05Z\<close>, and the instant a
  parsed time stands for, in nanoseconds since the epoch. As in Go, the hour may have one digit, and
  a fraction of a second is accepted although no layout mentions one.
\<close>

record civil =
  year :: nat
  month :: nat
  day :: nat
  hour :: nat
  minutes :: nat
  seconds :: nat
  nanos :: nat

section \<open>Calendar\<close>

definition isLeap :: "nat \<Rightarrow> bool" where
  "isLeap y \<longleftrightarrow> y mod 4 = 0 \<and> (y mod 100 \<noteq> 0 \<or> y mod 400 = 0)"

definition daysIn :: "nat \<Rightarrow> nat \<Rightarrow> nat" where
  "daysIn m y = (if m = 2 then (if isLeap y then 29 else 28) else if m \<in> {4, 6, 9, 11} then 30 else 31)"

definition daysFromCivil :: "int \<Rightarrow> int \<Rightarrow> int \<Rightarrow> int" where
  "daysFromCivil y m d =
     (let y' = (if m \<le> 2 then y - 1 else y);
          yoe = y' mod 400;
          doy = (153 * ((m + 9) mod 12) + 2) div 5 + d - 1
      in y' div 400 * 146097 + yoe * 365 + yoe div 4 - yoe div 100 + doy - 719468)"

text \<open>The date of a day number; month and day are those of \<open>monthDay\<close>.\<close>

definition yearOf :: "int \<Rightarrow> nat" where
  "yearOf unixDay =
     (let z = unixDay + 719468;
          doe = z mod 146097;
          yoe = (doe - doe div 1460 + doe div 36524 - doe div 146096) div 365
      in nat (z div 146097 * 400 + yoe + (if fst (monthDay unixDay) \<le> 2 then 1 else 0)))"

definition civilOf :: "int \<Rightarrow> civil" where
  "civilOf ns =
     (let s = ns div 10 ^ 9; d = s div 86400; t = nat (s mod 86400)
      in \<lparr>year = yearOf d, month = fst (monthDay d), day = snd (monthDay d),
          hour = t div 3600, minutes = t div 60 mod 60, seconds = t mod 60, nanos = nat (ns mod 10 ^ 9)\<rparr>)"

definition instant :: "civil \<Rightarrow> int \<Rightarrow> int" where
  "instant c zoneOffset =
     (daysFromCivil (int (year c)) (int (month c)) (int (day c)) * 86400
       + int (hour c) * 3600 + int (minutes c) * 60 + int (seconds c) - zoneOffset) * 10 ^ 9 + int (nanos c)"

definition valid_civil :: "civil \<Rightarrow> bool" where
  "valid_civil c \<longleftrightarrow> year c < 10000 \<and> 1 \<le> month c \<and> month c \<le> 12 \<and> 1 \<le> day c \<and> day c \<le> daysIn (month c) (year c)
     \<and> hour c < 24 \<and> minutes c < 60 \<and> seconds c < 60 \<and> nanos c < 10 ^ 9"

section \<open>Printing\<close>

definition fourDigits :: "nat \<Rightarrow> string" where
  "fourDigits n = [digit (n div 1000), digit (n div 100), digit (n div 10), digit n]"

definition printDateTime :: "civil \<Rightarrow> string" where
  "printDateTime c =
     fourDigits (year c) @ ''-'' @ twoDigits (month c) @ ''-'' @ twoDigits (day c) @ ''T''
       @ twoDigits (hour c) @ '':'' @ twoDigits (minutes c) @ '':'' @ twoDigits (seconds c)"

definition FormatZ :: "civil \<Rightarrow> string" where
  "FormatZ c = printDateTime c @ ''Z''"

section \<open>Parsing\<close>

definition digitValue :: "char \<Rightarrow> nat" where
  "digitValue c = byte_of c - 48"

definition getnum :: "bool \<Rightarrow> string \<Rightarrow> (nat \<times> string) option" where
  "getnum fixed s =
     (case s of
        [] \<Rightarrow> None
      | c # r \<Rightarrow>
          if \<not> isDigit c then None
          else (case r of
                  [] \<Rightarrow> if fixed then None else Some (digitValue c, [])
                | d # r' \<Rightarrow>
                    if isDigit d then Some (10 * digitValue c + digitValue d, r')
                    else if fixed then None
                    else Some (digitValue c, r)))"

definition getYear :: "string \<Rightarrow> (nat \<times> string) option" where
  "getYear s =
     (if length s < 4 \<or> \<not> list_all isDigit (take 4 s) then None
      else Some (foldl (\<lambda>n c. 10 * n + digitValue c) 0 (take 4 s), drop 4 s))"

definition literal :: "char \<Rightarrow> string \<Rightarrow> string option" where
  "literal c s = (if s \<noteq> [] \<and> hd s = c then Some (tl s) else None)"

text \<open>
  Up to nine digits behind a point or a comma count; further digits are skipped.
\<close>

definition getNanos :: "string \<Rightarrow> nat \<times> string" where
  "getNanos s =
     (case s of
        c # d # r \<Rightarrow>
          if (c = CHR ''.'' \<or> c = CHR '','') \<and> isDigit d then
            (let ds = takeWhile isDigit (d # r); nine = take 9 ds
             in (foldl (\<lambda>n c. 10 * n + digitValue c) 0 nine * 10 ^ (9 - length nine), dropWhile isDigit (d # r)))
          else (0, s)
      | _ \<Rightarrow> (0, s))"

text \<open>\<open>field\<close> reads one number and checks its range; \<open>sep\<close> reads one separator.\<close>

definition field :: "(string \<Rightarrow> (nat \<times> string) option) \<Rightarrow> nat \<Rightarrow> nat \<Rightarrow> string \<Rightarrow> (nat \<times> string) option" where
  "field get lo hi s =
     (case get s of None \<Rightarrow> None | Some (n, r) \<Rightarrow> if lo \<le> n \<and> n \<le> hi then Some (n, r) else None)"

definition sepField ::
  "char \<Rightarrow> (string \<Rightarrow> (nat \<times> string) option) \<Rightarrow> nat \<Rightarrow> nat \<Rightarrow> string \<Rightarrow> (nat \<times> string) option" where
  "sepField c get lo hi s = Option.bind (literal c s) (field get lo hi)"

definition parseDateTime :: "string \<Rightarrow> (civil \<times> string) option" where
  "parseDateTime s =
     Option.bind (getYear s) (\<lambda>(y, s1).
     Option.bind (sepField (CHR ''-'') (getnum True) 1 12 s1) (\<lambda>(mo, s2).
     Option.bind (sepField (CHR ''-'') (getnum True) 0 99 s2) (\<lambda>(d, s3).
     Option.bind (sepField (CHR ''T'') (getnum False) 0 23 s3) (\<lambda>(h, s4).
     Option.bind (sepField (CHR '':'') (getnum True) 0 59 s4) (\<lambda>(mi, s5).
     Option.bind (sepField (CHR '':'') (getnum True) 0 59 s5) (\<lambda>(sec, s6).
     let (ns, s7) = getNanos s6 in
     if 1 \<le> d \<and> d \<le> daysIn mo y
     then Some (\<lparr>year = y, month = mo, day = d, hour = h, minutes = mi, seconds = sec, nanos = ns\<rparr>, s7)
     else None))))))"

text \<open>The zone of \<open>RFC3339\<close>: \<open>Z\<close>, or a signed offset, here in seconds.\<close>

definition parseZone :: "string \<Rightarrow> int option" where
  "parseZone s =
     (if s = ''Z'' then Some 0
      else if length s \<noteq> 6 \<or> s ! 3 \<noteq> CHR '':'' then None
      else
        (case (getnum True (take 2 (drop 1 s)), getnum True (drop 4 s)) of
           (Some (hr, _), Some (mm, _)) \<Rightarrow>
             if hr > 24 \<or> mm > 60 then None
             else if hd s = CHR ''+'' then Some (int ((hr * 60 + mm) * 60))
             else if hd s = CHR ''-'' then Some (- int ((hr * 60 + mm) * 60))
             else None
         | _ \<Rightarrow> None))"

definition parseRFC3339 :: "string \<Rightarrow> int option" where
  "parseRFC3339 s =
     Option.bind (parseDateTime s) (\<lambda>(c, r). map_option (instant c) (parseZone r))"

definition parseDiscovery :: "string \<Rightarrow> civil option" where
  "parseDiscovery s =
     Option.bind (parseDateTime s) (\<lambda>(c, r). if r = ''+00:00'' then Some c else None)"

section \<open>Round trip\<close>

lemma byte_digit [simp]: "digitValue (digit n) = n mod 10"
  by (simp add: digitValue_def byte_of_def digit_def of_char_of)

lemma getnum_twoDigits [simp]: "n < 100 \<Longrightarrow> getnum fixed (twoDigits n @ r) = Some (n, r)"
  by (simp add: getnum_def twoDigits_def)

lemma getYear_fourDigits [simp]: "n < 10000 \<Longrightarrow> getYear (fourDigits n @ r) = Some (n, r)"
proof -
  assume n: "n < 10000"
  have "n div 1000 mod 10 = n div 100 div 10" "n div 100 = n div 10 div 10"
    using n by (simp_all add: div_mult2_eq [symmetric])
  then have "10 * (10 * (10 * (n div 1000 mod 10) + n div 100 mod 10) + n div 10 mod 10) + n mod 10 = n"
    by simp
  with n show ?thesis by (simp add: getYear_def fourDigits_def)
qed

lemma literal_Cons [simp]: "literal c (c # s) = Some s"
  by (simp add: literal_def)

lemma sepField_twoDigits [simp]:
  "lo \<le> n \<Longrightarrow> n \<le> hi \<Longrightarrow> n < 100 \<Longrightarrow> sepField c (getnum fixed) lo hi (c # twoDigits n @ r) = Some (n, r)"
  by (simp add: sepField_def field_def)

lemma sepField_range: "sepField c get lo hi s = Some (n, r) \<Longrightarrow> lo \<le> n \<and> n \<le> hi"
  by (auto simp: sepField_def field_def bind_eq_Some_conv split: option.splits if_splits)

lemma getNanos_none: "(case r of c # _ \<Rightarrow> c \<noteq> CHR ''.'' \<and> c \<noteq> CHR '','' | [] \<Rightarrow> True) \<Longrightarrow> getNanos r = (0, r)"
  by (auto simp: getNanos_def split: list.splits)

lemma daysIn_le: "daysIn m y \<le> 31"
  by (simp add: daysIn_def)

lemma parse_printDateTime:
  assumes "valid_civil c" "nanos c = 0" "case r of x # _ \<Rightarrow> x \<noteq> CHR ''.'' \<and> x \<noteq> CHR '','' | [] \<Rightarrow> True"
  shows "parseDateTime (printDateTime c @ r) = Some (c, r)"
proof -
  have "day c \<le> 31" using assms(1) daysIn_le [of "month c" "year c"] by (simp add: valid_civil_def)
  then show ?thesis
    using assms(1,2) getNanos_none [OF assms(3)]
    by (simp add: parseDateTime_def printDateTime_def valid_civil_def)
qed

lemma parseDateTime_valid:
  assumes "parseDateTime s = Some (c, r)"
  shows "valid_civil c"
proof -
  have nine: "foldl (\<lambda>n c. 10 * n + digitValue c) a ds < (a + 1) * 10 ^ length ds" if "list_all isDigit ds" for a ds
    using that
  proof (induction ds arbitrary: a)
    case (Cons d ds)
    then have "digitValue d < 10" by (auto simp: isDigit_def digitValue_def)
    then have "10 * a + digitValue d + 1 \<le> (a + 1) * 10" by simp
    then have "(10 * a + digitValue d + 1) * 10 ^ length ds \<le> (a + 1) * 10 * 10 ^ length ds" by (rule mult_le_mono1)
    moreover have "foldl (\<lambda>n c. 10 * n + digitValue c) (10 * a + digitValue d) ds < (10 * a + digitValue d + 1) * 10 ^ length ds"
      using Cons by simp
    ultimately have "foldl (\<lambda>n c. 10 * n + digitValue c) (10 * a + digitValue d) ds < (a + 1) * 10 * 10 ^ length ds"
      by (rule order_less_le_trans [rotated])
    then show ?case by (simp add: algebra_simps)
  qed simp
  have ns: "fst (getNanos t) < 10 ^ 9" for t
  proof -
    let ?ds = "take 9 (takeWhile isDigit (tl t))"
    have "list_all isDigit ?ds"
      by (metis in_set_takeD list_all_iff set_takeWhileD)
    from nine [OF this, of 0] have "foldl (\<lambda>n c. 10 * n + digitValue c) 0 ?ds < 10 ^ length ?ds" by simp
    then have "foldl (\<lambda>n c. 10 * n + digitValue c) 0 ?ds * 10 ^ (9 - length ?ds) < 10 ^ length ?ds * 10 ^ (9 - length ?ds)"
      by simp
    also have "\<dots> = (10 :: nat) ^ 9" by (simp flip: power_add)
    finally show ?thesis by (auto simp: getNanos_def Let_def split: list.splits)
  qed
  have y: "n < 10000" if "getYear t = Some (n, t')" for n t t'
    using that nine [of "take 4 t" 0] by (auto simp: getYear_def split: if_splits)
  obtain y s1 mo s2 d s3 h s4 mi s5 sec s6 where steps:
    "getYear s = Some (y, s1)" "sepField (CHR ''-'') (getnum True) 1 12 s1 = Some (mo, s2)"
    "sepField (CHR ''-'') (getnum True) 0 99 s2 = Some (d, s3)"
    "sepField (CHR ''T'') (getnum False) 0 23 s3 = Some (h, s4)"
    "sepField (CHR '':'') (getnum True) 0 59 s4 = Some (mi, s5)"
    "sepField (CHR '':'') (getnum True) 0 59 s5 = Some (sec, s6)"
    and c: "1 \<le> d \<and> d \<le> daysIn mo y"
      "c = \<lparr>year = y, month = mo, day = d, hour = h, minutes = mi, seconds = sec, nanos = fst (getNanos s6)\<rparr>"
    using assms unfolding parseDateTime_def
    by (clarsimp simp: bind_eq_Some_conv Let_def split_beta split: if_splits)
  show ?thesis
    using y [OF steps(1)] steps(2-6) [THEN sepField_range] c ns [of s6] by (simp add: valid_civil_def)
qed

end
