(* ===== verification/OsvConvert.thy ===== *)
theory OsvConvert
  imports Tools CivilTime
begin

text \<open>
  \<open>tools/osv-generator/cve_parser.go\<close> without its network and file access: the two regular
  expressions for package URLs, the lists of affected packages, and the conversion of a VEX document
  into OSV records. Indexing the \<open>nil\<close> result of a failed match, a missing description and an
  unreadable date panic, which is \<open>Inl (Panic _)\<close> here.
\<close>

section \<open>Package URLs\<close>

definition noMatch :: error where
  "noMatch = Panic ''runtime error: index out of range''"

text \<open>
  The match of \<open>(pkg:rpm(?:mod)?/(?:redhat/)?([^@]+))@([^?]+)\<close> at the start of a text, as Go prefers
  it: the optional parts are taken where the rest still matches. The groups are the URL without
  version, the name and the version.
\<close>

definition nameVersion :: "string \<Rightarrow> string \<Rightarrow> (string \<times> string \<times> string) option" where
  "nameVersion pre s =
     (let name = takeWhile (\<lambda>c. c \<noteq> CHR ''@'') s; rest = dropWhile (\<lambda>c. c \<noteq> CHR ''@'') s;
          version = takeWhile (\<lambda>c. c \<noteq> CHR ''?'') (tl rest)
      in if name = [] \<or> rest = [] \<or> version = [] then None else Some (pre @ name, name, version))"

definition rpmRest :: "string \<Rightarrow> string \<Rightarrow> (string \<times> string \<times> string) option" where
  "rpmRest pre s =
     (if HasPrefix s ''redhat/'' then
        (case nameVersion (pre @ ''redhat/'') (drop 7 s) of Some m \<Rightarrow> Some m | None \<Rightarrow> nameVersion pre s)
      else nameVersion pre s)"

definition rpmHere :: "string \<Rightarrow> (string \<times> string \<times> string) option" where
  "rpmHere s =
     (if HasPrefix s ''pkg:rpmmod/'' then rpmRest ''pkg:rpmmod/'' (drop 11 s)
      else if HasPrefix s ''pkg:rpm/'' then rpmRest ''pkg:rpm/'' (drop 8 s)
      else None)"

fun rpmMatch :: "string \<Rightarrow> (string \<times> string \<times> string) option" where
  "rpmMatch [] = None"
| "rpmMatch (c # s) = (case rpmHere (c # s) of Some m \<Rightarrow> Some m | None \<Rightarrow> rpmMatch s)"

text \<open>
  The group of \<open>pkg:oci/.*&repository_url=([^&]+)\<close>: the star is greedy and stays on its line, so the
  last parameter on the line with a non-empty value counts.
\<close>

definition urlHere :: "string \<Rightarrow> string option" where
  "urlHere s =
     (let v = takeWhile (\<lambda>c. c \<noteq> CHR ''&'') (drop 16 s)
      in if HasPrefix s ''&repository_url='' \<and> v \<noteq> [] then Some v else None)"

fun lastUrl :: "string \<Rightarrow> string option" where
  "lastUrl [] = None"
| "lastUrl (c # s) =
     (case (if c = CHR 0x0A then None else lastUrl s) of Some v \<Rightarrow> Some v | None \<Rightarrow> urlHere (c # s))"

fun ociMatch :: "string \<Rightarrow> string option" where
  "ociMatch [] = None"
| "ociMatch (c # s) =
     (case (if HasPrefix (c # s) ''pkg:oci/'' then lastUrl (drop 8 (c # s)) else None) of
        Some v \<Rightarrow> Some v
      | None \<Rightarrow> ociMatch s)"

text \<open>\<open>strings.ReplaceAll\<close> for a non-empty old text: occurrences from the left, not overlapping.\<close>

function ReplaceAll :: "string \<Rightarrow> string \<Rightarrow> string \<Rightarrow> string" where
  "ReplaceAll s old new =
     (if s = [] \<or> old = [] then s
      else if HasPrefix s old then new @ ReplaceAll (drop (length old) s) old new
      else hd s # ReplaceAll (tl s) old new)"
  by pat_completeness auto
termination by (relation "measure (\<lambda>(s, old, new). length s)") auto

declare ReplaceAll.simps [simp del]

section \<open>Affected packages\<close>

definition contains :: "Affected list \<Rightarrow> Affected \<Rightarrow> bool" where
  "contains affectedList affectedPackage \<longleftrightarrow>
     list_ex (\<lambda>item. pkgName (affPackage item) = pkgName (affPackage affectedPackage)) affectedList"

definition addAffected :: "Affected \<Rightarrow> Affected list \<Rightarrow> Affected list" where
  "addAffected a xs = (if contains xs a then xs else xs @ [a])"

text \<open>The package URLs below the branches of category \<open>architecture\<close>, in the order of the document.\<close>

definition architecturePurls :: "VEX \<Rightarrow> string list" where
  "architecturePurls vex =
     concat (map (\<lambda>subBranches. concat (map (\<lambda>a. if archCategory a = ''architecture'' then archPurls a else []) subBranches))
       (ProductTree vex))"

definition rpmPackage :: "string \<times> string \<times> string \<Rightarrow> Affected" where
  "rpmPackage m =
     (case m of (purl, name, version) \<Rightarrow>
        \<lparr>affPackage = \<lparr>Ecosystem = ''RPM'', pkgName = name, pkgPurl = purl\<rparr>,
         affRanges = [\<lparr>rangeType = ''ECOSYSTEM'',
                       rangeEvents = [\<lparr>Introduced = ''0.0.0'', Fixed = []\<rparr>, \<lparr>Introduced = [], Fixed = version\<rparr>]\<rparr>]\<rparr>)"

fun rpm_loop :: "string list \<Rightarrow> Affected list \<Rightarrow> error + Affected list" where
  "rpm_loop [] affectedList = Inr affectedList"
| "rpm_loop (purl # purls) affectedList =
     (if \<not> HasPrefix purl ''pkg:rpm'' then rpm_loop purls affectedList
      else (case rpmMatch purl of
              None \<Rightarrow> Inl noMatch
            | Some m \<Rightarrow> rpm_loop purls (addAffected (rpmPackage m) affectedList)))"

definition getAffectedListRPMs :: "VEX \<Rightarrow> error + Affected list" where
  "getAffectedListRPMs vex = rpm_loop (architecturePurls vex) []"

definition dockerPackage :: "string \<Rightarrow> string \<Rightarrow> Affected" where
  "dockerPackage name purl =
     \<lparr>affPackage = \<lparr>Ecosystem = ''Docker'', pkgName = name, pkgPurl = purl\<rparr>, affRanges = []\<rparr>"

definition oldRegistry :: "string \<Rightarrow> string" where
  "oldRegistry s = ReplaceAll s ''registry.redhat.io'' ''registry.access.redhat.com''"

fun container_loop :: "string list \<Rightarrow> Affected list \<Rightarrow> error + Affected list" where
  "container_loop [] affectedList = Inr affectedList"
| "container_loop (purl # purls) affectedList =
     (if \<not> HasPrefix purl ''pkg:oci'' then container_loop purls affectedList
      else (case ociMatch purl of
              None \<Rightarrow> Inl noMatch
            | Some url \<Rightarrow>
                container_loop purls
                  (addAffected (dockerPackage (oldRegistry url) (oldRegistry purl))
                    (addAffected (dockerPackage url purl) affectedList))))"

definition getAffectedListContainers :: "VEX \<Rightarrow> error + Affected list" where
  "getAffectedListContainers vex = container_loop (architecturePurls vex) []"

section \<open>The fields of a vulnerability\<close>

definition getReferencesList :: "Vulnerability \<Rightarrow> OsvReference list" where
  "getReferencesList v =
     map (\<lambda>r. \<lparr>osvRefType = (if refCategory r = ''self'' then ''REPORT'' else ''WEB''), osvRefUrl = refUrl r\<rparr>) (vulnReferences v)"

fun findNote :: "string \<Rightarrow> VexNote list \<Rightarrow> string option" where
  "findNote category [] = None"
| "findNote category (n # ns) = (if noteCategory n = category then Some (noteText n) else findNote category ns)"

definition getDetails :: "Vulnerability \<Rightarrow> error + string" where
  "getDetails v = (case findNote ''description'' (Notes v) of Some t \<Rightarrow> Inr t | None \<Rightarrow> Inl (Panic ''No CVE details found''))"

definition getSummary :: "Vulnerability \<Rightarrow> string option" where
  "getSummary v = findNote ''summary'' (Notes v)"

definition getPublishedDate :: "Vulnerability \<Rightarrow> error + string" where
  "getPublishedDate v =
     (case parseDiscovery (DiscoveryDate v) of
        None \<Rightarrow> Inl (Panic ''parsing time'')
      | Some t \<Rightarrow> Inr (FormatZ t))"

section \<open>The conversion\<close>

definition nilVulnerability :: error where
  "nilVulnerability = Panic ''runtime error: invalid memory address or nil pointer dereference''"

definition osvOf ::
  "VEX \<Rightarrow> Affected list \<Rightarrow> string \<Rightarrow> int \<Rightarrow> string \<Rightarrow> Vulnerability \<Rightarrow> error + OSV" where
  "osvOf vexData affectedList ident now summary v =
     (case getPublishedDate v of
        Inl e \<Rightarrow> Inl e
      | Inr published \<Rightarrow>
          (case getDetails v of
             Inl e \<Rightarrow> Inl e
           | Inr details \<Rightarrow>
               Inr \<lparr>IdInternal = ident, SchemaVersion = ''1.6.0'', osvId = Cve v,
                    Severity = AggregateSeverity vexData, CWEids = [CweId v],
                    Modified = FormatZ (civilOf now), Published = published, Summary = summary,
                    Details = details, osvAffected = affectedList, osvReferences = getReferencesList v\<rparr>))"

fun convert_loop ::
  "'w toolenv \<Rightarrow> VEX \<Rightarrow> Affected list \<Rightarrow> Vulnerability option list \<Rightarrow> OSV list \<Rightarrow> ('w, error + OSV list) prog"
where
  "convert_loop T vexData affectedList [] vulnerabilities = return (Inr vulnerabilities)"
| "convert_loop T vexData affectedList (p # ps) vulnerabilities =
     (case p of
        None \<Rightarrow> return (Inl nilVulnerability)
      | Some v \<Rightarrow>
          (case getSummary v of
             None \<Rightarrow> convert_loop T vexData affectedList ps vulnerabilities
           | Some summary \<Rightarrow>
               runtime (newId T) \<bind> (\<lambda>ident.
               runtime (wallClock T) \<bind> (\<lambda>now.
               case osvOf vexData affectedList ident now summary v of
                 Inl e \<Rightarrow> return (Inl e)
               | Inr osv \<Rightarrow> convert_loop T vexData affectedList ps (vulnerabilities @ [osv])))))"

definition ConvertToOSV :: "'w toolenv \<Rightarrow> VEX \<Rightarrow> bool \<Rightarrow> ('w, error + OSV list) prog" where
  "ConvertToOSV T vexData containerVulns =
     (case (if containerVulns then getAffectedListContainers vexData else getAffectedListRPMs vexData) of
        Inl e \<Rightarrow> return (Inl e)
      | Inr affectedList \<Rightarrow>
          if containerVulns \<and> affectedList = [] then return (Inr [])
          else convert_loop T vexData affectedList (Vulnerabilities vexData) [])"

section \<open>Affected packages, specified\<close>

text \<open>Of several entries with one name the first is kept.\<close>

fun firstByName :: "Affected list \<Rightarrow> Affected list" where
  "firstByName [] = []"
| "firstByName (a # as) =
     a # filter (\<lambda>b. pkgName (affPackage b) \<noteq> pkgName (affPackage a)) (firstByName as)"

abbreviation affName :: "Affected \<Rightarrow> string" where
  "affName a \<equiv> pkgName (affPackage a)"

lemma contains_iff: "contains xs a \<longleftrightarrow> affName a \<in> affName ` set xs"
  by (simp add: contains_def list_ex_iff image_iff eq_commute [of "affName a"])

lemma addAffected_simps:
  "affName a \<in> affName ` set xs \<Longrightarrow> addAffected a xs = xs"
  "affName a \<notin> affName ` set xs \<Longrightarrow> addAffected a xs = xs @ [a]"
  by (simp_all add: addAffected_def contains_iff)

lemma fold_addAffected:
  "fold addAffected as xs = xs @ filter (\<lambda>b. affName b \<notin> affName ` set xs) (firstByName as)"
proof (induction as arbitrary: xs)
  case (Cons a as)
  have "filter (\<lambda>b. affName b \<notin> affName ` set xs) (filter (\<lambda>b. affName b \<noteq> affName a) (firstByName as))
      = filter (\<lambda>b. affName b \<notin> affName ` set xs) (firstByName as)" if "affName a \<in> affName ` set xs"
    using that by (auto simp: filter_filter intro: filter_cong)
  then show ?case
    by (cases "affName a \<in> affName ` set xs") (simp_all add: Cons.IH addAffected_simps conj_commute)
qed simp

lemma distinct_firstByName: "distinct (map affName (firstByName as))"
  by (induction as) (auto simp: distinct_map inj_on_def)

lemma names_firstByName: "affName ` set (firstByName as) = affName ` set as"
  by (induction as) (auto simp: set_eq_iff image_iff, metis+)

lemma set_firstByName: "set (firstByName as) \<subseteq> set as"
  by (induction as) auto

fun mapSome :: "('a \<Rightarrow> 'b option) \<Rightarrow> 'a list \<Rightarrow> 'b list option" where
  "mapSome f [] = Some []"
| "mapSome f (x # xs) = (case (f x, mapSome f xs) of (Some y, Some ys) \<Rightarrow> Some (y # ys) | _ \<Rightarrow> None)"

lemma rpm_loop_fold:
  "rpm_loop purls xs =
     (case mapSome rpmMatch (filter (\<lambda>p. HasPrefix p ''pkg:rpm'') purls) of
        None \<Rightarrow> Inl noMatch
      | Some ms \<Rightarrow> Inr (fold addAffected (map rpmPackage ms) xs))"
  by (induction purls xs rule: rpm_loop.induct) (auto split: option.splits)

lemma container_loop_fold:
  "container_loop purls xs =
     (case mapSome (\<lambda>p. map_option (\<lambda>u. (u, p)) (ociMatch p)) (filter (\<lambda>p. HasPrefix p ''pkg:oci'') purls) of
        None \<Rightarrow> Inl noMatch
      | Some ms \<Rightarrow> Inr (fold addAffected
          (concat (map (\<lambda>(u, p). [dockerPackage u p, dockerPackage (oldRegistry u) (oldRegistry p)]) ms)) xs))"
  by (induction purls xs rule: container_loop.induct) (auto split: option.splits)

section \<open>Properties\<close>

lemma mapSome_None: "mapSome f xs = None \<longleftrightarrow> (\<exists>x \<in> set xs. f x = None)"
  by (induction xs) (auto split: option.splits)

lemma mapSome_Some: "mapSome f xs = Some ys \<Longrightarrow> ys = map (\<lambda>x. the (f x)) xs"
  by (induction xs arbitrary: ys) (auto split: option.splits)

definition rpmPurls :: "VEX \<Rightarrow> string list" where
  "rpmPurls vex = filter (\<lambda>p. HasPrefix p ''pkg:rpm'') (architecturePurls vex)"

lemma getAffectedListRPMs_eq:
  "getAffectedListRPMs vex =
     (case mapSome rpmMatch (rpmPurls vex) of
        None \<Rightarrow> Inl noMatch
      | Some ms \<Rightarrow> Inr (firstByName (map rpmPackage ms)))"
  by (simp add: getAffectedListRPMs_def rpm_loop_fold rpmPurls_def fold_addAffected split: option.splits)

text \<open>
  C32: the list of affected RPM packages is a panic exactly when some package URL of that kind
  does not match, and otherwise has one entry per package name, the one of the first URL with that
  name in the document.
\<close>

theorem getAffectedListRPMs_correct:
  "case getAffectedListRPMs vex of
     Inl e \<Rightarrow> e = noMatch \<and> list_ex (\<lambda>p. rpmMatch p = None) (rpmPurls vex)
   | Inr as \<Rightarrow> list_all (\<lambda>p. rpmMatch p \<noteq> None) (rpmPurls vex) \<and>
       as = firstByName (map (\<lambda>p. rpmPackage (the (rpmMatch p))) (rpmPurls vex)) \<and> distinct (map affName as)"
proof (cases "mapSome rpmMatch (rpmPurls vex)")
  case None
  then have "list_ex (\<lambda>p. rpmMatch p = None) (rpmPurls vex)" by (simp add: mapSome_None list_ex_iff)
  then show ?thesis by (simp add: getAffectedListRPMs_eq None)
next
  case (Some ms)
  then have "list_all (\<lambda>p. rpmMatch p \<noteq> None) (rpmPurls vex)"
    using mapSome_None [of rpmMatch "rpmPurls vex"] by (auto simp: list_all_iff)
  then show ?thesis
    using mapSome_Some [OF Some] by (simp add: getAffectedListRPMs_eq Some distinct_firstByName comp_def)
qed

lemma nameVersion_purl:
  assumes "n \<noteq> []" "CHR ''@'' \<notin> set n" "v \<noteq> []" "CHR ''?'' \<notin> set v" "q = [] \<or> hd q = CHR ''?''"
  shows "nameVersion pre (n @ CHR ''@'' # v @ q) = Some (pre @ n, n, v)"
proof -
  have "takeWhile (\<lambda>c. c \<noteq> CHR ''@'') (n @ CHR ''@'' # v @ q) = n"
    "dropWhile (\<lambda>c. c \<noteq> CHR ''@'') (n @ CHR ''@'' # v @ q) = CHR ''@'' # v @ q"
    using assms(2) by (induction n) auto
  moreover have "takeWhile (\<lambda>c. c \<noteq> CHR ''?'') (v @ q) = v"
    using assms(4,5) by (induction v) (cases q, auto)
  ultimately show ?thesis using assms(1,3) by (simp add: nameVersion_def)
qed

definition redhatPurl :: "string \<Rightarrow> string \<Rightarrow> string \<Rightarrow> string" where
  "redhatPurl n v q = ''pkg:rpm/redhat/'' @ n @ CHR ''@'' # v @ q"

text \<open>
  A package URL made from a name and a version, with or without qualifiers, yields this name
  and version back, and the URL without version.
\<close>

theorem rpmMatch_purl:
  assumes "n \<noteq> []" "CHR ''@'' \<notin> set n" "v \<noteq> []" "CHR ''?'' \<notin> set v" "q = [] \<or> hd q = CHR ''?''"
  shows "rpmMatch (redhatPurl n v q) = Some (''pkg:rpm/redhat/'' @ n, n, v)"
proof -
  have "rpmHere (redhatPurl n v q) = Some (''pkg:rpm/redhat/'' @ n, n, v)"
    using nameVersion_purl [OF assms, of "''pkg:rpm/redhat/''"]
    by (simp add: redhatPurl_def rpmHere_def rpmRest_def HasPrefix_def)
  then show ?thesis by (simp add: redhatPurl_def)
qed

theorem rpmMatch_purl_witness:
  "rpmMatch (redhatPurl ''bash'' ''5.1-2.el9'' ''?arch=x86_64'') = Some (''pkg:rpm/redhat/bash'', ''bash'', ''5.1-2.el9'')"
  using rpmMatch_purl [of "''bash''" "''5.1-2.el9''" "''?arch=x86_64''"] by simp

definition documentOf :: "string list \<Rightarrow> VEX" where
  "documentOf purls = \<lparr>AggregateSeverity = [], Vulnerabilities = [],
     ProductTree = [[\<lparr>archCategory = ''architecture'', archPurls = purls\<rparr>]]\<rparr>"

text \<open>
  Entries are compared by name only, so of one package fixed in two versions, as in two
  streams of a product, only the first version is reported.
\<close>

theorem second_version_dropped:
  assumes "n \<noteq> []" "CHR ''@'' \<notin> set n" "v \<noteq> []" "CHR ''?'' \<notin> set v" "w \<noteq> []" "CHR ''?'' \<notin> set w"
  shows "getAffectedListRPMs (documentOf [redhatPurl n v [], redhatPurl n w []])
       = Inr [rpmPackage (''pkg:rpm/redhat/'' @ n, n, v)]"
proof -
  have m: "rpmMatch (redhatPurl n u []) = Some (''pkg:rpm/redhat/'' @ n, n, u)" if "u \<in> {v, w}" for u
  proof -
    have "rpmHere (redhatPurl n u []) = Some (''pkg:rpm/redhat/'' @ n, n, u)"
      using that assms nameVersion_purl [of n u "[]" "''pkg:rpm/redhat/''"]
      by (auto simp: redhatPurl_def rpmHere_def rpmRest_def HasPrefix_def)
    then show ?thesis by (simp add: redhatPurl_def)
  qed
  have "rpmPurls (documentOf [redhatPurl n v [], redhatPurl n w []]) = [redhatPurl n v [], redhatPurl n w []]"
    by (simp add: rpmPurls_def documentOf_def architecturePurls_def redhatPurl_def HasPrefix_def)
  then show ?thesis by (simp add: getAffectedListRPMs_eq m) (simp add: rpmPackage_def)
qed

theorem second_version_dropped_witness:
  "getAffectedListRPMs (documentOf [redhatPurl ''bash'' ''4.4'' [], redhatPurl ''bash'' ''5.1'' []])
     = Inr [rpmPackage (''pkg:rpm/redhat/bash'', ''bash'', ''4.4'')]"
  using second_version_dropped [of "''bash''" "''4.4''" "''5.1''"] by simp

subsection \<open>The conversion\<close>

definition affectedOf :: "VEX \<Rightarrow> bool \<Rightarrow> error + Affected list" where
  "affectedOf vex containerVulns = (if containerVulns then getAffectedListContainers vex else getAffectedListRPMs vex)"

text \<open>What an OSV record says about a vulnerability, and which vulnerabilities can be converted.\<close>

definition reports :: "VEX \<Rightarrow> Affected list \<Rightarrow> Vulnerability \<Rightarrow> OSV \<Rightarrow> bool" where
  "reports vex affected v osv \<longleftrightarrow>
     osvId osv = Cve v \<and> getSummary v = Some (Summary osv) \<and> getDetails v = Inr (Details osv) \<and>
     getPublishedDate v = Inr (Published osv) \<and> osvAffected osv = affected \<and>
     osvReferences osv = getReferencesList v \<and> Severity osv = AggregateSeverity vex \<and> CWEids osv = [CweId v]"

definition convertible :: "Vulnerability option \<Rightarrow> bool" where
  "convertible p \<longleftrightarrow>
     (case p of None \<Rightarrow> False
      | Some v \<Rightarrow> getSummary v = None \<or> \<not> isl (getPublishedDate v) \<and> \<not> isl (getDetails v))"

definition summarised :: "VEX \<Rightarrow> Vulnerability list" where
  "summarised vex = filter (\<lambda>v. getSummary v \<noteq> None) (map the (Vulnerabilities vex))"

lemma osvOf_cases:
  assumes "getSummary v = Some summary"
  shows "case osvOf vex aff ident now summary v of
           Inl e \<Rightarrow> isPanic e \<and> \<not> convertible (Some v)
         | Inr osv \<Rightarrow> reports vex aff v osv \<and> convertible (Some v)"
  using assms
  by (auto simp: osvOf_def reports_def convertible_def getPublishedDate_def getDetails_def split: option.splits)

definition conversion :: "VEX \<Rightarrow> Affected list \<Rightarrow> Vulnerability option list \<Rightarrow> OSV list \<Rightarrow> error + OSV list \<Rightarrow> bool" where
  "conversion vex aff ps done r \<longleftrightarrow>
     (case r of
        Inl e \<Rightarrow> isPanic e \<and> \<not> list_all convertible ps
      | Inr osvs \<Rightarrow> list_all convertible ps \<and>
          (\<exists>new. osvs = done @ new \<and> list_all2 (reports vex aff) (filter (\<lambda>v. getSummary v \<noteq> None) (map the ps)) new))"

lemma conversion_skip:
  "getSummary v = None \<Longrightarrow> conversion vex aff ps d r \<Longrightarrow> conversion vex aff (Some v # ps) d r"
  by (auto simp: conversion_def convertible_def split: sum.splits)

lemma conversion_add:
  "reports vex aff v osv \<Longrightarrow> convertible (Some v) \<Longrightarrow> conversion vex aff ps (d @ [osv]) r \<Longrightarrow> conversion vex aff (Some v # ps) d r"
  by (auto simp: conversion_def reports_def split: sum.splits)

lemma convert_loop_emits:
  "emits (convert_loop T vex aff ps d) (\<lambda>ts r. ts = [] \<and> conversion vex aff ps d r)"
proof (induction ps arbitrary: d)
  case Nil
  then show ?case by (simp add: emits_return conversion_def)
next
  case (Cons p ps)
  show ?case
  proof (cases p)
    case None
    then show ?thesis by (simp add: emits_return conversion_def convertible_def nilVulnerability_def)
  next
    case v: (Some v)
    show ?thesis
    proof (cases "getSummary v")
      case None
      then show ?thesis using v by (auto intro: emits_mono [OF Cons.IH] conversion_skip)
    next
      case (Some summary)
      have step: "emits (case osvOf vex aff ident now summary v of Inl e \<Rightarrow> return (Inl e)
              | Inr osv \<Rightarrow> convert_loop T vex aff ps (d @ [osv]))
            (\<lambda>ts r. ts = [] \<and> conversion vex aff (Some v # ps) d r)" for ident now
      proof (cases "osvOf vex aff ident now summary v")
        case (Inl e)
        then show ?thesis using osvOf_cases [OF Some, of vex aff ident now] by (simp add: emits_return conversion_def)
      next
        case (Inr osv)
        then show ?thesis
          using osvOf_cases [OF Some, of vex aff ident now] by (auto intro: emits_mono [OF Cons.IH] conversion_add)
      qed
      show ?thesis
        unfolding v by (simp add: Some) (auto intro!: emits_bind [OF emits_runtime [where Q = "\<lambda>ts r. ts = []"]] step)
    qed
  qed
qed


subsection \<open>Dates\<close>

text \<open>
  A discovery date in UTC is published as the same date and time with the suffix \<open>Z\<close>.
\<close>

theorem published_date_roundtrip:
  assumes "valid_civil c" "nanos c = 0" "DiscoveryDate v = printDateTime c @ ''+00:00''"
  shows "getPublishedDate v = Inr (printDateTime c @ ''Z'')"
proof -
  have "parseDateTime (DiscoveryDate v) = Some (c, ''+00:00'')"
    unfolding assms(3) by (rule parse_printDateTime [OF assms(1,2)]) simp
  then show ?thesis by (simp add: getPublishedDate_def parseDiscovery_def FormatZ_def)
qed

definition leapDay :: civil where
  "leapDay = \<lparr>year = 2024, month = 2, day = 29, hour = 23, minutes = 59, seconds = 7, nanos = 0\<rparr>"

theorem published_date_roundtrip_witness:
  "getPublishedDate \<lparr>Cve = [], DiscoveryDate = ''2024-02-29T23:59:07+00:00'', CweId = [], vulnReferences = [], Notes = []\<rparr>
     = Inr ''2024-02-29T23:59:07Z''"
proof -
  have p: "printDateTime leapDay = ''2024-02-29T23:59:07''"
    by code_simp
  have "valid_civil leapDay" by (simp add: leapDay_def valid_civil_def daysIn_def isLeap_def)
  from published_date_roundtrip [OF this] show ?thesis by (simp add: p) (simp add: leapDay_def)
qed

end
