(* ===== verification/Csv.thy ===== *)
theory Csv
  imports Prelude
begin

text \<open>
  Go's \<open>encoding/csv\<close> with the default options, as \<open>generator.go\<close> uses it: comma separated, double
  quotes, empty lines skipped, and every record as long as the first. \<open>None\<close> is a parse error
  (a bare or unfinished quote, or a wrong number of fields).
\<close>

section \<open>Lines\<close>

definition newline :: char where
  "newline = CHR 0x0A"

definition quote :: char where
  "quote = CHR 0x22"

definition comma :: char where
  "comma = CHR '',''"

definition dropCR :: "string \<Rightarrow> string" where
  "dropCR l = (if l \<noteq> [] \<and> last l = CHR 0x0D then butlast l else l)"

text \<open>Each line keeps its line feed; \<open>\r\n\<close> counts as one, and a final \<open>\r\<close> is dropped.\<close>

function csvLines :: "string \<Rightarrow> string list" where
  "csvLines s =
     (if s = [] then []
      else (let l = takeWhile (\<lambda>c. c \<noteq> newline) s; r = dropWhile (\<lambda>c. c \<noteq> newline) s
            in if r = [] then [dropCR l] else (dropCR l @ [newline]) # csvLines (tl r)))"
  by pat_completeness auto
termination
proof (relation "measure length", goal_cases)
  case (2 s l r)
  then have "length (tl r) < length r" by simp
  also have "\<dots> \<le> length s" using 2 length_dropWhile_le by simp
  finally show ?case by simp
qed simp

declare csvLines.simps [simp del]

section \<open>Records\<close>

lemma shorter_tl: "l \<noteq> [] \<Longrightarrow> length (tl (dropWhile P l)) < length l"
  using length_dropWhile_le [of P l] by (cases l) auto

text \<open>
  \<open>csvField\<close> is at the start of a field in \<open>line\<close>, \<open>csvQuoted\<close> inside a quoted one of which \<open>buf\<close> has
  been read; a quoted field may go on in the next line.
\<close>

function csvField :: "string \<Rightarrow> string list \<Rightarrow> string list \<Rightarrow> (string list \<times> string list) option"
and csvQuoted :: "string \<Rightarrow> string list \<Rightarrow> string list \<Rightarrow> string \<Rightarrow> (string list \<times> string list) option" where
  "csvField line ls acc =
     (if line \<noteq> [] \<and> hd line = quote then csvQuoted (tl line) ls acc []
      else
        (let fld = takeWhile (\<lambda>c. c \<noteq> comma) line; rest = dropWhile (\<lambda>c. c \<noteq> comma) line in
         if rest = [] then
           (let fld = (if fld \<noteq> [] \<and> last fld = newline then butlast fld else fld)
            in if quote \<in> set fld then None else Some (acc @ [fld], ls))
         else if quote \<in> set fld then None
         else csvField (tl rest) ls (acc @ [fld])))"
| "csvQuoted line ls acc buf =
     (if quote \<in> set line then
        (let fld = buf @ takeWhile (\<lambda>c. c \<noteq> quote) line; rest = tl (dropWhile (\<lambda>c. c \<noteq> quote) line) in
         if rest = [] \<or> rest = [newline] then Some (acc @ [fld], ls)
         else if hd rest = quote then csvQuoted (tl rest) ls acc (fld @ [quote])
         else if hd rest = comma then csvField (tl rest) ls (acc @ [fld])
         else None)
      else if line = [] then None
      else (case ls of
              [] \<Rightarrow> csvQuoted [] [] acc (buf @ line)
            | l # ls' \<Rightarrow> csvQuoted l ls' acc (buf @ line)))"
  by pat_completeness auto

termination
proof (relation "measure (\<lambda>x. case x of Inl (line, ls, acc) \<Rightarrow> length line + sum_list (map length ls)
                                      | Inr (line, ls, acc, buf) \<Rightarrow> length line + sum_list (map length ls))", goal_cases)
  case (3 line ls acc fld rest)
  then show ?case using shorter_tl [of line "\<lambda>c. c \<noteq> comma"] by (cases "line = []") auto
next
  case (4 line ls acc buf fld rest)
  then have "length rest < length line"
    using shorter_tl [of line "\<lambda>c. c \<noteq> quote"] by (cases "line = []") auto
  then have "length (tl rest) < length line" by simp
  then show ?case by simp
next
  case (5 line ls acc buf fld rest)
  then have "length rest < length line"
    using shorter_tl [of line "\<lambda>c. c \<noteq> quote"] by (cases "line = []") auto
  then have "length (tl rest) < length line" by simp
  then show ?case by simp
qed auto

declare csvField.simps [simp del] csvQuoted.simps [simp del]

lemma csv_rest:
  "csvField line ls acc = Some (rec, ls') \<Longrightarrow> length ls' \<le> length ls \<and> length acc < length rec"
  "csvQuoted line ls acc buf = Some (rec, ls') \<Longrightarrow> length ls' \<le> length ls \<and> length acc < length rec"
proof (induction line ls acc and line ls acc buf arbitrary: rec ls' and rec ls' rule: csvField_csvQuoted.induct)
  case (1 line ls acc)
  from 1(3) show ?case
    using 1(1,2) by (subst (asm) csvField.simps) (force simp: Let_def split: if_splits)
next
  case (2 line ls acc buf)
  from 2(5) show ?case
    using 2(1-4) by (subst (asm) csvQuoted.simps) (force simp: Let_def split: if_splits list.splits)
qed

function csvRecords :: "nat \<Rightarrow> string list \<Rightarrow> string list list option" where
  "csvRecords n [] = Some []"
| "csvRecords n (l # ls) =
     (if l = [] \<or> l = [newline] then csvRecords n ls
      else
        (case csvField l ls [] of
           None \<Rightarrow> None
         | Some (rec, ls') \<Rightarrow>
             if n \<noteq> 0 \<and> length rec \<noteq> n then None
             else map_option (\<lambda>rs. rec # rs) (csvRecords (length rec) ls')))"
  by pat_completeness auto
termination
  by (relation "measure (\<lambda>(n, ls). length ls)") (auto dest!: csv_rest(1))

definition ReadAll :: "string \<Rightarrow> string list list option" where
  "ReadAll s = csvRecords 0 (csvLines s)"

section \<open>Facts\<close>

text \<open>All records of a table have the same length, which is not zero.\<close>

lemma csvRecords_length:
  "csvRecords n ls = Some rs \<Longrightarrow> \<exists>k. list_all (\<lambda>r. length r = k) rs \<and> (n \<noteq> 0 \<longrightarrow> k = n \<or> rs = []) \<and> (rs \<noteq> [] \<longrightarrow> k \<noteq> 0)"
proof (induction n ls arbitrary: rs rule: csvRecords.induct)
  case (2 n l ls)
  show ?case
  proof (cases "l = [] \<or> l = [newline]")
    case True
    then show ?thesis using 2(1,3) by auto
  next
    case False
    then obtain rec ls' rs' where f: "csvField l ls [] = Some (rec, ls')" "n \<noteq> 0 \<longrightarrow> length rec = n"
      "csvRecords (length rec) ls' = Some rs'" "rs = rec # rs'"
      using 2(3) by (auto split: option.splits if_splits)
    moreover have "length rec \<noteq> 0" using csv_rest(1) [OF f(1)] by simp
    moreover obtain k where "list_all (\<lambda>r. length r = k) rs'" "length rec \<noteq> 0 \<longrightarrow> k = length rec \<or> rs' = []"
      using 2(2) [OF False f(1) refl _ f(3)] f(2) by auto
    ultimately show ?thesis by (intro exI [of _ "length rec"]) auto
  qed
qed simp

text \<open>Plain text between the commas is read back.\<close>

definition plainText :: "string \<Rightarrow> bool" where
  "plainText s \<longleftrightarrow> newline \<notin> set s \<and> quote \<notin> set s \<and> comma \<notin> set s \<and> CHR 0x0D \<notin> set s"

lemma while_upto:
  assumes "c \<notin> set l"
  shows "takeWhile (\<lambda>x. x \<noteq> c) (l @ c # s) = l" "dropWhile (\<lambda>x. x \<noteq> c) (l @ c # s) = c # s"
    "takeWhile (\<lambda>x. x \<noteq> c) l = l" "dropWhile (\<lambda>x. x \<noteq> c) l = []"
  using assms by (induction l) auto

lemma plain_bytes: "newline \<noteq> quote" "comma \<noteq> quote" "newline \<noteq> comma"
  by (simp_all add: newline_def quote_def comma_def)

lemma hd_plain: "plainText f \<Longrightarrow> c \<noteq> quote \<Longrightarrow> hd (f @ c # s) \<noteq> quote"
  by (cases f) (auto simp: plainText_def)

lemma csvField_plain:
  "fs \<noteq> [] \<Longrightarrow> list_all plainText fs \<Longrightarrow> csvField (Join fs comma @ [newline]) ls acc = Some (acc @ fs, ls)"
proof (induction fs arbitrary: acc rule: induct_list012)
  case (2 f)
  then have f: "plainText f" by simp
  then have "comma \<notin> set (f @ [newline])" "quote \<notin> set f" using plain_bytes by (auto simp: plainText_def)
  then show ?case
    using hd_plain [OF f plain_bytes(1), of "[]"]
    by (subst csvField.simps) (simp only: Join.simps while_upto(3,4) Let_def if_False if_True simp_thms butlast_snoc last_snoc, simp)
next
  case (3 f g fs)
  let ?r = "Join (g # fs) comma @ [newline]"
  have f: "plainText f" using 3 by simp
  then have n: "comma \<notin> set f" "quote \<notin> set f" by (simp_all add: plainText_def)
  have "csvField (f @ comma # ?r) ls acc = csvField ?r ls (acc @ [f])"
    using hd_plain [OF f plain_bytes(2), of ?r] n
    by (subst csvField.simps) (simp only: while_upto Let_def if_False if_True simp_thms list.sel list.distinct append_is_Nil_conv)
  then show ?case using 3 by simp
qed simp

lemma csvLines_plain: "newline \<notin> set l \<Longrightarrow> CHR 0x0D \<notin> set l \<Longrightarrow> csvLines (l @ newline # s) = (l @ [newline]) # csvLines s"
proof -
  assume l: "newline \<notin> set l" "CHR 0x0D \<notin> set l"
  have "dropCR l = l" using l last_in_set by (fastforce simp: dropCR_def)
  then show ?thesis by (subst csvLines.simps) (simp add: Let_def while_upto [OF l(1)])
qed

definition table :: "string list list \<Rightarrow> string" where
  "table rs = concat (map (\<lambda>r. Join r comma @ [newline]) rs)"

lemma set_Join: "set (Join ws sep) \<subseteq> insert sep (\<Union> (set ` set ws))"
  by (induction ws sep rule: Join.induct) auto

lemma ReadAll_table:
  assumes "\<And>r. r \<in> set rs \<Longrightarrow> length r = n \<and> list_all plainText r" "2 \<le> n"
  shows "ReadAll (table rs) = Some rs"
proof -
  have "csvRecords m (csvLines (table rs)) = Some rs" if "m = 0 \<or> m = n" for m
    using assms(1) that
  proof (induction rs arbitrary: m)
    case Nil
    then show ?case by (simp add: table_def csvLines.simps)
  next
    case (Cons r rs)
    then have r: "length r = n" "list_all plainText r" by auto
    then have clean: "newline \<notin> set (Join r comma)" "CHR 0x0D \<notin> set (Join r comma)"
      using set_Join [of r comma] by (auto simp: list_all_iff plainText_def comma_def newline_def)
    obtain f g fs where "r = f # g # fs" using r(1) assms(2) by (metis Suc_le_length_iff numeral_2_eq_2)
    then have "Join r comma @ [newline] \<noteq> [newline]" by simp
    moreover have "csvField (Join r comma @ [newline]) (csvLines (table rs)) [] = Some (r, csvLines (table rs))"
      using r \<open>r = f # g # fs\<close> by (subst csvField_plain) auto
    ultimately have "csvRecords m (csvLines (table (r # rs))) = map_option (\<lambda>rs. r # rs) (csvRecords n (csvLines (table rs)))"
      using Cons.prems(2) r(1) clean by (auto simp: table_def csvLines_plain)
    then show ?case using Cons by simp
  qed
  then show ?thesis by (simp add: ReadAll_def)
qed

end
