(* ===== verification/Paths.thy ===== *)
theory Paths
  imports Prelude
begin

text \<open>
  Go's \<open>path/filepath\<close> on Unix, as far as the command line tools use it. \<open>Clean\<close> works on the
  elements between the slashes: empty elements and \<open>.\<close> disappear, \<open>..\<close> removes the element in front
  of it, and where there is none it disappears from a rooted path and stays in a relative one.
\<close>

section \<open>Cleaning\<close>

definition clean_step :: "bool \<Rightarrow> string list \<Rightarrow> string \<Rightarrow> string list" where
  "clean_step rooted out w =
     (if w = [] \<or> w = ''.'' then out
      else if w = ''..'' then
        (if out \<noteq> [] \<and> last out \<noteq> ''..'' then butlast out
         else if rooted then out else out @ [''..''])
      else out @ [w])"

definition cleanElements :: "bool \<Rightarrow> string list \<Rightarrow> string \<Rightarrow> string list" where
  "cleanElements rooted out path = foldl (clean_step rooted) out (Split path (CHR ''/''))"

definition IsAbs :: "string \<Rightarrow> bool" where
  "IsAbs path = HasPrefix path ''/''"

definition pathOf :: "bool \<Rightarrow> string list \<Rightarrow> string" where
  "pathOf rooted out =
     (if rooted then CHR ''/'' # Join out (CHR ''/'') else if out = [] then ''.'' else Join out (CHR ''/''))"

definition Clean :: "string \<Rightarrow> string" where
  "Clean path = pathOf (IsAbs path) (cleanElements (IsAbs path) [] path)"

text \<open>\<open>filepath.Join\<close> of two elements, and \<open>filepath.Dir\<close>.\<close>

definition JoinPath :: "string \<Rightarrow> string \<Rightarrow> string" where
  "JoinPath a b = (if a \<noteq> [] then Clean (a @ ''/'' @ b) else if b \<noteq> [] then Clean b else [])"

definition Dir :: "string \<Rightarrow> string" where
  "Dir path = Clean (rev (dropWhile (\<lambda>c. c \<noteq> CHR ''/'') (rev path)))"

section \<open>Elements of clean paths\<close>

definition proper :: "string \<Rightarrow> bool" where
  "proper w \<longleftrightarrow> w \<noteq> [] \<and> w \<noteq> ''.'' \<and> w \<noteq> ''..'' \<and> CHR ''/'' \<notin> set w"

lemma Split_append: "Split (a @ sep # b) sep = Split a sep @ Split b sep"
proof (induction a)
  case (Cons c a)
  then show ?case by (cases "Split a sep") auto
qed simp

lemma cleanElements_append [simp]:
  "cleanElements rooted out (a @ CHR ''/'' # b) = cleanElements rooted (cleanElements rooted out a) b"
  by (simp add: cleanElements_def Split_append)

lemma cleanElements_Nil [simp]: "cleanElements rooted out [] = out"
  by (simp add: cleanElements_def clean_step_def)

lemma cleanElements_slash [simp]: "cleanElements rooted out (CHR ''/'' # b) = cleanElements rooted out b"
  using cleanElements_append [of rooted out "[]" b] by simp

lemma cleanElements_word: "CHR ''/'' \<notin> set w \<Longrightarrow> cleanElements rooted out w = clean_step rooted out w"
  by (simp add: cleanElements_def)

lemma clean_step_proper: "proper w \<Longrightarrow> clean_step rooted out w = out @ [w]"
  by (simp add: clean_step_def proper_def)

lemma list_all_proper_step:
  "list_all proper out \<Longrightarrow> CHR ''/'' \<notin> set w \<Longrightarrow> list_all proper (clean_step True out w)"
  by (auto simp: clean_step_def proper_def list_all_iff dest: in_set_butlastD)

lemma list_all_proper_clean [simp]: "list_all proper out \<Longrightarrow> list_all proper (cleanElements True out path)"
proof -
  have "list_all proper (foldl (clean_step True) out ws)"
    if "list_all proper out" "\<forall>w \<in> set ws. CHR ''/'' \<notin> set w" for ws out
    using that by (induction ws arbitrary: out) (auto intro: list_all_proper_step)
  then show "list_all proper out \<Longrightarrow> list_all proper (cleanElements True out path)"
    unfolding cleanElements_def using Split_no_sep by blast
qed

lemma cleanElements_Join:
  "list_all proper ws \<Longrightarrow> cleanElements rooted out (Join ws (CHR ''/'')) = out @ ws"
proof (induction ws arbitrary: out rule: induct_list012)
  case (2 w)
  then show ?case by (simp add: cleanElements_word proper_def clean_step_proper)
next
  case (3 w v ws)
  then have "CHR ''/'' \<notin> set w" "proper w" by (simp_all add: proper_def)
  with 3 show ?case
    by (simp add: cleanElements_word clean_step_proper)
qed simp

lemma cleanElements_pathOf [simp]: "list_all proper ws \<Longrightarrow> cleanElements True [] (pathOf True ws) = ws"
  by (simp add: pathOf_def cleanElements_Join)

lemma IsAbs_pathOf [simp]: "IsAbs (pathOf True ws)"
  by (simp add: IsAbs_def pathOf_def HasPrefix_def)

lemma IsAbs_append [simp]: "IsAbs a \<Longrightarrow> IsAbs (a @ b)"
  by (cases a) (auto simp: IsAbs_def HasPrefix_def)

lemma IsAbs_Clean: "IsAbs path \<Longrightarrow> IsAbs (Clean path)"
  by (simp add: Clean_def)

lemma Clean_rooted: "IsAbs path \<Longrightarrow> Clean path = pathOf True (cleanElements True [] path)"
  by (simp add: Clean_def)

lemma elements_Clean [simp]:
  "IsAbs path \<Longrightarrow> cleanElements True [] (Clean path) = cleanElements True [] path"
  by (simp add: Clean_rooted cleanElements_pathOf list_all_proper_clean)

lemma Clean_Clean: "IsAbs path \<Longrightarrow> Clean (Clean path) = Clean path"
  by (simp add: Clean_rooted [of "Clean path"] IsAbs_Clean) (simp add: Clean_rooted)

lemma pathOf_inj: "list_all proper a \<Longrightarrow> list_all proper b \<Longrightarrow> pathOf True a = pathOf True b \<longleftrightarrow> a = b"
  by (metis cleanElements_pathOf)

text \<open>The textual prefix test of the archive code, on the elements.\<close>

lemma Join_append: "a \<noteq> [] \<Longrightarrow> b \<noteq> [] \<Longrightarrow> Join (a @ b) sep = Join a sep @ sep # Join b sep"
proof (induction a rule: induct_list012)
  case (2 w)
  then show ?case by (cases b) auto
qed simp_all

lemma prefix_pathOf:
  assumes "list_all proper a" "list_all proper b" "a \<noteq> []"
  shows "HasPrefix (pathOf True b) (pathOf True a @ ''/'') \<longleftrightarrow> (\<exists>r. b = a @ r \<and> r \<noteq> [])"
proof
  assume "HasPrefix (pathOf True b) (pathOf True a @ ''/'')"
  then obtain t where "pathOf True b = pathOf True a @ CHR ''/'' # t" by (auto simp: HasPrefix_iff)
  then have t: "Join b (CHR ''/'') = Join a (CHR ''/'') @ CHR ''/'' # t" by (simp add: pathOf_def)
  have noslash: "CHR ''/'' \<notin> set w" if "w \<in> set a \<union> set b" for w
    using that assms(1,2) by (auto simp: list_all_iff proper_def)
  have "b \<noteq> []" using t by auto
  then have "b = Split (Join a (CHR ''/'') @ CHR ''/'' # t) (CHR ''/'')"
    using noslash by (simp flip: t add: Split_Join)
  also have "\<dots> = a @ Split t (CHR ''/'')"
    using noslash assms(3) by (simp add: Split_append Split_Join)
  finally show "\<exists>r. b = a @ r \<and> r \<noteq> []" by (intro exI [of _ "Split t (CHR ''/'')"]) simp
next
  assume "\<exists>r. b = a @ r \<and> r \<noteq> []"
  then obtain r where r: "b = a @ r" "r \<noteq> []" by blast
  then show "HasPrefix (pathOf True b) (pathOf True a @ ''/'')"
    using assms(3) by (simp add: pathOf_def Join_append HasPrefix_def)
qed

end
