(* ===== verification/OsvDownloader.thy ===== *)
theory OsvDownloader
  imports Tools Paths
begin

text \<open>
  \<open>tools/osv-downloader/download_osv.go\<close>: find the archive in the latest release, download it and
  unpack it under a destination directory.
\<close>

section \<open>Downloading\<close>

definition archiveName :: string where
  "archiveName = ''osv-offline.zip''"

definition nilPointer :: error where
  "nilPointer = Panic ''runtime error: invalid memory address or nil pointer dereference''"

text \<open>The first asset of that name; an asset without a name makes the loop panic.\<close>

fun findAsset :: "releaseAsset list \<Rightarrow> error + releaseAsset option" where
  "findAsset [] = Inr None"
| "findAsset (asset # assets) =
     (case assetName asset of
        None \<Rightarrow> Inl nilPointer
      | Some name \<Rightarrow> if name = archiveName then Inr (Some asset) else findAsset assets)"

text \<open>The deferred close of the file runs whether or not the copy succeeds; its result is dropped.\<close>

definition downloadFile :: "'w toolenv \<Rightarrow> string \<Rightarrow> string \<Rightarrow> ('w, error + unit) prog" where
  "downloadFile T url path =
     onOk (HttpGet T url) (\<lambda>resp.
     onOk (OpenFile T path 0x1B6) (\<lambda>_.
     CopyInto T path \<bind> (\<lambda>r.
     CloseFile T path \<bind> (\<lambda>_.
     return (case r of Some e \<Rightarrow> Inl e | None \<Rightarrow> Inr ())))))"

section \<open>Unpacking\<close>

text \<open>The guard against entries that leave the destination, which has been cleaned.\<close>

definition validEntry :: "string \<Rightarrow> string \<Rightarrow> bool" where
  "validEntry destination name \<longleftrightarrow>
     (let cleanPath = Clean (JoinPath destination name)
      in HasPrefix cleanPath (destination @ ''/'') \<or> cleanPath = destination)"

definition storeEntry :: "'w toolenv \<Rightarrow> string \<Rightarrow> zipEntry \<Rightarrow> ('w, error + unit) prog" where
  "storeEntry T filePath file =
     onOk (MkdirAll T (Dir filePath)) (\<lambda>_.
     onOk (OpenFile T filePath (entryMode file)) (\<lambda>_.
     external ''zip.File.Open'' (openEntry T file) \<bind> (\<lambda>o1.
     case o1 of
       Some e \<Rightarrow> afterwards (CloseFile T filePath) (Inl e)
     | None \<Rightarrow>
         CopyInto T filePath \<bind> (\<lambda>c1.
         case c1 of
           Some e \<Rightarrow> CloseFile T filePath \<bind> (\<lambda>_. afterwards (external ''zip.File.Close'' (closeEntry T file)) (Inl e))
         | None \<Rightarrow>
             CloseFile T filePath \<bind> (\<lambda>c2.
             case c2 of
               Some e \<Rightarrow> afterwards (external ''zip.File.Close'' (closeEntry T file)) (Inl e)
             | None \<Rightarrow> asResult (external ''zip.File.Close'' (closeEntry T file)))))))"

fun extract_loop :: "'w toolenv \<Rightarrow> string \<Rightarrow> zipEntry list \<Rightarrow> ('w, error + unit) prog" where
  "extract_loop T destination [] = return (Inr ())"
| "extract_loop T destination (file # files) =
     (let filePath = JoinPath destination (entryName file)
      in if \<not> validEntry destination (entryName file)
         then return (Inl (Err (''invalid file path in archive: '' @ entryName file)))
         else onOk (if entryIsDir file then MkdirAll T filePath else storeEntry T filePath file) (\<lambda>_.
              extract_loop T destination files))"

definition unzipFile :: "'w toolenv \<Rightarrow> string \<Rightarrow> string \<Rightarrow> ('w, error + unit) prog" where
  "unzipFile T archivePath destination =
     onOk (external ''zip.OpenReader'' (openArchive T archivePath)) (extract_loop T (Clean destination))"

definition DownloadOsvDb :: "'w toolenv \<Rightarrow> string \<Rightarrow> ('w, error + unit) prog" where
  "DownloadOsvDb T path =
     onOk (wrapErr ''error creating GitHub client'' (asResult (external ''github.NewClient'' (newGithubClient T)))) (\<lambda>_.
     onOk (formatErr ''error when accessing latest osv-offline release''
             (external ''github.GetLatestRelease'' (latestRelease T ''renovatebot'' ''osv-offline''))) (\<lambda>assets.
     case findAsset assets of
       Inl e \<Rightarrow> return (Inl e)
     | Inr None \<Rightarrow> return (Inl (Err ''osv-offline.zip asset couldn't be found in the latest release''))
     | Inr (Some asset) \<Rightarrow>
         (case BrowserDownloadURL asset of
            None \<Rightarrow> return (Inl nilPointer)
          | Some url \<Rightarrow>
              (let archivePath = JoinPath path archiveName in
               onOk (formatErr ''error when downloading the osv-offline file'' (downloadFile T url archivePath)) (\<lambda>_.
               formatErr ''error when unzipping the osv-offline file'' (unzipFile T archivePath path))))))"

section \<open>The guard\<close>

text \<open>A path lies below a destination when its elements, with all \<open>..\<close> resolved, start with those of the destination.\<close>

definition below :: "string \<Rightarrow> string \<Rightarrow> bool" where
  "below destination p \<longleftrightarrow>
     IsAbs p \<and> (\<exists>r. cleanElements True [] p = cleanElements True [] destination @ r)"

lemma Clean_not_Nil [simp]: "IsAbs d \<Longrightarrow> Clean d \<noteq> []"
  by (simp add: Clean_rooted pathOf_def)

lemma JoinPath_rooted:
  "IsAbs d \<Longrightarrow> JoinPath d name = pathOf True (cleanElements True [] (d @ ''/'' @ name))"
  by (cases d) (simp_all add: JoinPath_def Clean_rooted IsAbs_def HasPrefix_def)

lemma elements_JoinPath [simp]:
  "IsAbs d \<Longrightarrow> cleanElements True [] (JoinPath d name) = cleanElements True [] (d @ ''/'' @ name)"
  by (simp add: JoinPath_rooted cleanElements_pathOf)

lemma IsAbs_JoinPath [simp]: "IsAbs d \<Longrightarrow> IsAbs (JoinPath d name)"
  by (simp add: JoinPath_rooted)

lemma validEntry_elements:
  assumes "IsAbs d" "cleanElements True [] d \<noteq> []"
  shows "validEntry (Clean d) name \<longleftrightarrow>
    (\<exists>r. cleanElements True [] (d @ ''/'' @ name) = cleanElements True [] d @ r)"
proof -
  let ?D = "cleanElements True [] d" and ?N = "cleanElements True [] (d @ ''/'' @ name)"
  have "cleanElements True [] (Clean d @ ''/'' @ name) = ?N"
    using assms(1) by simp
  then have "Clean (JoinPath (Clean d) name) = pathOf True ?N"
    using assms(1) by (simp add: Clean_rooted [of "JoinPath (Clean d) name"] IsAbs_Clean)
  then have "validEntry (Clean d) name \<longleftrightarrow> (\<exists>r. ?N = ?D @ r \<and> r \<noteq> []) \<or> ?N = ?D"
    using assms by (simp add: validEntry_def Let_def Clean_rooted [of d] prefix_pathOf pathOf_inj)
  then show ?thesis by auto
qed

lemma below_JoinPath: "IsAbs d \<Longrightarrow> validEntry (Clean d) name \<Longrightarrow> below d (JoinPath (Clean d) name)"
  by (cases "cleanElements True [] d = []") (simp_all add: below_def validEntry_elements IsAbs_Clean)

section \<open>The parent directory\<close>

lemma Dir_pathOf: "list_all proper ws \<Longrightarrow> Dir (pathOf True ws) = pathOf True (butlast ws)"
proof (cases ws rule: rev_cases)
  case Nil
  then show ?thesis by (simp add: Dir_def pathOf_def Clean_def IsAbs_def HasPrefix_def)
next
  case (snoc us w)
  assume "list_all proper ws"
  then have p: "list_all proper us" "CHR ''/'' \<notin> set w" using snoc by (auto simp: proper_def)
  obtain q where q: "pathOf True ws = CHR ''/'' # q @ w" "cleanElements True [] q = us"
  proof (cases "us = []")
    case True
    then show ?thesis using snoc that [of "[]"] by (simp add: pathOf_def)
  next
    case False
    show ?thesis
      by (rule that [of "Join us (CHR ''/'') @ ''/''"])
        (use False snoc p in \<open>simp_all add: pathOf_def Join_append cleanElements_Join\<close>)
  qed
  have ends: "q = [] \<or> last q = CHR ''/''"
  proof (cases "us = []")
    case True
    then show ?thesis using q snoc by (simp add: pathOf_def)
  next
    case False
    then have "q = Join us (CHR ''/'') @ ''/''" using q(1) snoc by (simp add: pathOf_def Join_append)
    then show ?thesis by simp
  qed
  have drop: "dropWhile (\<lambda>c. c \<noteq> CHR ''/'') (rev (CHR ''/'' # q @ w)) = rev (CHR ''/'' # q)"
    using p(2) ends by (cases q rule: rev_cases) (auto simp: dropWhile_append3 dropWhile_append2)
  have "Dir (pathOf True ws) = Clean (CHR ''/'' # q)"
    unfolding Dir_def q(1) drop by simp
  also have "\<dots> = pathOf True us"
    using q(2) by (simp add: Clean_rooted IsAbs_def HasPrefix_def)
  finally show ?thesis using snoc by simp
qed

lemma below_Dir:
  assumes "IsAbs d" "below d (JoinPath (Clean d) name)"
  shows "below d (Dir (JoinPath (Clean d) name)) \<or> Dir (JoinPath (Clean d) name) = Dir (Clean d)"
proof -
  let ?D = "cleanElements True [] d" and ?N = "cleanElements True [] (d @ ''/'' @ name)"
  have j: "JoinPath (Clean d) name = pathOf True ?N"
    using assms(1) by (simp add: JoinPath_rooted IsAbs_Clean)
  obtain r where r: "?N = ?D @ r" using assms by (auto simp: below_def j cleanElements_pathOf)
  show ?thesis
  proof (cases "r = []")
    case True
    then have "JoinPath (Clean d) name = Clean d" using j r assms(1) by (simp add: Clean_rooted)
    then show ?thesis by simp
  next
    case False
    have p: "list_all proper (?D @ r)"
      using list_all_proper_clean [of "[]" "d @ ''/'' @ name"] unfolding r by simp
    then have "Dir (JoinPath (Clean d) name) = pathOf True (?D @ butlast r)"
      using j r False by (simp only: Dir_pathOf butlast_append) simp
    moreover have "list_all proper (?D @ butlast r)"
      using p by (auto simp: list_all_iff dest: in_set_butlastD)
    ultimately have "below d (Dir (JoinPath (Clean d) name))"
      by (auto simp: below_def cleanElements_pathOf)
    then show ?thesis ..
  qed
qed

section \<open>What unpacking touches\<close>

fun inside :: "string \<Rightarrow> call \<Rightarrow> bool" where
  "inside d (CFile (FMkdirAll p)) = (below d p \<or> p = Dir (Clean d))"
| "inside d (CFile (FOpen p)) = below d p"
| "inside d (CFile (FCopy p)) = below d p"
| "inside d (CFile (FClose p)) = below d p"
| "inside d (CFile (FWrite p s)) = False"
| "inside d (CExternal s) = True"
| "inside d _ = False"

lemma within_external: "P (CExternal name) \<Longrightarrow> within P (external name f)"
  unfolding external_def by (intro quiet_rules)

lemma within_storeEntry:
  assumes "IsAbs d" "below d (JoinPath (Clean d) name)"
  shows "within (inside d) (storeEntry T (JoinPath (Clean d) name) file)"
  using below_Dir [OF assms] assms(2) unfolding storeEntry_def
  by (auto intro!: quiet_rules within_external)

lemma within_extract_loop:
  assumes "IsAbs d"
  shows "within (inside d) (extract_loop T (Clean d) files)"
proof (induction files)
  case (Cons x files)
  have "within (inside d) (MkdirAll T (JoinPath (Clean d) name)) \<and> within (inside d) (storeEntry T (JoinPath (Clean d) name) x)"
    if "validEntry (Clean d) name" for name
    using below_JoinPath [OF assms that] assms(1) by (auto intro!: quiet_rules within_storeEntry)
  with Cons.IH show ?case
    unfolding extract_loop.simps Let_def by (intro within_if within_onOk within_return) auto
qed (simp add: quiet_rules)

lemma unzipFile_within:
  assumes "IsAbs destination"
  shows "within (inside destination) (unzipFile T archivePath destination)"
  unfolding unzipFile_def
  by (intro within_onOk within_external within_extract_loop assms) simp

section \<open>Properties\<close>

text \<open>
  Unpacking below a rooted destination touches nothing outside it, whatever names the
  entries of the archive have and however the file system answers: every file that is opened,
  written or closed lies below the destination once all \<open>..\<close> are resolved, and so does every
  directory that is made, except that the parent of the destination may be asked for.
\<close>

theorem unzipFile_confined:
  assumes "IsAbs destination"
  shows "within (inside destination) (unzipFile T archivePath destination)"
  using assms by (rule unzipFile_within)

theorem unzipFile_confined_witness:
  "within (inside ''/tmp/osv-offline'') (unzipFile sampleTools ''/tmp/osv-offline/osv-offline.zip'' ''/tmp/osv-offline'')"
  by (rule unzipFile_confined) (simp add: IsAbs_def HasPrefix_def)



text \<open>
  The test is textual, so it fails for destinations it was not written for. With the
  destination \<open>..\<close> it accepts an entry that leaves it, and with the destination \<open>.\<close> or \<open>/\<close> it rejects
  an ordinary file.
\<close>

theorem validEntry_relative:
  "validEntry (Clean ''..'') ''../x'' \<and> JoinPath (Clean ''..'') ''../x'' = ''../../x'' \<and>
   \<not> validEntry (Clean ''.'') ''x'' \<and> \<not> validEntry (Clean ''/'') ''x''"
  by (simp add: validEntry_def JoinPath_def Clean_def IsAbs_def HasPrefix_def pathOf_def cleanElements_def clean_step_def)

end
