(* ===== verification/OsvFacts.thy ===== *)
theory OsvFacts
  imports OsvGenerator
begin

text \<open>
  Properties of the OSV generator: the schedule of the retries, the lists of advisories, the stored
  file and the files the command touches.
\<close>

section \<open>Retries\<close>

definition failedAttempts :: "string \<Rightarrow> nat \<Rightarrow> call list" where
  "failedAttempts url k = concat (map (\<lambda>i. [CHttp url, CSleep (10 ^ 9 * 2 ^ i)]) [0..<k])"

lemma failedAttempts_Suc: "failedAttempts url (Suc k) = failedAttempts url k @ [CHttp url, CSleep (10 ^ 9 * 2 ^ k)]"
  by (simp add: failedAttempts_def)

lemma sint_backoff: "i < 5 \<Longrightarrow> sint (second * 2 ^ i) = 10 ^ 9 * 2 ^ i"
proof -
  have "list_all (\<lambda>i. sint (second * 2 ^ i) = 10 ^ 9 * 2 ^ i) [0..<5]" by (simp add: second_def upt_rec)
  then show "i < 5 \<Longrightarrow> ?thesis" by (simp add: list_all_iff)
qed

definition retried :: "string \<Rightarrow> nat \<Rightarrow> call list \<Rightarrow> error + string \<Rightarrow> bool" where
  "retried url n ts r \<longleftrightarrow>
     ts = failedAttempts url n \<and> (\<exists>lastErr. r = Inl (retriesFailed lastErr)) \<or>
     (\<exists>k < n. ts = failedAttempts url k @ [CHttp url] \<and> (\<exists>resp. StatusCode resp = 200 \<and> r = readBody resp))"

lemma retry_loop_emits:
  "n + i = 5 \<Longrightarrow> emits (retry_loop T url n (second * 2 ^ i) e) (\<lambda>us r. retried url 5 (failedAttempts url i @ us) r)"
proof (induction n arbitrary: i e)
  case 0
  then show ?case by (auto intro!: emits_return simp: retried_def)
next
  case (Suc n)
  have again: "emits (Sleep T (sint (second * 2 ^ i)) \<bind> (\<lambda>_. retry_loop T url n (second * 2 ^ i * 2) e'))
      (\<lambda>us r. retried url 5 (failedAttempts url i @ [CHttp url] @ us) r)" for e'
    using Suc.IH [of "Suc i" e'] Suc.prems sint_backoff [of i] unfolding Sleep_def
    by (intro emits_bind [OF emits_perform [where Q = "\<lambda>ts _. ts = [CSleep (10 ^ 9 * 2 ^ i)]"]])
      (simp_all add: failedAttempts_Suc mult.assoc mult.commute mult.left_commute)
  have "retried url 5 (failedAttempts url i @ [CHttp url]) (readBody resp)" if "StatusCode resp = 200" for resp
    unfolding retried_def using that Suc.prems by (intro disjI2 exI [of _ i] conjI exI [of _ resp] refl) simp_all
  then have "emits (if StatusCode resp = 200 then return (readBody resp)
          else Sleep T (sint (second * 2 ^ i)) \<bind> (\<lambda>_. retry_loop T url n (second * 2 ^ i * 2) None))
      (\<lambda>us r. retried url 5 (failedAttempts url i @ [CHttp url] @ us) r)" for resp
    using again [of None] by (auto intro!: emits_return)
  with again show ?case
    unfolding retry_loop.simps HttpGet_def
    by (intro emits_bind [OF emits_perform [where Q = "\<lambda>ts _. ts = [CHttp url]"]]) (auto split: sum.splits)
qed


section \<open>Lists of advisories\<close>

lemma in_set_dropWhile: "x \<in> set (dropWhile P xs) \<Longrightarrow> x \<in> set xs"
  by (induction xs) (auto split: if_splits)

definition dated :: "string list \<Rightarrow> bool" where
  "dated record \<longleftrightarrow> 2 \<le> length record \<and> parseRFC3339 (record ! 1) \<noteq> None"

definition recent :: "int \<Rightarrow> string list \<Rightarrow> bool" where
  "recent dateThreshold record \<longleftrightarrow> dateThreshold \<le> the (parseRFC3339 (record ! 1))"

text \<open>The records that are read: up to and including the first that is too old.\<close>

definition readUpTo :: "int \<Rightarrow> string list list \<Rightarrow> string list list" where
  "readUpTo th rs = takeWhile (\<lambda>r. dated r \<and> recent th r) rs @ take 1 (dropWhile (\<lambda>r. dated r \<and> recent th r) rs)"

lemma readUpTo_simps [simp]:
  "readUpTo th [] = []"
  "readUpTo th (r # rs) = (if dated r \<and> recent th r then r # readUpTo th rs else [r])"
  by (auto simp: readUpTo_def)

lemma releases_loop_acc:
  "releases_loop th rs acc =
     (if list_all dated (readUpTo th rs) then Inr (acc @ map hd (readUpTo th rs))
      else Inl (if length (last (readUpTo th rs)) < 2 then outOfRange else Err ''parsing time''))"
proof (induction rs arbitrary: acc)
  case (Cons r rs)
  show ?case
  proof (cases "dated r")
    case True
    then obtain t where "\<not> length r < 2" "parseRFC3339 (r ! 1) = Some t" by (auto simp: dated_def)
    moreover have "r ! 0 = hd r" using True by (cases r) (auto simp: dated_def)
    ultimately show ?thesis
      using Cons.IH [of "acc @ [hd r]"] True by (cases rs) (auto simp: recent_def not_less)
  next
    case False
    then show ?thesis by (cases "length r < 2") (auto simp: dated_def)
  qed
qed simp

lemma run_fetchCSV:
  "fst (run_state (fetchCSV T name) s) =
     (case fst (httpGet T (URL @ ''/'' @ name) (world s)) of
        Inl e \<Rightarrow> Inl e
      | Inr resp \<Rightarrow>
          (case Body resp of Inl e \<Rightarrow> Inl e
           | Inr body \<Rightarrow> (case ReadAll body of None \<Rightarrow> Inl (Err ''parse error'') | Some records \<Rightarrow> Inr records)))"
  "world (snd (run_state (fetchCSV T name) s)) = snd (httpGet T (URL @ ''/'' @ name) (world s))"
  by (simp_all add: fetchCSV_def HttpGet_def onOk_def split: sum.splits)

text \<open>The threshold, when the server is asked in the world \<open>w\<close>.\<close>

definition thresholdAt :: "'w toolenv \<Rightarrow> int \<Rightarrow> 'w \<Rightarrow> int" where
  "thresholdAt T n w =
     fromWall T (fst (wallClock T (snd (httpGet T (URL @ ''/releases.csv'') w))) - n * nanosPerDay)"

text \<open>
  When the server answers with a table of records, the advisories are the names in its
  rows up to and including the first that is older than the wanted number of days: the row that ends
  the search is part of the result. A row without a date column is a panic, a row with an unreadable
  date an error; later rows are not looked at.
\<close>

theorem getAdvisoryListByReleases_correct:
  assumes "fst (httpGet T (URL @ ''/releases.csv'') (world s)) = Inr \<lparr>StatusCode = status, Body = Inr (table rs)\<rparr>"
    and "\<And>r. r \<in> set rs \<Longrightarrow> length r = k \<and> list_all plainText r" "2 \<le> k"
  shows "fst (run_state (getAdvisoryListByReleases T n) s) =
    (let found = readUpTo (thresholdAt T n (world s)) rs
     in if list_all dated found then Inr (map hd found) else Inl (Err ''parsing time''))"
proof -
  have rows: "length r = k" if "r \<in> set (readUpTo th rs)" for r th
    using that assms(2) by (auto simp: readUpTo_def dest: set_takeWhileD in_set_takeD in_set_dropWhile)
  have "\<not> length (last (readUpTo th rs)) < 2" if "\<not> list_all dated (readUpTo th rs)" for th
    using that rows [of "last (readUpTo th rs)" th] assms(3) by (cases "readUpTo th rs = []") auto
  then show ?thesis
    using assms(1) ReadAll_table [OF assms(2,3)]
    by (simp add: getAdvisoryListByReleases_def onOk_def run_fetchCSV releases_loop_acc thresholdAt_def Let_def)
qed

text \<open>A server with three dated records; the clock shows 2024-03-01 00:00:00.\<close>

definition releasesTable :: "string list list" where
  "releasesTable =
     [[''2024/rhsa-2024_3.json'', ''2024-02-29T10:00:00Z''], [''2024/rhsa-2024_2.json'', ''2024-02-01T10:00:00+00:00''],
      [''2023/rhsa-2023_1.json'', ''2023-01-01T00:00:00Z'']]"

definition releaseServer :: "unit toolenv" where
  "releaseServer = sampleTools\<lparr>
     httpGet := (\<lambda>url w. (Inr \<lparr>StatusCode = 200, Body = Inr (table releasesTable)\<rparr>, w)),
     wallClock := (\<lambda>w. (1709251200 * 10 ^ 9, w))\<rparr>"

theorem getAdvisoryListByReleases_correct_witness:
  "fst (run_state (getAdvisoryListByReleases releaseServer 10) (start :: unit st)) =
     Inr [''2024/rhsa-2024_3.json'', ''2024/rhsa-2024_2.json'']"
proof -
  have dates: "parseRFC3339 ''2024-02-29T10:00:00Z'' = Some 1709200800000000000"
    "parseRFC3339 ''2024-02-01T10:00:00+00:00'' = Some 1706781600000000000"
    by code_simp+
  have plain: "length r = 2 \<and> list_all plainText r" if "r \<in> set releasesTable" for r
    using that by (auto simp: releasesTable_def plainText_def newline_def quote_def comma_def)
  have get: "fst (httpGet releaseServer (URL @ ''/releases.csv'') (world (start :: unit st)))
      = Inr \<lparr>StatusCode = 200, Body = Inr (table releasesTable)\<rparr>"
    by (simp add: releaseServer_def)
  have "thresholdAt releaseServer 10 (world (start :: unit st)) = 1708387200000000000"
    by (simp add: thresholdAt_def releaseServer_def sampleTools_def nanosPerDay_def)
  then show ?thesis
    using getAdvisoryListByReleases_correct [OF get plain, of 10]
    by (simp add: releasesTable_def dated_def recent_def dates)
qed

section \<open>Advisories by name\<close>

abbreviation isRHSA :: "string \<Rightarrow> bool" where
  "isRHSA name \<equiv> Contains name ''rhsa-''"

lemma modified_loop_acc:
  "length acc = n \<Longrightarrow> limit \<le> 0 \<or> int n < limit \<Longrightarrow>
   modified_loop limit rs acc =
     acc @ (if limit \<le> 0 then filter isRHSA (map hd rs) else take (nat limit - n) (filter isRHSA (map hd rs)))"
proof (induction rs arbitrary: acc n)
  case (Cons r rs)
  show ?case
  proof (cases "isRHSA (hd r)")
    case True
    show ?thesis
    proof (cases "limit = int (Suc n)")
      case one: True
      then have "nat limit - n = Suc 0" by linarith
      with one True Cons.prems show ?thesis by auto
    next
      case False
      then have "nat limit - n = Suc (nat limit - Suc n)" if "0 < limit" using Cons.prems that by linarith
      with False True show ?thesis
        using Cons.IH [of "acc @ [hd r]" "Suc n"] Cons.prems by (auto simp: Let_def)
    qed
  next
    case False
    then show ?thesis using Cons.IH [of acc n] Cons.prems by simp
  qed
qed simp

text \<open>
  The advisories by modification are the names of security advisories in the table, each
  as often as it occurs, from the largest name down; a positive limit keeps the first so many.
\<close>

theorem getAdvisoryListByModified_correct:
  assumes "fst (httpGet T (URL @ ''/changes.csv'') (world s)) = Inr \<lparr>StatusCode = status, Body = Inr body\<rparr>"
    and "ReadAll body = Some rs"
  shows "\<exists>names. fst (run_state (getAdvisoryListByModified T limit) s) =
      Inr (if limit \<le> 0 then names else take (nat limit) names) \<and>
    mset names = mset (filter isRHSA (map hd rs)) \<and> sorted_wrt (\<ge>) names"
proof (intro exI conjI)
  let ?names = "filter isRHSA (map hd (rev (sort_key hd rs)))"
  show "fst (run_state (getAdvisoryListByModified T limit) s) = Inr (if limit \<le> 0 then ?names else take (nat limit) ?names)"
    using assms modified_loop_acc [of "[]" 0 limit]
    by (simp add: getAdvisoryListByModified_def onOk_def run_fetchCSV)
  have "mset (map hd (rev (sort_key hd rs))) = mset (map hd rs)" by simp
  then show "mset ?names = mset (filter isRHSA (map hd rs))" by (simp only: mset_filter)
  have "sorted_wrt (\<le>) (map hd (sort_key hd rs))" by (rule sorted_sort_key)
  then have "sorted_wrt (\<ge>) (map hd (rev (sort_key hd rs)))"
    by (simp add: rev_map [symmetric] sorted_wrt_rev)
  then show "sorted_wrt (\<ge>) ?names" by (rule sorted_wrt_filter)
qed

section \<open>The stored file\<close>

lemma nilOr_inj: "nilOr vs = nilOr ws \<longleftrightarrow> vs = ws"
  by (auto simp: nilOr_def)

lemma eventJson_inj: "eventJson e = eventJson e' \<longleftrightarrow> e = e'"
  by (cases e; cases e') (auto simp: eventJson_def omitempty_def)

lemma rangeJson_inj: "rangeJson r = rangeJson r' \<longleftrightarrow> r = r'"
  using inj_map_eq_map [of eventJson] by (cases r; cases r') (auto simp: rangeJson_def eventJson_inj inj_def)

lemma packageJson_inj: "packageJson p = packageJson p' \<longleftrightarrow> p = p'"
  by (cases p; cases p') (simp add: packageJson_def)

lemma affectedJson_inj: "affectedJson a = affectedJson a' \<longleftrightarrow> a = a'"
  using inj_map_eq_map [of rangeJson] by (cases a; cases a') (auto simp: affectedJson_def packageJson_inj rangeJson_inj inj_def)

lemma referenceJson_inj: "referenceJson r = referenceJson r' \<longleftrightarrow> r = r'"
  by (cases r; cases r') (simp add: referenceJson_def)

lemma osvJson_inj: "osvJson v = osvJson v' \<longleftrightarrow> v = v'"
proof
  assume "osvJson v = osvJson v'"
  moreover have "map affectedJson as = map affectedJson bs \<longleftrightarrow> as = bs" for as bs
    by (intro inj_map_eq_map) (simp add: inj_def affectedJson_inj)
  moreover have "map referenceJson as = map referenceJson bs \<longleftrightarrow> as = bs" for as bs
    by (intro inj_map_eq_map) (simp add: inj_def referenceJson_inj)
  moreover have "map JStr as = map JStr bs \<longleftrightarrow> as = bs" for as bs
    by (intro inj_map_eq_map) (simp add: inj_def)
  ultimately show "v = v'" by (cases v; cases v') (simp add: osvJson_def nilOr_inj)
qed simp

text \<open>
  C28: a line of the stored file is read back as one JSON object, and no two records are stored
  as the same object, so nothing of a record is lost, if its texts are valid UTF-8.
\<close>

theorem osvLine_roundtrip:
  assumes "wf_json (osvJson v)"
  shows "\<exists>j. parseJson (osvLine v) = Some j \<and> (\<forall>v'. osvJson v' = j \<longleftrightarrow> v' = v)"
  using MarshalStruct_read [OF assms, of "[newline]"]
  by (auto simp: osvLine_def osvJson_inj isSpace_def newline_def)

definition oneRecord :: OSV where
  "oneRecord = \<lparr>IdInternal = ''id'', SchemaVersion = ''1.6.0'', osvId = ''CVE-2024-1'', Severity = [], CWEids = [[]],
     Modified = [], Published = [], Summary = [], Details = [], osvAffected = [], osvReferences = []\<rparr>"

theorem osvLine_roundtrip_witness:
  "\<exists>j. parseJson (osvLine oneRecord) = Some j \<and> (\<forall>v'. osvJson v' = j \<longleftrightarrow> v' = oneRecord)"
  by (rule osvLine_roundtrip) code_simp

section \<open>The files of the command\<close>

fun filesBelow :: "string \<Rightarrow> call \<Rightarrow> bool" where
  "filesBelow d (CFile (FWrite p s)) = below d p"
| "filesBelow d (CFile (FMkdirAll p)) = (below d p \<or> p = Dir (Clean d))"
| "filesBelow d (CFile (FOpen p)) = below d p"
| "filesBelow d (CFile (FCopy p)) = below d p"
| "filesBelow d (CFile (FClose p)) = below d p"
| "filesBelow d c = True"

lemma inside_filesBelow: "inside d c \<Longrightarrow> filesBelow d c"
proof (cases c)
  case (CFile op)
  then show "inside d c \<Longrightarrow> ?thesis" by (cases op) simp_all
qed simp_all

lemma below_proper: "IsAbs d \<Longrightarrow> proper n \<Longrightarrow> below d (JoinPath d n)"
  by (simp add: below_def cleanElements_word clean_step_proper) (simp add: proper_def cleanElements_word clean_step_proper)

lemma below_self: "IsAbs d \<Longrightarrow> below d d"
  by (simp add: below_def)

lemma within_retry: "within (filesBelow d) (retry_loop T url n backoff e)"
proof (induction n arbitrary: backoff e)
  case (Suc n)
  show ?case unfolding retry_loop.simps by (intro quiet_rules Suc.IH) simp_all
qed (simp add: quiet_rules)

lemma within_convert: "within (filesBelow d) (convert_loop T vex aff ps acc)"
  unfolding within_def by (rule emits_mono [OF convert_loop_emits]) simp

lemma within_extract_all: "within (filesBelow d) (extract_all T cv as)"
proof (induction as)
  case (Cons a as)
  have "within (filesBelow d) (extractAdvisory T cv a)"
    unfolding extractAdvisory_def GetVEXFromUrl_def retryGet_def ConvertToOSV_def
    by (intro quiet_rules within_retry within_convert)
  then show ?case unfolding extract_all.simps by (intro quiet_rules Cons.IH)
qed (simp add: quiet_rules)

lemma within_store_loop: "below d f \<Longrightarrow> within (filesBelow d) (store_loop T f vs)"
proof (induction vs)
  case (Cons v vs)
  then show ?case unfolding store_loop.simps by (intro quiet_rules) simp_all
qed (simp add: quiet_rules)

lemma within_GenerateOSV:
  "below d f \<Longrightarrow> within (filesBelow d) (GenerateOSV T f cv n)"
  unfolding GenerateOSV_def getAdvisoryListByReleases_def collect_def StoreToFile_def fetchCSV_def
  by (intro quiet_rules within_extract_all within_store_loop) simp_all

lemma within_DownloadOsvDb:
  assumes "IsAbs d"
  shows "within (filesBelow d) (DownloadOsvDb T d)"
proof -
  have "below d (JoinPath d archiveName)"
    using assms by (rule below_proper) (simp add: proper_def archiveName_def)
  moreover have "within (filesBelow d) (unzipFile T p d)" for p
    by (rule within_mono [OF unzipFile_within [OF assms] inside_filesBelow])
  ultimately show ?thesis
    unfolding DownloadOsvDb_def downloadFile_def Let_def
    by (intro quiet_rules within_external) simp_all
qed




end
