(* ===== verification/OsvChannel.thy ===== *)
theory OsvChannel
  imports OsvFacts Steps
begin

text \<open>
  The goroutines of \<open>GenerateOSV\<close>: every run is short, none gets stuck, and each ends with the records
  of all advisories or with a panic of one of them; the sequential program \<open>collect\<close> is one of the runs.
\<close>

section \<open>Progress and result\<close>

text \<open>How many steps are left for a goroutine, and whether it still has to be received from.\<close>

fun stepsLeft :: "worker \<Rightarrow> nat" where
  "stepsLeft (Working a) = 2"
| "stepsLeft (Sending b) = 1"
| "stepsLeft Finished = 0"

text \<open>
  The invariant: \<open>order\<close> lists the goroutines that have been received from, in this order, and
  \<open>block i\<close> is what goroutine \<open>i\<close> made of its advisory.
\<close>

fun agrees :: "(string \<Rightarrow> error + OSV list \<Rightarrow> bool) \<Rightarrow> string \<Rightarrow> OSV list \<Rightarrow> worker \<Rightarrow> bool" where
  "agrees conv a b (Working a') = (a' = a)"
| "agrees conv a b (Sending b') = (b' = b \<and> conv a (Inr b))"
| "agrees conv a b Finished = conv a (Inr b)"

definition collecting ::
  "(string \<Rightarrow> error + OSV list \<Rightarrow> bool) \<Rightarrow> string list \<Rightarrow> collector \<Rightarrow> (nat \<Rightarrow> OSV list) \<Rightarrow> nat list \<Rightarrow> bool"
where
  "collecting conv as s block order \<longleftrightarrow>
     length (workers s) = length as \<and> distinct order \<and> set order \<subseteq> {..<length as} \<and>
     (\<forall>i < length as. (workers s ! i = Finished \<longleftrightarrow> i \<in> set order) \<and> agrees conv (as ! i) (block i) (workers s ! i)) \<and>
     remaining s + length order = length as \<and> osvList s = concat (map block order) \<and>
     (\<forall>e. crashed s = Some e \<longrightarrow> (\<exists>a \<in> set as. conv a (Inl e)))"

lemma collectingD:
  assumes "collecting conv as s block order" "i < length (workers s)"
  shows "i < length as" "workers s ! i = Finished \<longleftrightarrow> i \<in> set order" "agrees conv (as ! i) (block i) (workers s ! i)"
  using assms by (simp_all add: collecting_def)

lemma collecting_update:
  assumes "collecting conv as s block order" "i < length as" "i \<notin> set order" "agrees conv (as ! i) (block' i) w"
    "\<And>j. j \<noteq> i \<Longrightarrow> block' j = block j"
  shows "w \<noteq> Finished \<Longrightarrow> collecting conv as (s\<lparr>workers := (workers s)[i := w]\<rparr>) block' order"
    "w = Finished \<Longrightarrow> remaining s = Suc n \<Longrightarrow>
      collecting conv as (s\<lparr>workers := (workers s)[i := w], remaining := n, osvList := osvList s @ block' i\<rparr>) block' (order @ [i])"
proof -
  have "map block' order = map block order" using assms(3,5) by (intro map_cong refl) metis
  then have "concat (map block order) = concat (map block' order)" by (rule arg_cong [OF sym])
  then show "w \<noteq> Finished \<Longrightarrow> collecting conv as (s\<lparr>workers := (workers s)[i := w]\<rparr>) block' order"
    "w = Finished \<Longrightarrow> remaining s = Suc n \<Longrightarrow>
      collecting conv as (s\<lparr>workers := (workers s)[i := w], remaining := n, osvList := osvList s @ block' i\<rparr>) block' (order @ [i])"
    using assms by (simp_all add: collecting_def nth_list_update)
qed

lemma collecting_spawn: "collecting conv as (spawn as) (\<lambda>i. []) []"
  by (simp add: collecting_def spawn_def)

lemma collecting_step:
  assumes "collect_step conv s s'" "collecting conv as s block order"
  shows "\<exists>block' order'. collecting conv as s' block' order'"
  using assms(1)
proof cases
  case (convert i a b)
  note i = collectingD [OF assms(2) convert(3)]
  have "collecting conv as s' (block(i := b)) order"
    unfolding convert(1) using i convert by (intro collecting_update(1) [OF assms(2)]) auto
  then show ?thesis by blast
next
  case (fail i a e)
  have "as ! i = a" "i < length as" using collectingD [OF assms(2) fail(3)] fail by auto
  then have "\<exists>a \<in> set as. conv a (Inl e)" using fail by (auto intro: nth_mem)
  then have "collecting conv as s' block order" using fail(1) assms(2) by (simp add: collecting_def)
  then show ?thesis by blast
next
  case (receive i b n)
  note i = collectingD [OF assms(2) receive(3)]
  have b: "b = block i" using i receive by simp
  have "collecting conv as s' block (order @ [i])"
    unfolding receive(1) b using i receive by (intro collecting_update(2) [OF assms(2)]) auto
  then show ?thesis by blast
qed

interpretation collector: invariant_steps "collect_step conv" "spawn as" "\<lambda>s. \<exists>block order. collecting conv as s block order"
  for conv as
  by unfold_locales (use collecting_spawn collecting_step in blast)+

definition runLeft :: "collector \<Rightarrow> nat" where
  "runLeft s = (if crashed s = None then sum_list (map stepsLeft (workers s)) else 0)"

lemma runLeft_step:
  assumes "collect_step conv s s'"
  shows "runLeft s' < runLeft s"
proof -
  have le: "stepsLeft (workers s ! i) \<le> sum_list (map stepsLeft (workers s))" if "i < length (workers s)" for i
    using elem_le_sum_list [of i "map stepsLeft (workers s)"] that by simp
  show ?thesis
    using assms
  proof cases
    case (convert i a b)
    then show ?thesis using le [OF convert(3)] by (simp add: runLeft_def map_update sum_list_update)
  next
    case (fail i a e)
    then show ?thesis using le [OF fail(3)] by (simp add: runLeft_def)
  next
    case (receive i b n)
    then show ?thesis using le [OF receive(3)] by (simp add: runLeft_def map_update sum_list_update)
  qed
qed

interpretation collectorRuns: bounded_steps "collect_step conv" runLeft for conv
  by unfold_locales (rule runLeft_step)

text \<open>
  Collecting the records of \<open>n\<close> advisories takes at most \<open>2 * n\<close> steps of the
  goroutines, in every order of these steps: one conversion and one transfer each.
\<close>

theorem collect_bounded:
  assumes "(collect_step conv ^^ k) (spawn advisories) s"
  shows "k \<le> 2 * length advisories"
proof -
  have "k \<le> runLeft (spawn advisories)"
    using collectorRuns.run_length [OF assms] by simp
  also have "\<dots> = 2 * length advisories"
    by (simp add: runLeft_def spawn_def comp_def sum_list_triv)
  finally show ?thesis .
qed

lemma collecting_stuck:
  assumes "collecting conv as s block order" "\<nexists>s'. collect_step conv s s'" "\<And>a. a \<in> set as \<Longrightarrow> \<exists>r. conv a r"
    "crashed s = None"
  shows "set order = {..<length as}"
proof -
  have "i \<in> set order" if i: "i < length as" for i
  proof (rule ccontr)
    assume n: "i \<notin> set order"
    have w: "i < length (workers s)" using assms(1) i by (simp add: collecting_def)
    note d = collectingD [OF assms(1) w]
    show False
    proof (cases "workers s ! i")
      case (Working a)
      then have "a \<in> set as" using d i by simp
      then obtain r where "conv a r" using assms(3) by blast
      with Working w assms(2,4) show False
        by (cases r) (blast intro: collect_step.convert collect_step.fail)+
    next
      case (Sending b)
      have "set order \<subset> {..<length as}" using n i assms(1) by (auto simp: collecting_def)
      then have "card (set order) < length as" using psubset_card_mono [OF finite_lessThan, of "set order" "length as"] by simp
      then have "length order < length as" using assms(1) by (simp add: collecting_def distinct_card)
      then obtain m where "remaining s = Suc m" using assms(1) by (cases "remaining s") (auto simp: collecting_def)
      with Sending w assms(2,4) show False by (blast intro: collect_step.receive)
    next
      case Finished
      with d n show False by simp
    qed
  qed
  then show ?thesis using assms(1) by (auto simp: collecting_def)
qed

text \<open>A permutation of indices permutes the blocks.\<close>

lemma mset_map_indices:
  assumes "distinct order" "set order = {..<n}"
  shows "mset (map f order) = mset (map f [0..<n])"
proof -
  have "mset order = mset [0..<n]"
    using assms by (intro set_eq_iff_mset_eq_distinct [THEN iffD1]) (auto simp: atLeast0LessThan)
  then show ?thesis by (simp only: mset_map)
qed

text \<open>
  C18: when every conversion ends, no run of the goroutines gets stuck before the work is done:
  a state without a further step is a crash caused by an advisory whose conversion panicked, or all
  goroutines have finished, nothing is left to receive, and the records are those of all
  advisories, each block complete and the blocks in some order.
\<close>

theorem collect_completes:
  assumes "(collect_step conv)\<^sup>*\<^sup>* (spawn advisories) s" "\<nexists>s'. collect_step conv s s'"
    "\<And>a. a \<in> set advisories \<Longrightarrow> \<exists>r. conv a r"
  shows "(\<exists>e. crashed s = Some e \<and> (\<exists>a \<in> set advisories. conv a (Inl e))) \<or>
    (remaining s = 0 \<and> set (workers s) \<subseteq> {Finished} \<and>
     (\<exists>blocks arrived. list_all2 (\<lambda>a b. conv a (Inr b)) advisories blocks \<and> mset arrived = mset blocks \<and>
        osvList s = concat arrived))"
proof -
  obtain block order where inv: "collecting conv advisories s block order"
    using collector.reachable_inv [OF assms(1)] by blast
  show ?thesis
  proof (cases "crashed s")
    case (Some e)
    then show ?thesis using inv by (auto simp: collecting_def)
  next
    case None
    then have all: "set order = {..<length advisories}" using collecting_stuck [OF inv assms(2,3)] by simp
    then have fin: "workers s ! i = Finished \<and> conv (advisories ! i) (Inr (block i))" if "i < length advisories" for i
      using that inv collectingD [OF inv, of i] by (auto simp: collecting_def)
    have "length order = length advisories"
      using inv all distinct_card [of order] by (simp add: collecting_def)
    then have "remaining s = 0" using inv by (simp add: collecting_def)
    moreover have "set (workers s) \<subseteq> {Finished}" using fin inv by (auto simp: collecting_def in_set_conv_nth)
    moreover have "list_all2 (\<lambda>a b. conv a (Inr b)) advisories (map block [0..<length advisories])"
      using fin by (simp add: list_all2_conv_all_nth)
    moreover have "mset (map block order) = mset (map block [0..<length advisories])"
      using mset_map_indices [OF _ all] inv by (simp add: collecting_def)
    moreover have "osvList s = concat (map block order)" using inv by (simp add: collecting_def)
    ultimately show ?thesis by blast
  qed
qed


inductive_simps collect_step_iff: "collect_step conv s s'"

definition oneDone :: collector where
  "oneDone = \<lparr>workers = [Finished], remaining = 0, osvList = [oneRecord], crashed = None\<rparr>"

lemma run_one:
  "(collect_step (\<lambda>a r. r = Inr [oneRecord]) ^^ 2) (spawn [''rhsa-1'']) oneDone"
proof -
  have "collect_step (\<lambda>a r. r = Inr [oneRecord]) (spawn [''rhsa-1'']) ((spawn [''rhsa-1''])\<lparr>workers := [Sending [oneRecord]]\<rparr>)"
    by (simp add: collect_step_iff spawn_def)
  moreover have "collect_step (\<lambda>a r. r = Inr [oneRecord]) ((spawn [''rhsa-1''])\<lparr>workers := [Sending [oneRecord]]\<rparr>) oneDone"
    by (simp add: collect_step_iff spawn_def oneDone_def)
  ultimately show ?thesis by (auto simp: numeral_2_eq_2)
qed

theorem collect_completes_witness:
  "remaining oneDone = 0 \<and> (\<exists>blocks arrived. list_all2 (\<lambda>a b. b = [oneRecord]) [''rhsa-1''] blocks
     \<and> mset arrived = mset blocks \<and> osvList oneDone = concat arrived)"
  using collect_completes [of "\<lambda>a r. r = Inr [oneRecord]" "[''rhsa-1'']" oneDone] relpowp_imp_rtranclp [OF run_one]
  by (simp add: collect_step_iff) (simp add: oneDone_def)

theorem collect_bounded_witness: "(2 :: nat) \<le> 2 * length [''rhsa-1'']"
  by (rule collect_bounded [OF run_one])

section \<open>The sequential program is one of the runs\<close>

definition outcome :: "'w toolenv \<Rightarrow> bool \<Rightarrow> string \<Rightarrow> error + OSV list \<Rightarrow> bool" where
  "outcome T containerVulns a r \<longleftrightarrow> (\<exists>s. fst (run_state (extractAdvisory T containerVulns a) s) = r)"

lemma run_extract_all:
  "case fst (run_state (extract_all T cv as) s) of
     Inl e \<Rightarrow> \<exists>a \<in> set as. outcome T cv a (Inl e)
   | Inr bs \<Rightarrow> list_all2 (\<lambda>a b. outcome T cv a (Inr b)) as bs"
proof (induction as arbitrary: s)
  case (Cons a as)
  show ?case
  proof (cases "fst (run_state (extractAdvisory T cv a) s)")
    case (Inl e)
    then show ?thesis by (auto simp: onOk_def outcome_def)
  next
    case (Inr b)
    then have "outcome T cv a (Inr b)" by (auto simp: outcome_def)
    then show ?thesis
      using Cons.IH [of "snd (run_state (extractAdvisory T cv a) s)"] Inr
      by (auto simp: onOk_def split: sum.splits)
  qed
qed simp

lemma all_convert:
  assumes "list_all2 (\<lambda>a b. conv a (Inr b)) as bs" "k \<le> length as"
  shows "(collect_step conv)\<^sup>*\<^sup>* (spawn as) ((spawn as)\<lparr>workers := map Sending (take k bs) @ map Working (drop k as)\<rparr>)"
  using assms(2)
proof (induction k)
  case 0
  then show ?case by (simp add: spawn_def)
next
  case (Suc k)
  have n: "length bs = length as" "conv (as ! k) (Inr (bs ! k))"
    using assms(1) Suc.prems by (auto simp: list_all2_conv_all_nth)
  have "drop k as = as ! k # drop (Suc k) as" "take (Suc k) bs = take k bs @ [bs ! k]"
    using Suc.prems n by (simp_all add: Cons_nth_drop_Suc take_Suc_conv_app_nth)
  then have "collect_step conv ((spawn as)\<lparr>workers := map Sending (take k bs) @ map Working (drop k as)\<rparr>)
      ((spawn as)\<lparr>workers := map Sending (take (Suc k) bs) @ map Working (drop (Suc k) as)\<rparr>)"
    using collect_step.convert [of "(spawn as)\<lparr>workers := map Sending (take k bs) @ map Working (drop k as)\<rparr>" k "as ! k" conv "bs ! k"]
      n Suc.prems by (simp add: spawn_def nth_append list_update_append)
  with Suc show ?case by (auto intro: rtranclp.rtrancl_into_rtrancl)
qed

fun pending :: "worker \<Rightarrow> OSV list multiset" where
  "pending (Sending b) = {#b#}"
| "pending w = {#}"

lemma in_pending: "b \<in># sum_list (map pending ws) \<Longrightarrow> \<exists>i < length ws. ws ! i = Sending b"
proof -
  assume "b \<in># sum_list (map pending ws)"
  then obtain i where "i < length ws" "b \<in># pending (ws ! i)" by (auto simp: in_set_conv_nth)
  then show ?thesis by (cases "ws ! i") auto
qed

lemma all_receive:
  "mset arrived = sum_list (map pending (workers s)) \<Longrightarrow> remaining s = length arrived \<Longrightarrow> crashed s = None \<Longrightarrow>
   \<exists>s'. (collect_step conv)\<^sup>*\<^sup>* s s' \<and> crashed s' = None \<and> remaining s' = 0 \<and> osvList s' = osvList s @ concat arrived"
proof (induction arrived arbitrary: s)
  case (Cons b arrived)
  then have "b \<in># sum_list (map pending (workers s))" by (metis list.set_intros(1) set_mset_mset)
  then obtain i where i: "i < length (workers s)" "workers s ! i = Sending b"
    using in_pending by blast
  let ?s = "s\<lparr>workers := (workers s)[i := Finished], remaining := length arrived, osvList := osvList s @ b\<rparr>"
  have "collect_step conv s ?s" using Cons.prems i by (intro collect_step.receive) simp_all
  moreover have "mset arrived = sum_list (map pending (workers ?s))"
    using Cons.prems(1) i arg_cong [OF id_take_nth_drop [OF i(1)], of "\<lambda>ws. sum_list (map pending ws)"]
    by (simp add: upd_conv_take_nth_drop)
  ultimately show ?case using Cons.IH [of ?s] Cons.prems(3) by (auto intro: converse_rtranclp_into_rtranclp)
qed auto

text \<open>
  C30: when the blocks arrive in some order, the program \<open>collect\<close>, which converts one
  advisory after the other, ends as some run of the goroutines ends: with the same records, nothing
  left to receive and no crash, or with the same panic.
\<close>

theorem collect_refines:
  assumes "\<And>w bs. mset (fst (arrivalOrder T w) bs) = mset bs"
  shows "\<exists>s'. (collect_step (outcome T containerVulns))\<^sup>*\<^sup>* (spawn advisories) s' \<and>
    (case fst (run_state (collect T containerVulns advisories) s) of
       Inl e \<Rightarrow> crashed s' = Some e
     | Inr osvs \<Rightarrow> crashed s' = None \<and> remaining s' = 0 \<and> osvList s' = osvs)"
proof (cases "fst (run_state (extract_all T containerVulns advisories) s)")
  case (Inl e)
  then obtain i where "i < length advisories" "outcome T containerVulns (advisories ! i) (Inl e)"
    using run_extract_all [where T = T and cv = containerVulns and as = advisories and s = s] by (auto simp: in_set_conv_nth)
  then have "collect_step (outcome T containerVulns) (spawn advisories) ((spawn advisories)\<lparr>crashed := Some e\<rparr>)"
    by (intro collect_step.fail [of _ i "advisories ! i"]) (simp_all add: spawn_def)
  then show ?thesis using Inl by (intro exI conjI r_into_rtranclp) (auto simp: collect_def onOk_def)
next
  case (Inr bs)
  then have bs: "list_all2 (\<lambda>a b. outcome T containerVulns a (Inr b)) advisories bs"
    using run_extract_all [where T = T and cv = containerVulns and as = advisories and s = s] by simp
  then have l: "length bs = length advisories" by (simp add: list_all2_lengthD)
  obtain w where w: "fst (run_state (collect T containerVulns advisories) s) = Inr (concat (fst (arrivalOrder T w) bs))"
    using Inr by (auto simp: collect_def onOk_def)
  let ?m = "(spawn advisories)\<lparr>workers := map Sending bs\<rparr>"
  have m: "(collect_step (outcome T containerVulns))\<^sup>*\<^sup>* (spawn advisories) ?m"
    using all_convert [OF bs le_refl] l by simp
  have "mset (fst (arrivalOrder T w) bs) = sum_list (map pending (map Sending bs))"
    using assms by (induction bs) auto
  moreover have "length (fst (arrivalOrder T w) bs) = length advisories"
    using arg_cong [OF assms [of w bs], of size] l by simp
  ultimately obtain s' where "(collect_step (outcome T containerVulns))\<^sup>*\<^sup>* ?m s'" "crashed s' = None" "remaining s' = 0"
      "osvList s' = concat (fst (arrivalOrder T w) bs)"
    using all_receive [of "fst (arrivalOrder T w) bs" ?m "outcome T containerVulns"] by (auto simp: spawn_def)
  then show ?thesis using m w by (intro exI [of _ s'] conjI rtranclp_trans [OF m]) simp_all
qed

theorem collect_refines_witness:
  "\<exists>s'. (collect_step (outcome sampleTools True))\<^sup>*\<^sup>* (spawn [''rhsa-1'']) s' \<and>
    (case fst (run_state (collect sampleTools True [''rhsa-1'']) (start :: unit st)) of
       Inl e \<Rightarrow> crashed s' = Some e
     | Inr osvs \<Rightarrow> crashed s' = None \<and> remaining s' = 0 \<and> osvList s' = osvs)"
  by (rule collect_refines) (simp add: sampleTools_def)



end
